(* ===== verification/Rust_Str.thy ===== *)
theory Rust_Str
  imports Prelude
begin

text \<open>
  The methods of \<^verbatim>\<open>str\<close> and \<^verbatim>\<open>char\<close> the crates call, as executable functions, and
  their characterisations. The list functions are polymorphic so that the lemmas serve byte
  strings too.
\<close>

subsection \<open>Prefixes and substrings\<close>

fun strip_prefix :: "'a list \<Rightarrow> 'a list \<Rightarrow> 'a list option" where
  "strip_prefix [] s = Some s"
| "strip_prefix (p # ps) [] = None"
| "strip_prefix (p # ps) (c # cs) = (if p = c then strip_prefix ps cs else None)"

definition starts_with :: "'a list \<Rightarrow> 'a list \<Rightarrow> bool" where
  "starts_with s p = (strip_prefix p s \<noteq> None)"

fun str_contains :: "'a list \<Rightarrow> 'a list \<Rightarrow> bool" where
  "str_contains [] n = (n = [])"
| "str_contains (c # cs) n = (starts_with (c # cs) n \<or> str_contains cs n)"

text \<open>\<^verbatim>\<open>s.find(n)\<close>, returned as the text before the match and the text after it.\<close>

fun find_split :: "'a list \<Rightarrow> 'a list \<Rightarrow> ('a list \<times> 'a list) option" where
  "find_split n s =
     (case strip_prefix n s of
        Some rest \<Rightarrow> Some ([], rest)
      | None \<Rightarrow> (case s of [] \<Rightarrow> None
                 | c # cs \<Rightarrow> map_option (\<lambda>(a, b). (c # a, b)) (find_split n cs)))"

declare find_split.simps [simp del]

lemma strip_prefix_Some [str_simps]: "strip_prefix p s = Some r \<longleftrightarrow> s = p @ r"
  by (induction p s rule: strip_prefix.induct) auto

lemma strip_prefix_append [simp]: "strip_prefix p (p @ r) = Some r"
  by (simp add: str_simps)

lemma starts_with_iff [str_simps]: "starts_with s p \<longleftrightarrow> (\<exists>r. s = p @ r)"
  unfolding starts_with_def by (metis not_None_eq strip_prefix_Some)

lemma starts_with_prefix: "starts_with s p = prefix p s"
  by (simp add: str_simps prefix_def)

lemma starts_with_code [simp]:
  "starts_with s []"
  "\<not> starts_with [] (p # ps)"
  "starts_with (c # cs) (p # ps) \<longleftrightarrow> p = c \<and> starts_with cs ps"
  by (auto simp: starts_with_def)

lemma str_contains_iff [str_simps]: "str_contains s n \<longleftrightarrow> (\<exists>a b. s = a @ n @ b)"
proof (induction s)
  case Nil
  then show ?case by simp
next
  case (Cons c cs)
  show ?case
  proof
    assume "str_contains (c # cs) n"
    then consider "starts_with (c # cs) n" | "str_contains cs n" by auto
    then show "\<exists>a b. c # cs = a @ n @ b"
    proof cases
      case 1
      then obtain r where "c # cs = n @ r" by (auto simp: str_simps)
      then have "c # cs = [] @ n @ r" by simp
      then show ?thesis by blast
    next
      case 2
      with Cons.IH obtain a b where "cs = a @ n @ b" by blast
      then have "c # cs = (c # a) @ n @ b" by simp
      then show ?thesis by blast
    qed
  next
    assume "\<exists>a b. c # cs = a @ n @ b"
    then obtain a b where ab: "c # cs = a @ n @ b" by blast
    show "str_contains (c # cs) n"
    proof (cases a)
      case Nil
      with ab have "starts_with (c # cs) n" by (auto simp: str_simps)
      then show ?thesis by simp
    next
      case (Cons x a')
      with ab have "cs = a' @ n @ b" by simp
      with Cons.IH show ?thesis by auto
    qed
  qed
qed

lemma str_contains_single: "str_contains s [c] \<longleftrightarrow> c \<in> set s"
  by (auto simp: str_simps in_set_conv_decomp)

lemma str_contains_refl [simp]: "str_contains s s"
  by (metis append.right_neutral append_Nil str_contains_iff)

lemma str_contains_Nil [simp]: "str_contains s []"
  by (cases s) auto

lemma str_contains_append: "str_contains s n \<Longrightarrow> str_contains (a @ s @ b) n"
  unfolding str_contains_iff by (metis append.assoc)

lemma find_split_Some: "find_split n s = Some (a, b) \<Longrightarrow> s = a @ n @ b"
proof (induction n s arbitrary: a rule: find_split.induct)
  case (1 n s)
  show ?case
  proof (cases "strip_prefix n s")
    case (Some r)
    with "1.prems" show ?thesis by (auto simp: find_split.simps[of n s] str_simps)
  next
    case None
    with "1.prems" obtain c cs a' where "s = c # cs" "find_split n cs = Some (a', b)" "a = c # a'"
      by (auto simp: find_split.simps[of n s] split: list.splits)
    with "1.IH"[OF None] show ?thesis by simp
  qed
qed

lemma find_split_None: "find_split n s = None \<longleftrightarrow> \<not> str_contains s n"
proof (induction s)
  case Nil
  then show ?case by (cases n) (auto simp: find_split.simps)
next
  case (Cons c cs)
  then show ?case
    by (auto simp: find_split.simps[of n "c # cs"] starts_with_def split: option.splits)
qed

lemma find_split_single:
  assumes "c \<notin> set a"
  shows "find_split [c] (a @ c # b) = Some (a, b)"
  using assms
proof (induction a)
  case Nil
  then show ?case by (simp add: find_split.simps)
next
  case (Cons x xs)
  then show ?case by (auto simp: find_split.simps[of "[c]" "x # xs @ c # b"])
qed

lemma find_split_single_first: "find_split [c] s = Some (a, b) \<Longrightarrow> c \<notin> set a"
proof (induction s arbitrary: a)
  case Nil
  then show ?case by (simp add: find_split.simps)
next
  case (Cons x xs)
  then show ?case
    by (auto simp: find_split.simps[of "[c]" "x # xs"] split: if_splits)
qed

subsection \<open>Splitting and joining\<close>

text \<open>\<^verbatim>\<open>split(c)\<close>: one piece more than there are separators, empty pieces kept.\<close>

fun split_on :: "'a \<Rightarrow> 'a list \<Rightarrow> 'a list list" where
  "split_on c [] = [[]]"
| "split_on c (x # xs) =
     (if x = c then [] # split_on c xs
      else (case split_on c xs of [] \<Rightarrow> [[x]] | p # ps \<Rightarrow> (x # p) # ps))"

fun join_with :: "'a list \<Rightarrow> 'a list list \<Rightarrow> 'a list" where
  "join_with sep [] = []"
| "join_with sep [x] = x"
| "join_with sep (x # y # ys) = x @ sep @ join_with sep (y # ys)"

lemma split_on_not_Nil [simp]: "split_on c s \<noteq> []"
  by (induction s) (auto split: list.splits)

lemma split_on_append_sep: "c \<notin> set x \<Longrightarrow> split_on c (x @ c # s) = x # split_on c s"
  by (induction x) auto

lemma split_on_no_sep: "c \<notin> set x \<Longrightarrow> split_on c x = [x]"
  by (induction x) auto

lemma split_on_pieces: "p \<in> set (split_on c s) \<Longrightarrow> c \<notin> set p"
  by (induction s arbitrary: p) (auto split: list.splits if_splits)

lemma join_split: "join_with [c] (split_on c s) = s"
proof (induction s)
  case Nil
  then show ?case by simp
next
  case (Cons x xs)
  obtain p ps where ps: "split_on c xs = p # ps" by (metis neq_Nil_conv split_on_not_Nil)
  with Cons show ?case by (cases ps) auto
qed

lemma split_join:
  "xs \<noteq> [] \<Longrightarrow> (\<And>x. x \<in> set xs \<Longrightarrow> c \<notin> set x) \<Longrightarrow> split_on c (join_with [c] xs) = xs"
proof (induction xs)
  case Nil
  then show ?case by simp
next
  case (Cons x xs)
  then show ?case by (cases xs) (auto simp: split_on_no_sep split_on_append_sep)
qed

lemma join_with_inj:
  assumes "xs \<noteq> []" "ys \<noteq> []" "\<And>x. x \<in> set xs \<union> set ys \<Longrightarrow> c \<notin> set x"
    and "join_with [c] xs = join_with [c] ys"
  shows "xs = ys"
  using assms split_join[of xs c] split_join[of ys c] by (metis UnI1 UnI2)

lemma join_with_append:
  "xs \<noteq> [] \<Longrightarrow> ys \<noteq> [] \<Longrightarrow> join_with sep (xs @ ys) = join_with sep xs @ sep @ join_with sep ys"
proof (induction xs)
  case Nil
  then show ?case by simp
next
  case (Cons x xs)
  then show ?case by (cases xs; cases ys) auto
qed

lemma set_join_with: "set (join_with sep xs) \<subseteq> set sep \<union> (\<Union>x \<in> set xs. set x)"
  by (induction sep xs rule: join_with.induct) auto

subsection \<open>Characters\<close>

abbreviation newline :: char where "newline \<equiv> CHR 0x0A"
abbreviation carriage_return :: char where "carriage_return \<equiv> CHR 0x0D"
abbreviation backslash :: char where "backslash \<equiv> CHR 0x5C"
abbreviation nul :: char where "nul \<equiv> CHR 0x00"

definition is_ascii :: "char \<Rightarrow> bool" where
  "is_ascii c = ((of_char c :: nat) < 128)"

definition is_control :: "char \<Rightarrow> bool" where
  "is_control c = (let n = (of_char c :: nat) in n < 32 \<or> (127 \<le> n \<and> n < 160))"

definition is_ascii_control :: "char \<Rightarrow> bool" where
  "is_ascii_control c = (let n = (of_char c :: nat) in n < 32 \<or> n = 127)"

definition is_whitespace :: "char \<Rightarrow> bool" where
  "is_whitespace c =
     (let n = (of_char c :: nat) in (9 \<le> n \<and> n \<le> 13) \<or> n = 32 \<or> n = 133 \<or> n = 160)"

definition is_ascii_digit :: "char \<Rightarrow> bool" where
  "is_ascii_digit c = (let n = (of_char c :: nat) in 48 \<le> n \<and> n \<le> 57)"

definition is_ascii_lowercase :: "char \<Rightarrow> bool" where
  "is_ascii_lowercase c = (let n = (of_char c :: nat) in 97 \<le> n \<and> n \<le> 122)"

definition is_ascii_uppercase :: "char \<Rightarrow> bool" where
  "is_ascii_uppercase c = (let n = (of_char c :: nat) in 65 \<le> n \<and> n \<le> 90)"

definition is_ascii_alphanumeric :: "char \<Rightarrow> bool" where
  "is_ascii_alphanumeric c = (is_ascii_digit c \<or> is_ascii_lowercase c \<or> is_ascii_uppercase c)"

definition ascii_lower :: "char \<Rightarrow> char" where
  "ascii_lower c = (if is_ascii_uppercase c then char_of ((of_char c :: nat) + 32) else c)"

definition to_ascii_lowercase :: "string \<Rightarrow> string" where
  "to_ascii_lowercase = map ascii_lower"

lemmas char_class_defs = is_ascii_def is_control_def is_ascii_control_def is_whitespace_def
  is_ascii_digit_def is_ascii_lowercase_def is_ascii_uppercase_def is_ascii_alphanumeric_def

subsection \<open>Trimming, replacing, lines, words\<close>

definition trim_start :: "string \<Rightarrow> string" where
  "trim_start = dropWhile is_whitespace"

definition trim_matches :: "(char \<Rightarrow> bool) \<Rightarrow> string \<Rightarrow> string" where
  "trim_matches P s = rev (dropWhile P (rev (dropWhile P s)))"

definition trim :: "string \<Rightarrow> string" where
  "trim = trim_matches is_whitespace"

definition replace_char :: "char \<Rightarrow> string \<Rightarrow> string \<Rightarrow> string" where
  "replace_char c r s = concat (map (\<lambda>x. if x = c then r else [x]) s)"

text \<open>\<^verbatim>\<open>replace(n, r)\<close> for a non-empty pattern: left to right, without overlap.\<close>

function replace_str :: "string \<Rightarrow> string \<Rightarrow> string \<Rightarrow> string" where
  "replace_str n r s =
     (if n = [] then s
      else (case find_split n s of None \<Rightarrow> s | Some (a, b) \<Rightarrow> a @ r @ replace_str n r b))"
  by pat_completeness auto
termination
  by (relation "measure (\<lambda>(n, r, s). length s)") (auto dest!: find_split_Some)

declare replace_str.simps [simp del]

definition strip_cr :: "string \<Rightarrow> string" where
  "strip_cr s = (if s \<noteq> [] \<and> last s = carriage_return then butlast s else s)"

definition str_lines :: "string \<Rightarrow> string list" where
  "str_lines s =
     (let ps = split_on newline s
      in map strip_cr (butlast ps) @ (if last ps = [] then [] else [last ps]))"

definition split_whitespace :: "string \<Rightarrow> string list" where
  "split_whitespace s =
     filter (\<lambda>p. p \<noteq> [])
       (split_on (CHR '' '') (map (\<lambda>c. if is_whitespace c then CHR '' '' else c) s))"

lemma trim_matches_id:
  "s = [] \<or> \<not> P (hd s) \<and> \<not> P (last s) \<Longrightarrow> trim_matches P s = s"
proof (cases s)
  case Nil
  then show ?thesis by (simp add: trim_matches_def)
next
  case (Cons c cs)
  assume a: "s = [] \<or> \<not> P (hd s) \<and> \<not> P (last s)"
  with Cons have "dropWhile P s = s" by simp
  moreover have "dropWhile P (rev s) = rev s"
    using a Cons by (metis dropWhile_eq_self_iff hd_rev list.distinct(1))
  ultimately show ?thesis by (simp add: trim_matches_def)
qed

lemma set_trim_matches: "set (trim_matches P s) \<subseteq> set s"
  unfolding trim_matches_def by (metis set_dropWhileD set_rev subsetI)

lemma trim_id: "(\<And>c. c \<in> set s \<Longrightarrow> \<not> is_whitespace c) \<Longrightarrow> trim s = s"
  unfolding trim_def by (rule trim_matches_id) (cases s, auto)

lemma set_trim: "set (trim s) \<subseteq> set s"
  by (simp add: trim_def set_trim_matches)

lemma replace_char_single:
  "replace_char c [d] s = map (\<lambda>x. if x = c then d else x) s"
  by (induction s) (auto simp: replace_char_def)

lemma replace_str_absent: "\<not> str_contains s n \<Longrightarrow> replace_str n r s = s"
  by (subst replace_str.simps) (auto simp: find_split_None[symmetric])

lemma split_whitespace_words:
  "w \<in> set (split_whitespace s) \<Longrightarrow> w \<noteq> [] \<and> (\<forall>c \<in> set w. \<not> is_whitespace c)"
proof -
  assume w: "w \<in> set (split_whitespace s)"
  let ?m = "map (\<lambda>c. if is_whitespace c then CHR '' '' else c) s"
  from w have p: "w \<in> set (split_on (CHR '' '') ?m)" and ne: "w \<noteq> []"
    by (auto simp: split_whitespace_def)
  have sub: "set w \<subseteq> set ?m"
  proof -
    have "set q \<subseteq> set t" if "q \<in> set (split_on d t)" for q d and t :: string
      using that by (induction t arbitrary: q) (fastforce split: list.splits if_splits)+
    with p show ?thesis by blast
  qed
  have "\<not> is_whitespace c" if c: "c \<in> set w" for c
  proof -
    from c p have "c \<noteq> CHR '' ''" using split_on_pieces by metis
    moreover from c sub have "c \<in> set ?m" by blast
    ultimately show ?thesis by auto
  qed
  with ne show ?thesis by blast
qed

subsection \<open>Numbers\<close>

fun show_nat :: "nat \<Rightarrow> string" where
  "show_nat n =
     (if n < 10 then [char_of (48 + n)] else show_nat (n div 10) @ [char_of (48 + n mod 10)])"

declare show_nat.simps [simp del]

fun parse_digits :: "nat \<Rightarrow> string \<Rightarrow> nat option" where
  "parse_digits acc [] = Some acc"
| "parse_digits acc (c # cs) =
     (if is_ascii_digit c then parse_digits (10 * acc + (of_char c - 48)) cs else None)"

text \<open>\<^verbatim>\<open>parse::<uN>()\<close> with \<open>2 ^ N = bound\<close>: an optional plus sign, at least one digit, no overflow.\<close>

definition parse_uint :: "nat \<Rightarrow> string \<Rightarrow> nat option" where
  "parse_uint bound s =
     (let t = (case s of [] \<Rightarrow> [] | c # cs \<Rightarrow> if c = CHR ''+'' then cs else s)
      in if t = [] then None
         else (case parse_digits 0 t of
                 None \<Rightarrow> None
               | Some n \<Rightarrow> if n < bound then Some n else None))"

lemma parse_digits_append:
  "parse_digits acc (xs @ ys) =
     (case parse_digits acc xs of None \<Rightarrow> None | Some n \<Rightarrow> parse_digits n ys)"
  by (induction xs arbitrary: acc) auto

lemma digit_char:
  assumes "n < (10 :: nat)"
  shows "is_ascii_digit (char_of (48 + n))" "of_char (char_of (48 + n) :: char) = 48 + n"
  using assms by (auto simp: is_ascii_digit_def Let_def)

lemma parse_digits_show: "parse_digits 0 (show_nat n) = Some n"
proof (induction n rule: show_nat.induct)
  case (1 n)
  show ?case
  proof (cases "n < 10")
    case True
    then show ?thesis by (subst show_nat.simps) (auto simp: digit_char)
  next
    case False
    with 1 have "parse_digits 0 (show_nat (n div 10)) = Some (n div 10)" by simp
    with False show ?thesis
      by (subst show_nat.simps) (auto simp: parse_digits_append digit_char)
  qed
qed

lemma show_nat_digits: "c \<in> set (show_nat n) \<Longrightarrow> is_ascii_digit c"
proof (induction n rule: show_nat.induct)
  case (1 n)
  show ?case
  proof (cases "n < 10")
    case True
    with "1.prems" show ?thesis by (subst (asm) show_nat.simps) (auto simp: digit_char)
  next
    case False
    with 1 show ?thesis by (subst (asm) (2) show_nat.simps) (auto simp: digit_char)
  qed
qed

lemma show_nat_not_Nil [simp]: "show_nat n \<noteq> []"
  by (subst show_nat.simps) simp

lemma parse_uint_show:
  assumes "n < bound"
  shows "parse_uint bound (show_nat n) = Some n"
proof -
  obtain c cs where s: "show_nat n = c # cs" by (meson list.exhaust show_nat_not_Nil)
  then have "is_ascii_digit c" using show_nat_digits by (metis list.set_intros(1))
  then have "c \<noteq> CHR ''+''" by (auto simp: is_ascii_digit_def)
  with assms s parse_digits_show[of n] show ?thesis by (simp add: parse_uint_def)
qed

lemma parse_uint_bound: "parse_uint bound s = Some n \<Longrightarrow> n < bound"
  by (auto simp: parse_uint_def Let_def split: option.splits if_splits)

subsection \<open>UTF-8\<close>

definition utf8_char :: "char \<Rightarrow> bytes" where
  "utf8_char c =
     (let n = (of_char c :: nat)
      in if n < 128 then [of_nat n] else [of_nat (192 + n div 64), of_nat (128 + n mod 64)])"

definition as_bytes :: "string \<Rightarrow> bytes" where
  "as_bytes s = concat (map utf8_char s)"

lemma as_bytes_ascii:
  "(\<And>c. c \<in> set s \<Longrightarrow> is_ascii c) \<Longrightarrow> as_bytes s = map (\<lambda>c. of_nat (of_char c)) s"
  by (induction s) (auto simp: as_bytes_def utf8_char_def is_ascii_def Let_def)

text \<open>UTF-8 decoding on the range of characters of the model, the left inverse of \<open>as_bytes\<close>.\<close>
fun utf8_latin1 :: "bytes \<Rightarrow> string" where
  "utf8_latin1 [] = []"
| "utf8_latin1 [b] = [char_of (unat b)]"
| "utf8_latin1 (b # c # bs) =
     (if unat b < 128 then char_of (unat b) # utf8_latin1 (c # bs)
      else char_of ((unat b - 192) * 64 + (unat c - 128)) # utf8_latin1 bs)"

lemma utf8_latin1_ascii: "unat b < 128 \<Longrightarrow> utf8_latin1 (b # bs) = char_of (unat b) # utf8_latin1 bs"
  by (cases bs) simp_all

lemma utf8_latin1_as_bytes: "utf8_latin1 (as_bytes s) = s"
proof (induction s)
  case Nil
  show ?case by (simp add: as_bytes_def)
next
  case (Cons c s)
  let ?n = "of_char c :: nat"
  have n: "?n < 256" by simp
  show ?case
  proof (cases "?n < 128")
    case True
    then have "unat (of_nat ?n :: u8) = ?n" by (simp add: unsigned_of_nat take_bit_nat_eq_self)
    with True Cons show ?thesis by (simp add: as_bytes_def utf8_char_def Let_def utf8_latin1_ascii)
  next
    case False
    have "?n div 64 < 4" using n by (simp add: less_mult_imp_div_less)
    then have b: "unat (of_nat (192 + ?n div 64) :: u8) = 192 + ?n div 64"
      by (simp only: unsigned_of_nat) (simp add: take_bit_nat_eq_self)
    have c: "unat (of_nat (128 + ?n mod 64) :: u8) = 128 + ?n mod 64"
      using mod_less_divisor[of 64 ?n] by (simp only: unsigned_of_nat) (simp add: take_bit_nat_eq_self)
    have "as_bytes (c # s) = of_nat (192 + ?n div 64) # of_nat (128 + ?n mod 64) # as_bytes s"
      using False by (simp add: as_bytes_def utf8_char_def Let_def)
    then have "utf8_latin1 (as_bytes (c # s)) = char_of (?n div 64 * 64 + ?n mod 64) # utf8_latin1 (as_bytes s)"
      by (simp only: utf8_latin1.simps b c) simp
    with Cons show ?thesis by (simp only: div_mult_mod_eq char_of_char)
  qed
qed

lemma as_bytes_inj [simp]: "as_bytes s = as_bytes t \<longleftrightarrow> s = t"
  by (metis utf8_latin1_as_bytes)

subsection \<open>Paths\<close>

text \<open>\<^verbatim>\<open>Path::join\<close>: an absolute argument replaces the base, and no separator is added to an empty base or
  behind one.\<close>

definition path_sep :: "string \<Rightarrow> string" where
  "path_sep base = (if base = [] \<or> last base = CHR ''/'' then [] else ''/'')"

definition path_join :: "string \<Rightarrow> string \<Rightarrow> string" where
  "path_join base p = (if starts_with p ''/'' then p else base @ path_sep base @ p)"

end
