(* ===== verification/Types.thy ===== *)
theory Types
  imports Rust_Str
begin

text \<open>
  The data of crate \<^verbatim>\<open>aros-types\<close>: typed identifiers, enums, the authorization manifest, tool
  intents and receipts, and the campaign and evidence records the trusted core passes around.
  Constructors and fields carry the source's names behind a short prefix per type. An
  \<^verbatim>\<open>IpNet\<close> (crate \<^verbatim>\<open>ipnet\<close>) is the type parameter \<open>'net\<close>.
\<close>

subsection \<open>Typed identifiers (ids.rs)\<close>

datatype campaign_id = CampaignId uuid
datatype target_id = TargetId uuid
datatype snapshot_id = SnapshotId uuid
datatype sandbox_id = SandboxId uuid
datatype hypothesis_id = HypothesisId uuid
datatype experiment_id = ExperimentId uuid
datatype finding_id = FindingId uuid
datatype artifact_id = ArtifactId uuid
datatype verifier_run_id = VerifierRunId uuid
datatype patch_id = PatchId uuid
datatype node_id = NodeId uuid
datatype edge_id = EdgeId uuid
datatype request_id = RequestId uuid
datatype run_id = RunId uuid

subsection \<open>Enums (enums.rs)\<close>

datatype visibility_mode = BlackBox | GrayBox | WhiteBox

datatype epistemic_state =
    ES_Observed | ES_Derived | ES_Inferred | ES_Hypothesized | ES_Supported | ES_Claimed
  | ES_Verified | ES_Refuted | ES_Stale

definition is_established_fact :: "epistemic_state \<Rightarrow> bool" where
  "is_established_fact e = (e = ES_Observed \<or> e = ES_Verified)"

datatype policy_decision = Allow | Deny | RequiresHuman

datatype campaign_state =
    CS_Discovering | CS_Mapping | CS_Hypothesizing | CS_Experimenting | CS_Candidate
  | CS_Verifying | CS_Verified | CS_Minimizing | CS_Remediating | CS_Reattacking
  | CS_RegressionProtected | CS_Refuted | CS_NonReproducible | CS_InsufficientEvidence
  | CS_OutOfScope | CS_PolicyBlocked | CS_Tampered | CS_Failed

fun is_terminal :: "campaign_state \<Rightarrow> bool" where
  "is_terminal CS_RegressionProtected = True"
| "is_terminal CS_Refuted = True"
| "is_terminal CS_NonReproducible = True"
| "is_terminal CS_InsufficientEvidence = True"
| "is_terminal CS_OutOfScope = True"
| "is_terminal CS_PolicyBlocked = True"
| "is_terminal CS_Tampered = True"
| "is_terminal CS_Failed = True"
| "is_terminal _ = False"

datatype evidence_level =
    E0HypothesisOnly | E1StaticSupport | E2DynamicAnomaly | E3InvariantViolation
  | E4IndependentReproduction | E5MinimizedReproduction | E6CounterfactualDifferential
  | E7VariantReattackAndRegression

fun level_rank :: "evidence_level \<Rightarrow> nat" where
  "level_rank E0HypothesisOnly = 0"
| "level_rank E1StaticSupport = 1"
| "level_rank E2DynamicAnomaly = 2"
| "level_rank E3InvariantViolation = 3"
| "level_rank E4IndependentReproduction = 4"
| "level_rank E5MinimizedReproduction = 5"
| "level_rank E6CounterfactualDifferential = 6"
| "level_rank E7VariantReattackAndRegression = 7"

lemma level_rank_inj: "level_rank a = level_rank b \<longleftrightarrow> a = b"
  by (cases a; cases b) auto

text \<open>The derived \<^verbatim>\<open>Ord\<close> is the order of declaration.\<close>

instantiation evidence_level :: linorder
begin

definition less_eq_evidence_level :: "evidence_level \<Rightarrow> evidence_level \<Rightarrow> bool" where
  "less_eq_evidence_level a b = (level_rank a \<le> level_rank b)"

definition less_evidence_level :: "evidence_level \<Rightarrow> evidence_level \<Rightarrow> bool" where
  "less_evidence_level a b = (level_rank a < level_rank b)"

instance
  by standard (auto simp: less_eq_evidence_level_def less_evidence_level_def level_rank_inj)

end

lemmas level_order = less_eq_evidence_level_def less_evidence_level_def

datatype graph_kind = GK_TargetReality | GK_Research | GK_Historical

datatype destructive_policy = Forbid | RequireHuman | AllowInSandbox

datatype protocol_kind = Tcp | Udp | Http | Https | Dns

datatype authority_result =
    AR_Verified | AR_Falsified | AR_InsufficientEvidence | AR_NonReproducible | AR_Tampered

datatype failure_category =
    FC_SurfaceNotDiscovered | FC_ArchitectureMisunderstood | FC_AssumptionNotGenerated
  | FC_HypothesisNotGenerated | FC_HypothesisDeprioritized | FC_ExperimentInadequate
  | FC_ObservationMisinterpreted | FC_ToolGap | FC_VerificationFailure | FC_BudgetExhaustion
  | FC_PolicyBlocked | FC_Unknown

datatype verifier_mode = ReproduceCandidate | Blindish

subsection \<open>Tool intents and receipts (tool.rs)\<close>

datatype tool_capability =
    ReadFile | ListTree | SearchText | GitInspect | RunTests | RunLanguageTool | HttpRequest
  | BrowserRequest | ExecuteAllowlistedBinary | CollectLogs | CollectFile | CollectProcessState
  | FuzzAdapter | SanitizerAdapter | StaticAnalysisAdapter

fun capability_as_str :: "tool_capability \<Rightarrow> string" where
  "capability_as_str ReadFile = ''read_file''"
| "capability_as_str ListTree = ''list_tree''"
| "capability_as_str SearchText = ''search_text''"
| "capability_as_str GitInspect = ''git_inspect''"
| "capability_as_str RunTests = ''run_tests''"
| "capability_as_str RunLanguageTool = ''run_language_tool''"
| "capability_as_str HttpRequest = ''http_request''"
| "capability_as_str BrowserRequest = ''browser_request''"
| "capability_as_str ExecuteAllowlistedBinary = ''execute_allowlisted_binary''"
| "capability_as_str CollectLogs = ''collect_logs''"
| "capability_as_str CollectFile = ''collect_file''"
| "capability_as_str CollectProcessState = ''collect_process_state''"
| "capability_as_str FuzzAdapter = ''fuzz_adapter''"
| "capability_as_str SanitizerAdapter = ''sanitizer_adapter''"
| "capability_as_str StaticAnalysisAdapter = ''static_analysis_adapter''"

record network_intent =
  ni_host :: string
  ni_port :: u16
  ni_protocol :: protocol_kind

record tool_intent =
  ti_request_id :: request_id
  ti_capability :: tool_capability
  ti_argv :: "string list"
  ti_cwd :: "string option"
  ti_env :: "(string \<times> string) list"
  ti_path :: "string option"
  ti_content_glob :: "string option"
  ti_network :: "network_intent option"
  ti_http_target :: "string option"
  ti_http_cookie :: "string option"
  ti_timeout_ms :: u64

text \<open>The fresh request id of \<^verbatim>\<open>RequestId::new()\<close> is an argument.\<close>

definition tool_intent_new :: "request_id \<Rightarrow> tool_capability \<Rightarrow> tool_intent" where
  "tool_intent_new rid cap =
     \<lparr>ti_request_id = rid, ti_capability = cap, ti_argv = [], ti_cwd = None, ti_env = [],
      ti_path = None, ti_content_glob = None, ti_network = None, ti_http_target = None,
      ti_http_cookie = None, ti_timeout_ms = 30000\<rparr>"

record execution_receipt =
  er_request_id :: request_id
  er_capability :: tool_capability
  er_decision :: policy_decision
  er_executable :: "string option"
  er_argv :: "string list"
  er_cwd :: "string option"
  er_sandbox_id :: "string option"
  er_started_unix_ms :: u64
  er_finished_unix_ms :: u64
  er_exit_status :: "i32 option"
  er_stdout_digest :: "string option"
  er_stderr_digest :: "string option"
  er_manifest_hash :: string
  er_deny_reason :: "string option"

subsection \<open>The authorization manifest (manifest.rs)\<close>

record resource_budgets =
  cpu_millis :: u64
  memory_bytes :: u64
  pid_limit :: u32
  disk_bytes :: u64
  wall_time_ms :: u64
  model_requests :: u64
  model_tokens :: u64
  max_concurrent_experiments :: u32
  max_sandbox_instances :: u32
  max_research_cells :: u32

definition default_resource_budgets :: resource_budgets where
  "default_resource_budgets =
     \<lparr>cpu_millis = 60000, memory_bytes = 512 * 1024 * 1024, pid_limit = 128,
      disk_bytes = 256 * 1024 * 1024, wall_time_ms = 10 * 60000, model_requests = 100,
      model_tokens = 200000, max_concurrent_experiments = 4, max_sandbox_instances = 4,
      max_research_cells = 2\<rparr>"

record 'net allowed_endpoint =
  ep_cidr :: 'net
  ep_ports :: "u16 set"
  ep_protocols :: "protocol_kind set"

record artifact_policy =
  retain_raw_evidence :: bool
  max_artifact_bytes :: u64

definition default_artifact_policy :: artifact_policy where
  "default_artifact_policy =
     \<lparr>retain_raw_evidence = True, max_artifact_bytes = 32 * 1024 * 1024\<rparr>"

record 'net authorization_manifest =
  am_campaign_id :: campaign_id
  am_target_id :: target_id
  am_visibility :: visibility_mode
  am_allowed_filesystem_roots :: "string list"
  am_allowed_service_names :: "string set"
  am_allowed_endpoints :: "'net allowed_endpoint list"
  am_allowed_credential_refs :: "string set"
  am_permitted_modalities :: "string set"
  am_destructive :: destructive_policy
  am_tool_allowlist :: "tool_capability set"
  am_budgets :: resource_budgets
  am_artifacts :: artifact_policy
  am_data_classification :: string
  am_require_containment :: bool

definition default_deny_local ::
    "campaign_id \<Rightarrow> target_id \<Rightarrow> string \<Rightarrow> 'net authorization_manifest" where
  "default_deny_local cid tid root =
     \<lparr>am_campaign_id = cid, am_target_id = tid, am_visibility = WhiteBox,
      am_allowed_filesystem_roots = [root],
      am_allowed_service_names = {''fixture-target''},
      am_allowed_endpoints = [],
      am_allowed_credential_refs = {},
      am_permitted_modalities = {''static'', ''http'', ''source''},
      am_destructive = Forbid,
      am_tool_allowlist = {ReadFile, ListTree, SearchText, GitInspect, CollectFile, CollectLogs},
      am_budgets = default_resource_budgets,
      am_artifacts = default_artifact_policy,
      am_data_classification = ''local-fixture'',
      am_require_containment = True\<rparr>"

end
