(* ===== verification/Domain.thy ===== *)
theory Domain
  imports Types
begin

text \<open>
  The records of \<^verbatim>\<open>aros-types/src/domain.rs\<close> that the trusted core builds and stores, the
  event vocabulary of \<^verbatim>\<open>events.rs\<close>, and \<^verbatim>\<open>serde_json::Value\<close> as a datatype: an
  object is the list of its members in iteration order, a float is kept as its printed text, and an
  \<^verbatim>\<open>f32\<close> as its bit pattern.
\<close>

subsection \<open>JSON values\<close>

datatype json_number = PosInt u64 | NegInt int | Float string

datatype json =
    JNull
  | JBool bool
  | JNumber json_number
  | JString string
  | JArray "json list"
  | JObject "(string \<times> json) list"

subsection \<open>Records (domain.rs)\<close>

record target_snapshot =
  ts_id :: snapshot_id
  ts_target_id :: target_id
  ts_git_commit :: "string option"
  ts_dirty_tree_hash :: "string option"
  ts_submodule_shas :: "string list"
  ts_source_tree_digest :: string
  ts_lockfile_hashes :: "string list"
  ts_container_image_digest :: "string option"
  ts_compiler_runtime_versions :: "string list"
  ts_build_flags :: "string list"
  ts_feature_flags :: "string list"
  ts_runtime_description :: string
  ts_captured_unix_ms :: u64

record campaign =
  cp_id :: campaign_id
  cp_target_id :: target_id
  cp_snapshot_id :: snapshot_id
  cp_manifest_hash :: string
  cp_state :: campaign_state
  cp_created_unix_ms :: u64
  cp_updated_unix_ms :: u64

text \<open>\<^verbatim>\<open>unix_now_ms()\<close> is the argument \<open>now\<close>.\<close>

definition campaign_new ::
    "u64 \<Rightarrow> campaign_id \<Rightarrow> target_id \<Rightarrow> snapshot_id \<Rightarrow> string \<Rightarrow> campaign" where
  "campaign_new now i t s m =
     \<lparr>cp_id = i, cp_target_id = t, cp_snapshot_id = s, cp_manifest_hash = m,
      cp_state = CS_Discovering, cp_created_unix_ms = now, cp_updated_unix_ms = now\<rparr>"

record graph_node =
  gn_id :: node_id
  gn_campaign_id :: campaign_id
  gn_graph :: graph_kind
  gn_kind :: string
  gn_label :: string
  gn_epistemic :: epistemic_state
  gn_payload :: json
  gn_provenance :: string
  gn_artifact_refs :: "string list"
  gn_created_unix_ms :: u64

record graph_edge =
  ge_id :: edge_id
  ge_campaign_id :: campaign_id
  ge_graph :: graph_kind
  ge_from :: node_id
  ge_to :: node_id
  ge_kind :: string
  ge_epistemic :: epistemic_state
  ge_confidence :: "u32 option"
  ge_provenance :: string
  ge_artifact_refs :: "string list"
  ge_created_unix_ms :: u64

record hypothesis =
  hy_id :: hypothesis_id
  hy_campaign_id :: campaign_id
  hy_claim :: string
  hy_supporting_facts :: "string list"
  hy_historical_analogues :: "string list"
  hy_affected_components :: "string list"
  hy_security_invariant :: string
  hy_possible_impact :: string
  hy_cheapest_experiment :: string
  hy_estimated_cost :: u32
  hy_epistemic :: epistemic_state

record finding =
  fi_id :: finding_id
  fi_campaign_id :: campaign_id
  fi_hypothesis_id :: hypothesis_id
  fi_claim :: string
  fi_evidence_level :: evidence_level
  fi_manifest_hash :: string
  fi_verified :: bool

record evidence_artifact =
  ea_id :: artifact_id
  ea_digest_blake3 :: string
  ea_digest_sha256 :: string
  ea_media_type :: string
  ea_byte_len :: u64

record evidence_bundle =
  eb_finding_id :: finding_id
  eb_campaign_id :: campaign_id
  eb_manifest_hash :: string
  eb_snapshot_id :: snapshot_id
  eb_sandbox_id :: "string option"
  eb_claim :: string
  eb_artifact_digests :: "string list"
  eb_level :: evidence_level

record verifier_run =
  vr_id :: verifier_run_id
  vr_finding_id :: finding_id
  vr_campaign_id :: campaign_id
  vr_manifest_hash :: string
  vr_mode :: verifier_mode
  vr_result :: authority_result
  vr_notes :: string

record research_failure_card =
  rf_campaign_id :: campaign_id
  rf_run_id :: run_id
  rf_category :: failure_category
  rf_detail :: string
  rf_spec_id :: string

subsection \<open>Events (events.rs)\<close>

datatype (plugins only: code size) research_event =
    TargetRegistered target_id string
  | TargetSnapshotted target_id snapshot_id string
  | CampaignStarted campaign_id string
  | CampaignStateChanged campaign_id campaign_state
  | SurfaceMapped campaign_id u32
  | AssumptionCreated campaign_id string
  | HypothesisCreated campaign_id hypothesis_id string
  | HypothesisPrioritized campaign_id hypothesis_id u32
  | HypothesisRefuted campaign_id hypothesis_id string
  | ExperimentStarted campaign_id experiment_id string
  | ExperimentFinished campaign_id experiment_id
  | ObservationRecorded campaign_id string string
  | AnomalyRecorded campaign_id string
  | PrimitiveSupported campaign_id string
  | PrimitiveVerified campaign_id string
  | AttackChainCreated campaign_id string
  | FindingCandidateCreated campaign_id finding_id string
  | FindingVerified campaign_id finding_id evidence_level
  | FindingFalsified campaign_id finding_id string
  | PatchCandidateCreated campaign_id patch_id finding_id
  | ReattackStarted campaign_id finding_id
  | ReattackCompleted campaign_id finding_id bool
  | RegressionCreated campaign_id finding_id string
  | AgentStarted campaign_id string
  | AgentStopped campaign_id string
  | ToolRequested campaign_id request_id tool_capability
  | ToolAllowed campaign_id request_id
  | ToolDenied campaign_id request_id string
  | ProcessStarted campaign_id string
  | ProcessFinished campaign_id string i32
  | NetworkAttempted campaign_id string u16 policy_decision
  | PolicyViolationAttempt campaign_id string
  | SandboxKilled campaign_id string
  | EvidenceCreated campaign_id string
  | ClaimCreated campaign_id string
  | VerificationStarted campaign_id finding_id
  | VerificationSucceeded campaign_id finding_id
  | VerificationFailed campaign_id finding_id string
  | CertificateIssued campaign_id bool bool
  | CampaignCompleted campaign_id campaign_state
  | CampaignFailed campaign_id string

primrec event_campaign_id :: "research_event \<Rightarrow> campaign_id option" where
  "event_campaign_id (TargetRegistered t n) = None"
| "event_campaign_id (TargetSnapshotted t s d) = None"
| "event_campaign_id (CampaignStarted c m) = Some c"
| "event_campaign_id (CampaignStateChanged c s) = Some c"
| "event_campaign_id (SurfaceMapped c n) = Some c"
| "event_campaign_id (AssumptionCreated c s) = Some c"
| "event_campaign_id (HypothesisCreated c h s) = Some c"
| "event_campaign_id (HypothesisPrioritized c h n) = Some c"
| "event_campaign_id (HypothesisRefuted c h s) = Some c"
| "event_campaign_id (ExperimentStarted c e m) = Some c"
| "event_campaign_id (ExperimentFinished c e) = Some c"
| "event_campaign_id (ObservationRecorded c a m) = Some c"
| "event_campaign_id (AnomalyRecorded c s) = Some c"
| "event_campaign_id (PrimitiveSupported c p) = Some c"
| "event_campaign_id (PrimitiveVerified c p) = Some c"
| "event_campaign_id (AttackChainCreated c s) = Some c"
| "event_campaign_id (FindingCandidateCreated c f s) = Some c"
| "event_campaign_id (FindingVerified c f l) = Some c"
| "event_campaign_id (FindingFalsified c f s) = Some c"
| "event_campaign_id (PatchCandidateCreated c p f) = Some c"
| "event_campaign_id (ReattackStarted c f) = Some c"
| "event_campaign_id (ReattackCompleted c f b) = Some c"
| "event_campaign_id (RegressionCreated c f s) = Some c"
| "event_campaign_id (AgentStarted c s) = Some c"
| "event_campaign_id (AgentStopped c s) = Some c"
| "event_campaign_id (ToolRequested c r t) = Some c"
| "event_campaign_id (ToolAllowed c r) = Some c"
| "event_campaign_id (ToolDenied c r s) = Some c"
| "event_campaign_id (ProcessStarted c s) = Some c"
| "event_campaign_id (ProcessFinished c s x) = Some c"
| "event_campaign_id (NetworkAttempted c h p d) = Some c"
| "event_campaign_id (PolicyViolationAttempt c s) = Some c"
| "event_campaign_id (SandboxKilled c s) = Some c"
| "event_campaign_id (EvidenceCreated c s) = Some c"
| "event_campaign_id (ClaimCreated c s) = Some c"
| "event_campaign_id (VerificationStarted c f) = Some c"
| "event_campaign_id (VerificationSucceeded c f) = Some c"
| "event_campaign_id (VerificationFailed c f s) = Some c"
| "event_campaign_id (CertificateIssued c a b) = Some c"
| "event_campaign_id (CampaignCompleted c s) = Some c"
| "event_campaign_id (CampaignFailed c s) = Some c"

record event_record =
  ev_occurred_unix_ms :: u64
  ev_event :: research_event

definition stamped_payload :: "u64 \<Rightarrow> research_event \<Rightarrow> event_record" where
  "stamped_payload now e = \<lparr>ev_occurred_unix_ms = now, ev_event = e\<rparr>"

end
