(* ===== verification/Canonical.thy ===== *)
theory Canonical
  imports Domain
begin

text \<open>
  \<^verbatim>\<open>aros-types/src/canonical.rs\<close>: canonical JSON, the byte form every digest of the system is
  taken of. The serializer of \<^verbatim>\<open>serde_json\<close> and the two hash functions are parameters. The
  result is that canonical forms, and hence digests, identify exactly the values that differ in
  nothing but the order of object members.
\<close>

subsection \<open>Operations\<close>

text \<open>\<^verbatim>\<open>serde_json::Map::insert\<close>: replaces in place, or adds at the end.\<close>

fun map_insert :: "'k \<Rightarrow> 'v \<Rightarrow> ('k \<times> 'v) list \<Rightarrow> ('k \<times> 'v) list" where
  "map_insert k v [] = [(k, v)]"
| "map_insert k v ((k', v') # m) =
     (if k = k' then (k, v) # m else (k', v') # map_insert k v m)"

text \<open>The loop over the sorted keys; the members are already canonicalized.\<close>

definition insert_sorted_keys :: "(string \<times> json) list \<Rightarrow> (string \<times> json) list" where
  "insert_sorted_keys m =
     fold (\<lambda>key out. case map_of m key of Some v \<Rightarrow> map_insert key v out | None \<Rightarrow> out)
       (sort (map fst m)) []"

fun canonicalize_value :: "json \<Rightarrow> json" where
  "canonicalize_value (JObject m) =
     JObject (insert_sorted_keys (map (\<lambda>(k, v). (k, canonicalize_value v)) m))"
| "canonicalize_value (JArray items) = JArray (map canonicalize_value items)"
| "canonicalize_value other = other"

definition to_canonical_json ::
    "('a \<Rightarrow> 'e + json) \<Rightarrow> (json \<Rightarrow> 'e + bytes) \<Rightarrow> 'a \<Rightarrow> 'e + bytes" where
  "to_canonical_json to_value to_vec value =
     res_bind (to_value value) (\<lambda>as_value. to_vec (canonicalize_value as_value))"

record digest_pair =
  dp_blake3 :: string
  dp_sha256 :: string
  dp_canonical_len :: u64

definition hash_canonical ::
    "(bytes \<Rightarrow> string) \<Rightarrow> (bytes \<Rightarrow> string) \<Rightarrow> ('a \<Rightarrow> 'e + json) \<Rightarrow> (json \<Rightarrow> 'e + bytes) \<Rightarrow> 'a
      \<Rightarrow> 'e + digest_pair" where
  "hash_canonical blake3_hex sha256_hex to_value to_vec value =
     res_bind (to_canonical_json to_value to_vec value) (\<lambda>bytes.
       Inr \<lparr>dp_blake3 = blake3_hex bytes, dp_sha256 = sha256_hex bytes,
            dp_canonical_len = of_nat (length bytes)\<rparr>)"

subsection \<open>Specification\<close>

text \<open>Object members of a \<^verbatim>\<open>serde_json::Map\<close> have distinct keys.\<close>

fun json_wf :: "json \<Rightarrow> bool" where
  "json_wf (JObject m) = (distinct (map fst m) \<and> list_all (\<lambda>(k, v). json_wf v) m)"
| "json_wf (JArray items) = list_all json_wf items"
| "json_wf other = True"

fun canonical :: "json \<Rightarrow> bool" where
  "canonical (JObject m) = (sorted_wrt (<) (map fst m) \<and> list_all (\<lambda>(k, v). canonical v) m)"
| "canonical (JArray items) = list_all canonical items"
| "canonical other = True"

text \<open>Equal up to the order of object members, at every depth.\<close>

inductive json_equiv :: "json \<Rightarrow> json \<Rightarrow> bool" where
  equiv_refl: "json_equiv v v"
| equiv_array: "list_all2 json_equiv xs ys \<Longrightarrow> json_equiv (JArray xs) (JArray ys)"
| equiv_object:
    "(\<And>k. rel_option json_equiv (map_of m k) (map_of n k)) \<Longrightarrow> json_equiv (JObject m) (JObject n)"

subsection \<open>Canonical objects\<close>

lemma map_insert_fresh: "k \<notin> fst ` set m \<Longrightarrow> map_insert k v m = m @ [(k, v)]"
  by (induction k v m rule: map_insert.induct) auto

definition members_by_key :: "(string \<times> json) list \<Rightarrow> string list \<Rightarrow> (string \<times> json) list" where
  "members_by_key m ks = map (\<lambda>k. (k, the (map_of m k))) ks"

lemma fst_members_by_key [simp]: "map fst (members_by_key m ks) = ks"
  by (simp add: members_by_key_def comp_def)

lemma insert_keys_fold:
  assumes "distinct ks" "set ks \<subseteq> fst ` set m" "fst ` set out \<inter> set ks = {}"
  shows "fold (\<lambda>key out. case map_of m key of Some v \<Rightarrow> map_insert key v out | None \<Rightarrow> out) ks out
           = out @ members_by_key m ks"
  using assms
proof (induction ks arbitrary: out)
  case Nil
  then show ?case by (simp add: members_by_key_def)
next
  case (Cons k ks)
  then have "k \<in> dom (map_of m)" by (simp add: dom_map_of_conv_image_fst)
  then obtain v where v: "map_of m k = Some v" by blast
  from Cons.prems have "map_insert k v out = out @ [(k, v)]" by (intro map_insert_fresh) auto
  with Cons v show ?case by (auto simp: members_by_key_def)
qed

lemma insert_sorted_keys_eq:
  "distinct (map fst m) \<Longrightarrow> insert_sorted_keys m = members_by_key m (sort (map fst m))"
  unfolding insert_sorted_keys_def by (subst insert_keys_fold) auto

lemma map_of_members:
  assumes "set ks = fst ` set m"
  shows "map_of (members_by_key m ks) k = map_of m k"
proof (cases "k \<in> fst ` set m")
  case True
  then obtain v where "map_of m k = Some v" by (metis map_of_eq_None_iff not_None_eq)
  with True assms show ?thesis by (simp add: members_by_key_def map_of_map_restrict)
next
  case False
  with assms show ?thesis
    by (simp add: map_of_eq_None_iff[THEN iffD2] members_by_key_def map_of_map_restrict)
qed

lemma map_of_canonical_members:
  "map_of (map (\<lambda>(k, v). (k, f v)) m) k = map_option f (map_of m k)"
  by (simp add: map_of_map comp_def)

lemma fst_canonical_members [simp]: "map fst (map (\<lambda>(k, v). (k, f v)) m) = map fst m"
  by (simp add: comp_def case_prod_unfold)

lemma set_sort_keys [simp]: "set (sort (map fst m)) = fst ` set m"
  by simp

abbreviation canonical_members :: "(string \<times> json) list \<Rightarrow> (string \<times> json) list" where
  "canonical_members m \<equiv> map (\<lambda>(k, v). (k, canonicalize_value v)) m"

lemma canonicalize_object:
  "distinct (map fst m) \<Longrightarrow>
     canonicalize_value (JObject m)
       = JObject (members_by_key (canonical_members m) (sort (map fst m)))"
  by (simp add: insert_sorted_keys_eq del: map_map)

lemma in_members_by_key:
  assumes "(k, v) \<in> set (members_by_key (canonical_members m) (sort (map fst m)))"
  obtains w where "(k, w) \<in> set m" "v = canonicalize_value w"
proof -
  from assms have k: "k \<in> fst ` set m" and v: "v = the (map_of (canonical_members m) k)"
    by (auto simp: members_by_key_def)
  from k obtain w where "map_of m k = Some w" by (metis map_of_eq_None_iff not_None_eq)
  with v show ?thesis by (intro that[of w]) (auto simp: map_of_canonical_members dest: map_of_SomeD)
qed

lemma canonicalize_canonical: "json_wf v \<Longrightarrow> canonical (canonicalize_value v)"
proof (induction v)
  case (JObject m)
  then have d: "distinct (map fst m)" and wf: "\<And>k v. (k, v) \<in> set m \<Longrightarrow> json_wf v"
    by (auto simp: list_all_iff)
  have "canonical v" if "(k, v) \<in> set (members_by_key (canonical_members m) (sort (map fst m)))" for k v
    using that by (rule in_members_by_key) (use JObject.IH wf in fastforce)
  moreover have "sorted_wrt (<) (sort (map fst m))" using d by (simp add: strict_sorted_iff)
  ultimately show ?case unfolding canonicalize_object[OF d] by (auto simp: list_all_iff)
next
  case (JArray x)
  then show ?case by (auto simp: list_all_iff)
qed simp_all

lemma canonical_fixed: "canonical v \<Longrightarrow> canonicalize_value v = v"
proof (induction v)
  case (JObject m)
  then have s: "sorted (map fst m)" and d: "distinct (map fst m)"
    by (simp_all add: strict_sorted_iff)
  have "canonical_members m = m"
    using JObject by (intro map_idI) (fastforce simp: list_all_iff)
  moreover have "members_by_key m (map fst m) = m"
    using d by (auto simp: members_by_key_def comp_def intro!: map_idI)
  ultimately show ?case
    unfolding canonicalize_object[OF d] using s by (simp add: sorted_sort_id)
next
  case (JArray x)
  then show ?case by (auto simp: list_all_iff intro!: map_idI)
qed simp_all

lemma canonicalize_leaf:
  "JNull = canonicalize_value w \<longleftrightarrow> w = JNull"
  "JBool b = canonicalize_value w \<longleftrightarrow> w = JBool b"
  "JNumber n = canonicalize_value w \<longleftrightarrow> w = JNumber n"
  "JString s = canonicalize_value w \<longleftrightarrow> w = JString s"
  by (cases w; auto)+

lemma canonicalize_inj_equiv:
  "canonicalize_value v = canonicalize_value w \<Longrightarrow> json_wf v \<Longrightarrow> json_wf w \<Longrightarrow> json_equiv v w"
proof (induction v arbitrary: w)
  case (JObject m)
  from JObject.prems(1) obtain n where w: "w = JObject n" by (cases w) auto
  with JObject.prems have d: "distinct (map fst m)" "distinct (map fst n)"
    and wf: "\<And>k v. (k, v) \<in> set m \<Longrightarrow> json_wf v" "\<And>k v. (k, v) \<in> set n \<Longrightarrow> json_wf v"
    by (auto simp: list_all_iff)
  have "members_by_key (canonical_members m) (sort (map fst m))
          = members_by_key (canonical_members n) (sort (map fst n))"
    using JObject.prems(1) unfolding w canonicalize_object[OF d(1)] canonicalize_object[OF d(2)]
    by simp
  moreover have "set (sort (map fst l)) = fst ` set (canonical_members l)" for l
    by (auto simp: image_image case_prod_unfold)
  ultimately have "map_of (canonical_members m) k = map_of (canonical_members n) k" for k
    using map_of_members by metis
  then have eq: "map_option canonicalize_value (map_of m k)
                   = map_option canonicalize_value (map_of n k)" for k
    by (simp add: map_of_canonical_members)
  have "rel_option json_equiv (map_of m k) (map_of n k)" for k
  proof (cases "map_of m k")
    case None
    with eq[of k] show ?thesis by simp
  next
    case (Some v)
    with eq[of k] obtain u where u: "map_of n k = Some u"
      "canonicalize_value v = canonicalize_value u" by (cases "map_of n k") auto
    from Some u have "(k, v) \<in> set m" "(k, u) \<in> set n" by (auto dest: map_of_SomeD)
    then have "json_equiv v u" using JObject.IH[of "(k, v)" v u] u(2) wf by auto
    with Some u show ?thesis by simp
  qed
  then show ?case unfolding w by (rule equiv_object)
next
  case (JArray xs)
  from JArray.prems(1) obtain ys where w: "w = JArray ys" by (cases w) auto
  with JArray.prems(1) have eq: "map canonicalize_value xs = map canonicalize_value ys" by simp
  then have len: "length xs = length ys" by (rule map_eq_imp_length_eq)
  have "json_equiv (xs ! i) (ys ! i)" if "i < length xs" for i
  proof (rule JArray.IH)
    show "canonicalize_value (xs ! i) = canonicalize_value (ys ! i)"
      using arg_cong[OF eq, of "\<lambda>l. l ! i"] that len by simp
  qed (use that len JArray.prems w in \<open>auto simp: list_all_length\<close>)
  with len have "list_all2 json_equiv xs ys" by (simp add: list_all2_conv_all_nth)
  then show ?case unfolding w by (rule equiv_array)
qed (simp_all add: canonicalize_leaf equiv_refl)

lemma json_equiv_canonicalize:
  "json_equiv v w \<Longrightarrow> json_wf v \<Longrightarrow> json_wf w \<Longrightarrow> canonicalize_value v = canonicalize_value w"
proof (induction rule: json_equiv.induct)
  case (equiv_array xs ys)
  then have "list_all2 (\<lambda>x y. canonicalize_value x = canonicalize_value y) xs ys"
    by (auto simp: list_all2_conv_all_nth list_all_length)
  then show ?case by (auto simp: list_all2_conv_all_nth intro: nth_equalityI)
next
  case (equiv_object m n)
  from equiv_object.prems have d: "distinct (map fst m)" "distinct (map fst n)"
    and wf: "\<And>k v. (k, v) \<in> set m \<Longrightarrow> json_wf v" "\<And>k v. (k, v) \<in> set n \<Longrightarrow> json_wf v"
    by (auto simp: list_all_iff)
  have eq: "map_option canonicalize_value (map_of m k) = map_option canonicalize_value (map_of n k)" for k
  proof (cases "map_of m k")
    case None
    with equiv_object.IH[of k] show ?thesis by (auto elim: option.rel_cases)
  next
    case (Some v)
    with equiv_object.IH[of k] obtain u where u: "map_of n k = Some u"
      "json_wf v \<Longrightarrow> json_wf u \<Longrightarrow> canonicalize_value v = canonicalize_value u"
      by (auto elim: option.rel_cases)
    with Some wf show ?thesis by (auto dest!: map_of_SomeD)
  qed
  then have "dom (map_of m) = dom (map_of n)" by (metis (mono_tags) domIff map_option_is_None subsetI subset_antisym)
  then have "set (map fst m) = set (map fst n)" by (simp add: dom_map_of_conv_image_fst)
  with d have "sort (map fst m) = sort (map fst n)"
    by (intro sorted_distinct_set_unique) auto
  moreover have "map_of (canonical_members m) k = map_of (canonical_members n) k" for k
    using eq[of k] by (simp add: map_of_canonical_members)
  ultimately show ?case
    unfolding canonicalize_object[OF d(1)] canonicalize_object[OF d(2)]
    by (simp add: members_by_key_def)
qed simp

subsection \<open>Properties\<close>

text \<open>C38. Canonicalization is a normal form: the result has strictly ascending keys at every depth,
  canonicalizing again changes nothing, and two values have the same canonical form exactly when
  they are equal up to the order of object members.\<close>

theorem canonicalize_normal_form:
  assumes "json_wf v" "json_wf w"
  shows "canonical (canonicalize_value v)
    \<and> canonicalize_value (canonicalize_value v) = canonicalize_value v
    \<and> (canonicalize_value v = canonicalize_value w \<longleftrightarrow> json_equiv v w)"
  using assms canonicalize_canonical canonical_fixed canonicalize_inj_equiv
    json_equiv_canonicalize by blast

lemma canonicalize_normal_form_witness:
  "json_equiv (JObject [(''b'', JBool True), (''a'', JNull)]) (JObject [(''a'', JNull), (''b'', JBool True)])"
proof -
  let ?v = "JObject [(''b'', JBool True), (''a'', JNull)]"
  let ?w = "JObject [(''a'', JNull), (''b'', JBool True)]"
  have "json_wf ?v" "json_wf ?w" by simp_all
  from canonicalize_normal_form[OF this]
  have "canonicalize_value ?v = canonicalize_value ?w \<longleftrightarrow> json_equiv ?v ?w" by blast
  moreover have "canonicalize_value ?v = canonicalize_value ?w" by code_simp
  ultimately show ?thesis by blast
qed

text \<open>Digests identify values up to member order, given that the serializer can be read back and
  barring collisions: equivalent values have the same digest pair, and if two values have the same
  digest pair then they are equivalent or their own canonical bytes are a BLAKE3 collision.\<close>

theorem hash_canonical_sound:
  assumes wf: "json_wf v" "json_wf w"
    and readable: "\<And>u b. to_vec u = Inr b \<Longrightarrow> from_slice b = Some u"
    and hv: "hash_canonical blake3_hex sha256_hex Inr to_vec v = Inr d"
    and hw: "hash_canonical blake3_hex sha256_hex Inr to_vec w = Inr e"
  shows "(json_equiv v w \<longrightarrow> d = e)
    \<and> (d = e \<longrightarrow> json_equiv v w
         \<or> (\<exists>a b. to_vec (canonicalize_value v) = Inr a \<and> to_vec (canonicalize_value w) = Inr b
              \<and> a \<noteq> b \<and> blake3_hex a = blake3_hex b))"
proof -
  from hv hw obtain a b where
    a: "to_vec (canonicalize_value v) = Inr a" "dp_blake3 d = blake3_hex a" and
    b: "to_vec (canonicalize_value w) = Inr b" "dp_blake3 e = blake3_hex b"
    by (auto simp: hash_canonical_def to_canonical_json_def res_simps)
  have "d = e" if "json_equiv v w"
    using json_equiv_canonicalize[OF that wf] hv hw
    by (simp add: hash_canonical_def to_canonical_json_def)
  moreover have "json_equiv v w" if "a = b"
    using readable[OF a(1)] readable[OF b(1)] that canonicalize_inj_equiv[OF _ wf] by simp
  ultimately show ?thesis using a b by metis
qed

lemma hash_canonical_sound_witness:
  "let v = JObject [(''b'', JBool True), (''a'', JNull)];
       w = JObject [(''a'', JNull), (''b'', JBool True)];
       hex = map (\<lambda>b :: u8. char_of (unat b)) :: bytes \<Rightarrow> string;
       to_vec = (\<lambda>u. if u = w then Inr [1] else Inl ()) :: json \<Rightarrow> unit + bytes
   in \<exists>d e. hash_canonical hex hex Inr to_vec v = Inr d \<and> hash_canonical hex hex Inr to_vec w = Inr e
        \<and> (json_equiv v w \<longrightarrow> d = e)"
proof -
  let ?v = "JObject [(''b'', JBool True), (''a'', JNull)]"
  let ?w = "JObject [(''a'', JNull), (''b'', JBool True)]"
  let ?hex = "map (\<lambda>b :: u8. char_of (unat b)) :: bytes \<Rightarrow> string"
  let ?to_vec = "(\<lambda>u. if u = ?w then Inr [1] else Inl ()) :: json \<Rightarrow> unit + bytes"
  let ?d = "\<lparr>dp_blake3 = ?hex [1], dp_sha256 = ?hex [1], dp_canonical_len = 1\<rparr>"
  have wf: "json_wf ?v" "json_wf ?w" by simp_all
  have "canonicalize_value ?v = ?w" "canonicalize_value ?w = ?w" by code_simp+
  then have h: "hash_canonical ?hex ?hex Inr ?to_vec ?v = Inr ?d"
    "hash_canonical ?hex ?hex Inr ?to_vec ?w = Inr ?d"
    by (simp_all add: hash_canonical_def to_canonical_json_def)
  have readable: "(if b = [1] then Some ?w else None) = Some u" if "?to_vec u = Inr b" for u b
    using that by (simp split: if_splits)
  from hash_canonical_sound[where from_slice = "\<lambda>b. if b = [1] then Some ?w else None",
      OF wf readable h] h
  show ?thesis unfolding Let_def by blast
qed

end
