(* ===== verification/Hash_Chain.thy ===== *)
theory Hash_Chain
  imports Prelude
begin

text \<open>
  Hash chains, independently of what is hashed. \<open>link h a\<close> is the hash of content \<open>a\<close> on top of the
  previous hash \<open>h\<close>, or \<open>None\<close> when \<open>a\<close> cannot be serialized. Two chains with the same head are the
  same chain, or the pairs they hash already contain a collision or a preimage of the genesis value:
  the forger of a history has to exhibit one.
\<close>

fun chain_run :: "('h \<Rightarrow> 'a \<Rightarrow> 'h option) \<Rightarrow> 'h \<Rightarrow> 'a list \<Rightarrow> 'h option" where
  "chain_run link h [] = Some h"
| "chain_run link h (a # as) =
     (case link h a of None \<Rightarrow> None | Some k \<Rightarrow> chain_run link k as)"

text \<open>The pairs of previous hash and content that a chain hashes.\<close>

fun chain_links :: "('h \<Rightarrow> 'a \<Rightarrow> 'h option) \<Rightarrow> 'h \<Rightarrow> 'a list \<Rightarrow> ('h \<times> 'a) list" where
  "chain_links link h [] = []"
| "chain_links link h (a # as) =
     (h, a) # (case link h a of None \<Rightarrow> [] | Some k \<Rightarrow> chain_links link k as)"

definition link_collision ::
    "('h \<Rightarrow> 'a \<Rightarrow> 'h option) \<Rightarrow> 'h \<Rightarrow> ('h \<times> 'a) set \<Rightarrow> ('h \<times> 'a) set \<Rightarrow> bool" where
  "link_collision link genesis A B \<longleftrightarrow>
     (\<exists>h a h' a' k. (h, a) \<in> A \<and> (h', a') \<in> B \<and> (h, a) \<noteq> (h', a')
        \<and> link h a = Some k \<and> link h' a' = Some k)
     \<or> (\<exists>h a. (h, a) \<in> A \<union> B \<and> link h a = Some genesis)"

lemma chain_run_append:
  "chain_run link h (xs @ ys) =
     (case chain_run link h xs of None \<Rightarrow> None | Some k \<Rightarrow> chain_run link k ys)"
  by (induction xs arbitrary: h) (auto split: option.splits)

lemma chain_run_snoc:
  "chain_run link h (xs @ [a]) = Some k \<longleftrightarrow>
     (\<exists>j. chain_run link h xs = Some j \<and> link j a = Some k)"
  by (auto simp: chain_run_append split: option.splits)

lemma chain_links_snoc:
  "chain_run link h xs = Some j \<Longrightarrow> chain_links link h (xs @ [a]) = chain_links link h xs @ [(j, a)]"
  by (induction xs arbitrary: h) (auto split: option.splits)

lemma link_collision_pair:
  "(h, a) \<in> A \<Longrightarrow> (h', a') \<in> B \<Longrightarrow> (h, a) \<noteq> (h', a') \<Longrightarrow> link h a = Some k \<Longrightarrow> link h' a' = Some k
     \<Longrightarrow> link_collision link g A B"
  unfolding link_collision_def by blast

lemma link_collision_genesis:
  "(h, a) \<in> A \<union> B \<Longrightarrow> link h a = Some g \<Longrightarrow> link_collision link g A B"
  unfolding link_collision_def by blast

lemma link_collision_mono:
  "link_collision link g A B \<Longrightarrow> A \<subseteq> A' \<Longrightarrow> B \<subseteq> B' \<Longrightarrow> link_collision link g A' B'"
  unfolding link_collision_def by blast

lemma head_determines_chain:
  assumes "chain_run link g xs = Some k" "chain_run link g ys = Some k"
  shows "xs = ys \<or> link_collision link g (set (chain_links link g xs)) (set (chain_links link g ys))"
  using assms
proof (induction xs arbitrary: ys k rule: rev_induct)
  case Nil
  then have ys: "chain_run link g ys = Some g" by simp
  show ?case
  proof (cases ys rule: rev_cases)
    case (snoc zs b)
    with ys obtain j where "chain_run link g zs = Some j" "link j b = Some g"
      by (auto simp: chain_run_snoc)
    then show ?thesis
      unfolding snoc by (intro disjI2 link_collision_genesis[of j b]) (simp_all add: chain_links_snoc)
  qed simp
next
  case (snoc a xs)
  from snoc.prems(1) obtain j where j: "chain_run link g xs = Some j" "link j a = Some k"
    by (auto simp: chain_run_snoc)
  show ?case
  proof (cases ys rule: rev_cases)
    case Nil
    with snoc.prems(2) j show ?thesis
      by (intro disjI2 link_collision_genesis[of j a]) (simp_all add: chain_links_snoc)
  next
    case ys: (snoc zs b)
    with snoc.prems(2) obtain i where i: "chain_run link g zs = Some i" "link i b = Some k"
      by (auto simp: chain_run_snoc)
    show ?thesis
    proof (cases "(j, a) = (i, b)")
      case True
      with snoc.IH[OF j(1)] i(1) have "xs = zs
          \<or> link_collision link g (set (chain_links link g xs)) (set (chain_links link g zs))"
        by simp
      moreover have sub: "set (chain_links link g xs) \<subseteq> set (chain_links link g (xs @ [a]))"
        "set (chain_links link g zs) \<subseteq> set (chain_links link g (zs @ [b]))"
        using j(1) i(1) by (auto simp: chain_links_snoc)
      ultimately show ?thesis using True ys link_collision_mono[OF _ sub] by auto
    next
      case False
      with j i ys show ?thesis
        by (intro disjI2 link_collision_pair[of j a _ i b]) (simp_all add: chain_links_snoc)
    qed
  qed
qed

end
