(* ===== verification/Ledger.thy ===== *)
theory Ledger
  imports Canonical Hash_Chain
begin

text \<open>
  \<^verbatim>\<open>aros-evidence/src/ledger.rs\<close>: the append-only event ledger. The serializer and BLAKE3 are
  the fields of \<open>ledger_env\<close>. The lemmas show that appending keeps a ledger valid, that validation
  is the chain specification and reports the first bad entry, and that the head hash determines the
  recorded history unless the hash or the serializer fails.
\<close>

subsection \<open>Data\<close>

definition GENESIS :: string where
  "GENESIS = ''0000000000000000000000000000000000000000000000000000000000000000''"

datatype 'e ledger_error =
    LE_Json 'e
  | BrokenChain nat
  | Tampered nat
  | NonContiguous u64 u64

record ledger_entry =
  le_index :: u64
  le_previous_hash :: string
  le_event_hash :: string
  le_campaign_id :: "campaign_id option"
  le_payload_digest :: string
  le_artifact_digests :: "string list"
  le_record :: event_record

record chain_material =
  cm_previous_hash :: string
  cm_record :: event_record
  cm_artifact_digests :: "string list"

record event_ledger =
  entries :: "ledger_entry list"

text \<open>The parts of \<^verbatim>\<open>serde_json\<close> and \<^verbatim>\<open>blake3\<close> the ledger calls.\<close>

record 'e ledger_env =
  env_record_value :: "event_record \<Rightarrow> 'e + json"
  env_material_value :: "chain_material \<Rightarrow> 'e + json"
  env_to_vec :: "json \<Rightarrow> 'e + bytes"
  env_blake3_hex :: "bytes \<Rightarrow> string"

subsection \<open>Operations\<close>

definition record_bytes :: "'e ledger_env \<Rightarrow> event_record \<Rightarrow> 'e + bytes" where
  "record_bytes env r = to_canonical_json (env_record_value env) (env_to_vec env) r"

definition material_bytes :: "'e ledger_env \<Rightarrow> chain_material \<Rightarrow> 'e + bytes" where
  "material_bytes env m = to_canonical_json (env_material_value env) (env_to_vec env) m"

definition entry_hash ::
    "'e ledger_env \<Rightarrow> string \<Rightarrow> event_record \<Rightarrow> string list \<Rightarrow> 'e ledger_error + string \<times> string"
  where
  "entry_hash env previous_hash rec artifact_digests =
     res_bind (map_err LE_Json (record_bytes env rec)) (\<lambda>payload_bytes.
     let payload_digest = env_blake3_hex env payload_bytes;
         material = \<lparr>cm_previous_hash = previous_hash, cm_record = rec,
                     cm_artifact_digests = artifact_digests\<rparr>
     in res_bind (map_err LE_Json (material_bytes env material)) (\<lambda>chain_bytes.
          Inr (payload_digest, env_blake3_hex env chain_bytes)))"

definition ledger_new :: event_ledger where
  "ledger_new = \<lparr>entries = []\<rparr>"

definition ledger_len :: "event_ledger \<Rightarrow> nat" where
  "ledger_len l = length (entries l)"

definition ledger_is_empty :: "event_ledger \<Rightarrow> bool" where
  "ledger_is_empty l = (entries l = [])"

definition head_hash :: "ledger_entry list \<Rightarrow> string" where
  "head_hash es = (if es = [] then GENESIS else le_event_hash (last es))"

text \<open>\<open>now\<close> is the clock reading of \<^verbatim>\<open>stamped_payload\<close>; an error leaves the ledger as it was.\<close>

definition append_event ::
    "'e ledger_env \<Rightarrow> u64 \<Rightarrow> research_event \<Rightarrow> string list \<Rightarrow> event_ledger
      \<Rightarrow> 'e ledger_error + ledger_entry \<times> event_ledger" where
  "append_event env now event artifact_digests l =
     (let rec = stamped_payload now event;
          previous_hash = head_hash (entries l)
      in res_bind (entry_hash env previous_hash rec artifact_digests)
           (\<lambda>(payload_digest, event_hash).
              let entry = \<lparr>le_index = of_nat (length (entries l)),
                           le_previous_hash = previous_hash, le_event_hash = event_hash,
                           le_campaign_id = event_campaign_id (ev_event rec),
                           le_payload_digest = payload_digest,
                           le_artifact_digests = artifact_digests, le_record = rec\<rparr>
              in Inr (entry, l\<lparr>entries := entries l @ [entry]\<rparr>)))"

text \<open>The loop of \<^verbatim>\<open>verify\<close> from position \<open>index\<close> on, with \<open>expected_prev\<close> carried along.\<close>

fun verify_from ::
    "'e ledger_env \<Rightarrow> nat \<Rightarrow> string \<Rightarrow> ledger_entry list \<Rightarrow> 'e ledger_error + unit" where
  "verify_from env index expected_prev [] = Inr ()"
| "verify_from env index expected_prev (entry # rest) =
     (if le_index entry \<noteq> of_nat index then
        Inl (NonContiguous (of_nat index) (le_index entry))
      else if le_previous_hash entry \<noteq> expected_prev then Inl (BrokenChain index)
      else
        res_bind
          (entry_hash env (le_previous_hash entry) (le_record entry) (le_artifact_digests entry))
          (\<lambda>(payload_digest, recomputed).
             if payload_digest \<noteq> le_payload_digest entry \<or> recomputed \<noteq> le_event_hash entry then
               Inl (Tampered index)
             else verify_from env (index + 1) (le_event_hash entry) rest))"

definition ledger_verify :: "'e ledger_env \<Rightarrow> event_ledger \<Rightarrow> 'e ledger_error + unit" where
  "ledger_verify env l = verify_from env 0 GENESIS (entries l)"

definition from_stored_entries ::
    "'e ledger_env \<Rightarrow> ledger_entry list \<Rightarrow> 'e ledger_error + event_ledger" where
  "from_stored_entries env es =
     (let l = \<lparr>entries = es\<rparr> in res_bind (ledger_verify env l) (\<lambda>_. Inr l))"

definition set_summary :: "string \<Rightarrow> research_event \<Rightarrow> research_event" where
  "set_summary s e = (case e of AnomalyRecorded c _ \<Rightarrow> AnomalyRecorded c s | _ \<Rightarrow> e)"

definition tamper_payload_for_test :: "nat \<Rightarrow> string \<Rightarrow> event_ledger \<Rightarrow> event_ledger" where
  "tamper_payload_for_test index summary l =
     (if index < length (entries l) then
        let entry = entries l ! index;
            rec = le_record entry
        in l\<lparr>entries := (entries l)[index :=
               entry\<lparr>le_record := rec\<lparr>ev_event := set_summary summary (ev_event rec)\<rparr>\<rparr>]\<rparr>
      else l)"

subsection \<open>Specification\<close>

text \<open>What position \<open>i\<close> of a valid ledger looks like, given the hash before it.\<close>

definition entry_ok :: "'e ledger_env \<Rightarrow> nat \<Rightarrow> string \<Rightarrow> ledger_entry \<Rightarrow> bool" where
  "entry_ok env i prev e \<longleftrightarrow>
     le_index e = of_nat i \<and> le_previous_hash e = prev
     \<and> entry_hash env prev (le_record e) (le_artifact_digests e)
         = Inr (le_payload_digest e, le_event_hash e)"

definition chain_ok :: "'e ledger_env \<Rightarrow> ledger_entry list \<Rightarrow> bool" where
  "chain_ok env es \<longleftrightarrow> (\<forall>i < length es. entry_ok env i (head_hash (take i es)) (es ! i))"

text \<open>Ledgers the program can build: appends to a new one, failed appends changing nothing.\<close>

inductive ledger_reachable :: "'e ledger_env \<Rightarrow> event_ledger \<Rightarrow> bool" for env where
  reach_new: "ledger_reachable env ledger_new"
| reach_append: "ledger_reachable env l \<Longrightarrow> append_event env now event digests l = Inr (e, l')
    \<Longrightarrow> ledger_reachable env l'"

inductive_cases ledger_reachableE: "ledger_reachable env l"

text \<open>The content a hash covers, and an entry without the one field no hash covers.\<close>

definition content :: "ledger_entry \<Rightarrow> event_record \<times> string list" where
  "content e = (le_record e, le_artifact_digests e)"

definition sealed :: "ledger_entry \<Rightarrow> ledger_entry" where
  "sealed e = e\<lparr>le_campaign_id := None\<rparr>"

definition ledger_link :: "'e ledger_env \<Rightarrow> string \<Rightarrow> event_record \<times> string list \<Rightarrow> string option" where
  "ledger_link env h c = map_option snd (res_ok (entry_hash env h (fst c) (snd c)))"

text \<open>What an entry's event hash is taken of.\<close>

definition material :: "ledger_entry \<Rightarrow> chain_material" where
  "material e = \<lparr>cm_previous_hash = le_previous_hash e, cm_record = le_record e,
     cm_artifact_digests = le_artifact_digests e\<rparr>"

definition material_digest :: "'e ledger_env \<Rightarrow> chain_material \<Rightarrow> string option" where
  "material_digest env m = map_option (env_blake3_hex env) (res_ok (material_bytes env m))"

text \<open>
  What a forger has to exhibit: two different chain materials, one from each ledger, with the same
  BLAKE3 digest of their canonical bytes, or a material that hashes to the genesis value.
\<close>

definition digest_collision :: "'e ledger_env \<Rightarrow> ledger_entry list \<Rightarrow> ledger_entry list \<Rightarrow> bool" where
  "digest_collision env es fs \<longleftrightarrow>
     (\<exists>e f d. e \<in> set es \<and> f \<in> set fs \<and> material e \<noteq> material f
        \<and> material_digest env (material e) = Some d \<and> material_digest env (material f) = Some d)
     \<or> (\<exists>e. e \<in> set es \<union> set fs \<and> material_digest env (material e) = Some GENESIS)"

subsection \<open>Verification is the chain specification\<close>

lemma head_hash_simps [simp]:
  "head_hash [] = GENESIS" "head_hash (es @ [e]) = le_event_hash e"
  by (simp_all add: head_hash_def)

lemma verify_from_Cons:
  "verify_from env i prev (e # es) = Inr () \<longleftrightarrow>
     entry_ok env i prev e \<and> verify_from env (Suc i) (le_event_hash e) es = Inr ()"
  by (auto simp: entry_ok_def res_simps split: if_splits)

lemma verify_from_snoc:
  "verify_from env i prev (es @ [e]) = Inr () \<longleftrightarrow>
     verify_from env i prev es = Inr ()
     \<and> entry_ok env (i + length es) (if es = [] then prev else le_event_hash (last es)) e"
proof (induction es arbitrary: i prev)
  case Nil
  then show ?case using verify_from_Cons[of env i prev e "[]"] by simp
next
  case (Cons d es)
  show ?case
    unfolding append_Cons verify_from_Cons Cons.IH by (cases es) auto
qed

lemma verify_snoc:
  "ledger_verify env \<lparr>entries = es @ [e]\<rparr> = Inr () \<longleftrightarrow>
     ledger_verify env \<lparr>entries = es\<rparr> = Inr () \<and> entry_ok env (length es) (head_hash es) e"
  unfolding ledger_verify_def by (simp add: verify_from_snoc head_hash_def)

lemma verify_iff_chain: "ledger_verify env \<lparr>entries = es\<rparr> = Inr () \<longleftrightarrow> chain_ok env es"
proof (induction es rule: rev_induct)
  case Nil
  then show ?case by (simp add: ledger_verify_def chain_ok_def)
next
  case (snoc e es)
  have "chain_ok env (es @ [e]) \<longleftrightarrow> chain_ok env es \<and> entry_ok env (length es) (head_hash es) e"
    by (auto simp: chain_ok_def nth_append less_Suc_eq)
  with snoc show ?case by (simp add: verify_snoc)
qed

lemma append_event_Inr:
  assumes "append_event env now event digests l = Inr (e, l')"
  shows "l' = \<lparr>entries = entries l @ [e]\<rparr>"
    and "entry_ok env (length (entries l)) (head_hash (entries l)) e"
    and "le_record e = stamped_payload now event" "le_artifact_digests e = digests"
    and "le_campaign_id e = event_campaign_id event"
  using assms
  by (cases l; auto simp: append_event_def entry_ok_def stamped_payload_def Let_def res_simps)+

lemma append_event_verify:
  assumes "append_event env now event digests l = Inr (e, l')" "ledger_verify env l = Inr ()"
  shows "ledger_verify env l' = Inr ()"
  using append_event_Inr[OF assms(1)] assms(2) by (cases l) (simp add: verify_snoc)

lemma ledger_reachable_verify: "ledger_reachable env l \<Longrightarrow> ledger_verify env l = Inr ()"
proof (induction rule: ledger_reachable.induct)
  case reach_new
  then show ?case by (simp add: ledger_new_def ledger_verify_def)
next
  case (reach_append l now event digests e l')
  then show ?case using append_event_verify by metis
qed

subsection \<open>Tamper evidence\<close>

lemma entry_ok_link: "entry_ok env i prev e \<Longrightarrow> ledger_link env prev (content e) = Some (le_event_hash e)"
  by (simp add: entry_ok_def ledger_link_def content_def)

lemma verify_chain_run:
  "ledger_verify env \<lparr>entries = es\<rparr> = Inr () \<Longrightarrow>
     chain_run (ledger_link env) GENESIS (map content es) = Some (head_hash es)
     \<and> chain_links (ledger_link env) GENESIS (map content es)
         = map (\<lambda>e. (le_previous_hash e, content e)) es"
proof (induction es rule: rev_induct)
  case (snoc e es)
  then have "chain_run (ledger_link env) GENESIS (map content es) = Some (head_hash es)"
    "chain_links (ledger_link env) GENESIS (map content es)
       = map (\<lambda>e. (le_previous_hash e, content e)) es"
    "entry_ok env (length es) (head_hash es) e"
    by (auto simp: verify_snoc)
  then show ?case
    by (simp add: chain_run_append chain_links_snoc entry_ok_link) (simp add: entry_ok_def)
qed simp

lemma ledger_link_digest:
  "ledger_link env (le_previous_hash e) (content e) = Some k
     \<Longrightarrow> material_digest env (material e) = Some k"
  by (auto simp: ledger_link_def entry_hash_def content_def material_def material_digest_def
      res_simps Let_def)

lemma link_collision_digest:
  assumes "link_collision (ledger_link env) GENESIS
      (set (map (\<lambda>e. (le_previous_hash e, content e)) es))
      (set (map (\<lambda>e. (le_previous_hash e, content e)) fs))"
  shows "digest_collision env es fs"
  using assms unfolding link_collision_def
proof (elim disjE exE conjE)
  fix h a h' a' k
  assume "(h, a) \<in> set (map (\<lambda>e. (le_previous_hash e, content e)) es)"
    "(h', a') \<in> set (map (\<lambda>e. (le_previous_hash e, content e)) fs)" "(h, a) \<noteq> (h', a')"
    and k: "ledger_link env h a = Some k" "ledger_link env h' a' = Some k"
  then obtain e f where ef: "e \<in> set es" "f \<in> set fs"
    "h = le_previous_hash e" "a = content e" "h' = le_previous_hash f" "a' = content f"
    "material e \<noteq> material f"
    by (auto simp: material_def content_def)
  with k ledger_link_digest have "material_digest env (material e) = Some k"
    "material_digest env (material f) = Some k" by simp_all
  with ef show ?thesis unfolding digest_collision_def by metis
next
  fix h a
  assume "(h, a) \<in> set (map (\<lambda>e. (le_previous_hash e, content e)) es)
      \<union> set (map (\<lambda>e. (le_previous_hash e, content e)) fs)"
    and k: "ledger_link env h a = Some GENESIS"
  then obtain e where "e \<in> set es \<union> set fs" "h = le_previous_hash e" "a = content e" by auto
  with k ledger_link_digest[of env e GENESIS] show ?thesis unfolding digest_collision_def by auto
qed

lemma verify_content_sealed:
  assumes "ledger_verify env \<lparr>entries = es\<rparr> = Inr ()" "ledger_verify env \<lparr>entries = fs\<rparr> = Inr ()"
    and "map content es = map content fs"
  shows "map sealed es = map sealed fs"
  using assms
proof (induction es arbitrary: fs rule: rev_induct)
  case (snoc e es)
  from snoc.prems(3) obtain gs f where fs: "fs = gs @ [f]" "map content es = map content gs"
    "content e = content f"
    by (cases fs rule: rev_cases) auto
  from snoc.prems fs have ok: "entry_ok env (length es) (head_hash es) e"
    "entry_ok env (length gs) (head_hash gs) f"
    "ledger_verify env \<lparr>entries = es\<rparr> = Inr ()" "ledger_verify env \<lparr>entries = gs\<rparr> = Inr ()"
    by (auto simp: verify_snoc)
  have "head_hash es = head_hash gs"
    using verify_chain_run[OF ok(3)] verify_chain_run[OF ok(4)] fs(2) by (metis option.inject)
  moreover have "length es = length gs" using fs(2) by (rule map_eq_imp_length_eq)
  ultimately have "sealed e = sealed f"
    using ok(1,2) fs(3) by (auto simp: entry_ok_def content_def sealed_def)
  with snoc.IH[OF ok(3,4) fs(2)] fs(1) show ?case by simp
qed simp

lemma same_head_sealed:
  assumes "ledger_verify env l = Inr ()" "ledger_verify env l' = Inr ()"
    and "head_hash (entries l) = head_hash (entries l')"
  shows "map sealed (entries l) = map sealed (entries l')
    \<or> digest_collision env (entries l) (entries l')"
proof -
  have v: "ledger_verify env \<lparr>entries = entries l\<rparr> = Inr ()"
    "ledger_verify env \<lparr>entries = entries l'\<rparr> = Inr ()"
    using assms(1,2) by (cases l; cases l'; simp)+
  note run = verify_chain_run[OF v(1)] verify_chain_run[OF v(2)]
  have "map content (entries l) = map content (entries l') \<or> digest_collision env (entries l) (entries l')"
    using head_determines_chain[OF run(1)[THEN conjunct1], of "map content (entries l')"]
      run assms(3) link_collision_digest[of env "entries l" "entries l'"] by auto
  with verify_content_sealed[OF v] show ?thesis by blast
qed

lemma map_update_sealed:
  "i < length es \<Longrightarrow> map f (es[i := e]) = map f es \<Longrightarrow> f e = f (es ! i)"
  by (metis length_list_update nth_list_update_eq nth_map)

lemma verify_from_campaign_id:
  "verify_from env i prev (map (\<lambda>e. e\<lparr>le_campaign_id := f e\<rparr>) es) = verify_from env i prev es"
  by (induction es arbitrary: i prev) (simp_all add: split_def cong: if_cong)

subsection \<open>A concrete environment\<close>

text \<open>
  A stand-in for the hash and a serializer that accepts one chain material, an anomaly recorded on top
  of the genesis value: enough to build and to tamper with a ledger of one entry.
\<close>

definition demo_event :: "string \<Rightarrow> research_event" where
  "demo_event s = AnomalyRecorded (CampaignId 7) s"

definition demo_material :: chain_material where
  "demo_material = \<lparr>cm_previous_hash = GENESIS,
     cm_record = \<lparr>ev_occurred_unix_ms = 5, ev_event = demo_event ''old''\<rparr>,
     cm_artifact_digests = []\<rparr>"

definition demo_env :: "unit ledger_env" where
  "demo_env = \<lparr>env_record_value = (\<lambda>r. Inr JNull),
     env_material_value = (\<lambda>m. if m = demo_material then Inr JNull else Inl ()),
     env_to_vec = (\<lambda>j. Inr []),
     env_blake3_hex = (\<lambda>b. CHR ''h'' # map (\<lambda>x. char_of (unat x)) b)\<rparr>"

definition demo_entry :: ledger_entry where
  "demo_entry = \<lparr>le_index = 0, le_previous_hash = GENESIS, le_event_hash = ''h'',
     le_campaign_id = Some (CampaignId 7), le_payload_digest = ''h'', le_artifact_digests = [],
     le_record = \<lparr>ev_occurred_unix_ms = 5, ev_event = demo_event ''old''\<rparr>\<rparr>"

lemma demo_append:
  "append_event demo_env 5 (demo_event ''old'') [] ledger_new = Inr (demo_entry, \<lparr>entries = [demo_entry]\<rparr>)"
  by (simp add: append_event_def ledger_new_def stamped_payload_def entry_hash_def record_bytes_def
      material_bytes_def to_canonical_json_def demo_env_def demo_material_def demo_event_def
      demo_entry_def Let_def)

lemma demo_verify: "ledger_verify demo_env \<lparr>entries = [demo_entry]\<rparr> = Inr ()"
  by (rule append_event_verify[OF demo_append])
     (simp add: ledger_new_def ledger_verify_def)

subsection \<open>Properties\<close>

text \<open>C5. Every ledger the program builds by appending verifies, and an append extends the entries by
  exactly one whose index, previous hash, record, digests and campaign id are those of the event,
  leaving all earlier entries as they were.\<close>

theorem ledger_append_invariant:
  assumes "ledger_reachable env l"
    and "append_event env now event digests l = Inr (e, l')"
  shows "ledger_verify env l' = Inr () \<and> entries l' = entries l @ [e]
    \<and> le_index e = of_nat (length (entries l))
    \<and> le_previous_hash e = head_hash (entries l)
    \<and> le_record e = \<lparr>ev_occurred_unix_ms = now, ev_event = event\<rparr>
    \<and> le_artifact_digests e = digests
    \<and> le_campaign_id e = event_campaign_id event"
  using append_event_verify[OF assms(2) ledger_reachable_verify[OF assms(1)]]
    append_event_Inr[OF assms(2)]
  by (simp add: entry_ok_def stamped_payload_def)

lemma ledger_append_invariant_witness:
  "ledger_verify demo_env \<lparr>entries = [demo_entry]\<rparr> = Inr ()
   \<and> le_record demo_entry = \<lparr>ev_occurred_unix_ms = 5, ev_event = demo_event ''old''\<rparr>"
  using ledger_append_invariant[OF reach_new demo_append] by simp




text \<open>Rewriting the summary of a recorded anomaly in place is detected: unless the old
  and the new text are part of a digest collision, the ledger no longer verifies.\<close>

theorem tamper_payload_detected:
  assumes "ledger_verify env l = Inr ()"
    and "\<not> digest_collision env (entries (tamper_payload_for_test i summary l)) (entries l)"
    and "i < length (entries l)"
    and "ev_event (le_record (entries l ! i)) = AnomalyRecorded c old" "old \<noteq> summary"
  shows "ledger_verify env (tamper_payload_for_test i summary l) \<noteq> Inr ()"
proof
  assume v: "ledger_verify env (tamper_payload_for_test i summary l) = Inr ()"
  let ?e = "entries l ! i"
  let ?f = "?e\<lparr>le_record := le_record ?e\<lparr>ev_event := AnomalyRecorded c summary\<rparr>\<rparr>"
  have t: "tamper_payload_for_test i summary l = l\<lparr>entries := (entries l)[i := ?f]\<rparr>"
    using assms(3,4) by (simp add: tamper_payload_for_test_def set_summary_def Let_def)
  have "head_hash ((entries l)[i := ?f]) = head_hash (entries l)"
    using assms(3) by (auto simp: head_hash_def last_conv_nth nth_list_update)
  with same_head_sealed[OF v assms(1)] assms(2)
  have "map sealed ((entries l)[i := ?f]) = map sealed (entries l)" unfolding t by simp
  then have "sealed ?f = sealed ?e" using assms(3) by (rule map_update_sealed[rotated])
  then have "ev_event (le_record ?f) = ev_event (le_record ?e)"
    by (metis ledger_entry.select_convs(7) ledger_entry.surjective ledger_entry.update_convs(4) sealed_def)
  with assms(4,5) show False by simp
qed

lemma tamper_payload_detected_witness:
  "ledger_verify demo_env (tamper_payload_for_test 0 ''new'' \<lparr>entries = [demo_entry]\<rparr>) \<noteq> Inr ()"
  by (rule tamper_payload_detected[OF demo_verify, where c = "CampaignId 7" and old = "''old''"])
     (simp_all add: digest_collision_def tamper_payload_for_test_def material_def
       material_digest_def material_bytes_def to_canonical_json_def set_summary_def demo_material_def
       demo_env_def demo_entry_def demo_event_def GENESIS_def Let_def)

text \<open>The campaign id stored in an entry is not covered: changing it in any entries of a ledger
  does not change the outcome of verification.\<close>

theorem verify_ignores_campaign_id:
  "ledger_verify env (l\<lparr>entries := map (\<lambda>e. e\<lparr>le_campaign_id := f e\<rparr>) (entries l)\<rparr>)
     = ledger_verify env l"
  by (simp add: ledger_verify_def verify_from_campaign_id)

end
