(* ===== verification/Store.thy ===== *)
theory Store
  imports Ledger
begin

text \<open>
  Crate \<^verbatim>\<open>aros-store\<close>: the SQLite-backed store. A table is the list of its rows in rowid order and
  each SQL statement of the source is translated to its effect on the rows; an engine failure of a
  statement is an argument. The text form of a record (\<^verbatim>\<open>serde_json\<close>) is a codec, the display text
  of a uuid is the uuid itself. The lemmas show that a persisted ledger loads back unchanged, that
  campaigns do not see each other's rows, that a failed transaction changes nothing, and that only
  ledgers that verify are ever loaded.
\<close>

subsection \<open>Data\<close>

datatype store_error =
    SE_Sqlite string | SE_Json string | SE_NotFound string | SE_Ledger string

definition store_error_to_string :: "store_error \<Rightarrow> string" where
  "store_error_to_string e =
     (case e of
        SE_Sqlite m \<Rightarrow> ''sqlite: '' @ m
      | SE_Json m \<Rightarrow> ''json: '' @ m
      | SE_NotFound m \<Rightarrow> ''record not found: '' @ m
      | SE_Ledger m \<Rightarrow> ''ledger: '' @ m)"

record 'a codec =
  codec_to_string :: "'a \<Rightarrow> string + string"
  codec_from_str :: "string \<Rightarrow> string + 'a"

record ledger_row =
  lr_campaign_id :: campaign_id
  lr_idx :: int
  lr_event_hash :: string
  lr_previous_hash :: string
  lr_payload_digest :: string
  lr_payload :: string

record store =
  st_campaigns :: "(campaign_id \<times> string) list"
  st_ledger_events :: "ledger_row list"
  st_graph_nodes :: "(node_id \<times> campaign_id \<times> string) list"
  st_graph_edges :: "(edge_id \<times> campaign_id \<times> string) list"
  st_records :: "((string \<times> string) \<times> string) list"

definition store_empty :: store where
  "store_empty = \<lparr>st_campaigns = [], st_ledger_events = [], st_graph_nodes = [],
     st_graph_edges = [], st_records = []\<rparr>"

subsection \<open>Statements\<close>

text \<open>\<^verbatim>\<open>INSERT OR REPLACE\<close>: a row with the same key is deleted, the new row gets a new rowid.\<close>

definition insert_or_replace :: "'k \<Rightarrow> 'v \<Rightarrow> ('k \<times> 'v) list \<Rightarrow> ('k \<times> 'v) list" where
  "insert_or_replace k v rows = filter (\<lambda>r. fst r \<noteq> k) rows @ [(k, v)]"

text \<open>\<^verbatim>\<open>INSERT\<close>: a row with the same key is a constraint violation.\<close>

definition insert_row :: "'k \<Rightarrow> 'v \<Rightarrow> ('k \<times> 'v) list \<Rightarrow> store_error + ('k \<times> 'v) list" where
  "insert_row k v rows =
     (if k \<in> fst ` set rows then Inl (SE_Sqlite ''UNIQUE constraint failed'')
      else Inr (rows @ [(k, v)]))"

definition ledger_key :: "ledger_row \<Rightarrow> campaign_id \<times> int" where
  "ledger_key r = (lr_campaign_id r, lr_idx r)"

definition insert_ledger_row :: "ledger_row \<Rightarrow> ledger_row list \<Rightarrow> store_error + ledger_row list" where
  "insert_ledger_row r rows =
     (if ledger_key r \<in> ledger_key ` set rows then Inl (SE_Sqlite ''UNIQUE constraint failed'')
      else Inr (rows @ [r]))"

definition select_ledger :: "campaign_id \<Rightarrow> ledger_row list \<Rightarrow> ledger_row list" where
  "select_ledger c rows = sort_key lr_idx (filter (\<lambda>r. lr_campaign_id r = c) rows)"

subsection \<open>Operations\<close>

definition put_campaign :: "campaign codec \<Rightarrow> campaign \<Rightarrow> store \<Rightarrow> store_error + store" where
  "put_campaign cd campaign db =
     res_bind (map_err SE_Json (codec_to_string cd campaign)) (\<lambda>payload.
       Inr (db\<lparr>st_campaigns := insert_or_replace (cp_id campaign) payload (st_campaigns db)\<rparr>))"

definition get_campaign ::
    "(campaign_id \<Rightarrow> string) \<Rightarrow> campaign codec \<Rightarrow> campaign_id \<Rightarrow> store \<Rightarrow> store_error + campaign" where
  "get_campaign show_id cd i db =
     res_bind (ok_or (map_of (st_campaigns db) i) (SE_NotFound (show_id i))) (\<lambda>payload.
       map_err SE_Json (codec_from_str cd payload))"

definition ledger_error_to_string :: "('e \<Rightarrow> string) \<Rightarrow> 'e ledger_error \<Rightarrow> string" where
  "ledger_error_to_string show_e e =
     (case e of
        LE_Json j \<Rightarrow> ''json: '' @ show_e j
      | BrokenChain i \<Rightarrow> ''broken hash chain at index '' @ show_nat i
      | Tampered i \<Rightarrow> ''tampered payload at index '' @ show_nat i
      | NonContiguous x a \<Rightarrow> ''non-contiguous ledger index: expected '' @ show_nat (unat x)
          @ '', got '' @ show_nat (unat a))"

text \<open>\<^verbatim>\<open>entry.index as i64\<close> is the signed reading of the index.\<close>

definition ledger_row_of :: "campaign_id \<Rightarrow> ledger_entry \<Rightarrow> string \<Rightarrow> ledger_row" where
  "ledger_row_of c e payload =
     \<lparr>lr_campaign_id = c, lr_idx = sint (le_index e), lr_event_hash = le_event_hash e,
      lr_previous_hash = le_previous_hash e, lr_payload_digest = le_payload_digest e,
      lr_payload = payload\<rparr>"

definition insert_entry ::
    "ledger_entry codec \<Rightarrow> campaign_id \<Rightarrow> ledger_row list \<Rightarrow> ledger_entry
      \<Rightarrow> store_error + ledger_row list" where
  "insert_entry cd c rows e =
     res_bind (map_err SE_Json (codec_to_string cd e)) (\<lambda>payload.
       insert_ledger_row (ledger_row_of c e payload) rows)"

text \<open>
  The transaction of \<^verbatim>\<open>persist_ledger_for\<close>. \<open>tx_fault\<close> is an engine failure at any of its
  statements or at the commit; every error path drops the transaction, which rolls back.
\<close>

definition persist_ledger_for ::
    "'e ledger_env \<Rightarrow> ('e \<Rightarrow> string) \<Rightarrow> ledger_entry codec \<Rightarrow> string option \<Rightarrow> campaign_id
      \<Rightarrow> event_ledger \<Rightarrow> store \<Rightarrow> (store_error + unit) \<times> store" where
  "persist_ledger_for env show_e cd tx_fault c l db =
     (case ledger_verify env l of
        Inl e \<Rightarrow> (Inl (SE_Ledger (ledger_error_to_string show_e e)), db)
      | Inr _ \<Rightarrow>
          (case res_fold (insert_entry cd c)
                  (filter (\<lambda>r. lr_campaign_id r \<noteq> c) (st_ledger_events db)) (entries l) of
             Inl e \<Rightarrow> (Inl e, db)
           | Inr rows \<Rightarrow>
               (case tx_fault of
                  Some e \<Rightarrow> (Inl (SE_Sqlite e), db)
                | None \<Rightarrow> (Inr (), db\<lparr>st_ledger_events := rows\<rparr>))))"

definition infer_campaign :: "event_ledger \<Rightarrow> campaign_id option" where
  "infer_campaign l =
     (case filter (\<lambda>e. le_campaign_id e \<noteq> None) (entries l) of
        [] \<Rightarrow> None | e # _ \<Rightarrow> le_campaign_id e)"

definition persist_ledger ::
    "'e ledger_env \<Rightarrow> ('e \<Rightarrow> string) \<Rightarrow> ledger_entry codec \<Rightarrow> string option \<Rightarrow> event_ledger \<Rightarrow> store
      \<Rightarrow> (store_error + unit) \<times> store" where
  "persist_ledger env show_e cd tx_fault l db =
     (case infer_campaign l of
        None \<Rightarrow> (Inl (SE_Ledger ''cannot infer campaign id from ledger''), db)
      | Some c \<Rightarrow> persist_ledger_for env show_e cd tx_fault c l db)"

definition append_entry_for ::
    "ledger_entry codec \<Rightarrow> campaign_id \<Rightarrow> ledger_entry \<Rightarrow> store \<Rightarrow> store_error + store" where
  "append_entry_for cd c e db =
     res_bind (insert_entry cd c (st_ledger_events db) e) (\<lambda>rows.
       Inr (db\<lparr>st_ledger_events := rows\<rparr>))"

definition append_entry :: "ledger_entry codec \<Rightarrow> ledger_entry \<Rightarrow> store \<Rightarrow> store_error + store" where
  "append_entry cd e db =
     res_bind (ok_or (le_campaign_id e) (SE_Ledger ''entry has no campaign id'')) (\<lambda>c.
       append_entry_for cd c e db)"

definition read_ledger_row :: "ledger_entry codec \<Rightarrow> ledger_row \<Rightarrow> store_error + ledger_entry" where
  "read_ledger_row cd r =
     res_bind (map_err SE_Json (codec_from_str cd (lr_payload r))) (\<lambda>e.
       if le_event_hash e \<noteq> lr_event_hash r \<or> le_previous_hash e \<noteq> lr_previous_hash r
          \<or> le_payload_digest e \<noteq> lr_payload_digest r then
         Inl (SE_Ledger (''persisted ledger columns disagree at index ''
                         @ show_nat (unat (le_index e))))
       else Inr e)"

definition load_ledger_for ::
    "'e ledger_env \<Rightarrow> ('e \<Rightarrow> string) \<Rightarrow> (campaign_id \<Rightarrow> string) \<Rightarrow> ledger_entry codec \<Rightarrow> campaign_id
      \<Rightarrow> store \<Rightarrow> store_error + event_ledger" where
  "load_ledger_for env show_e show_id cd c db =
     res_bind (res_map (read_ledger_row cd) (select_ledger c (st_ledger_events db))) (\<lambda>stored.
       if stored = [] then Inl (SE_NotFound (''ledger:'' @ show_id c))
       else map_err (\<lambda>e. SE_Ledger (ledger_error_to_string show_e e))
              (from_stored_entries env stored))"

text \<open>\<open>parse_id\<close> of a stored campaign id is \<^verbatim>\<open>serde_json::from_value\<close>; ids are stored as themselves.\<close>

definition load_ledger ::
    "'e ledger_env \<Rightarrow> ('e \<Rightarrow> string) \<Rightarrow> (campaign_id \<Rightarrow> string) \<Rightarrow> ledger_entry codec \<Rightarrow> store
      \<Rightarrow> store_error + event_ledger" where
  "load_ledger env show_e show_id cd db =
     (case remdups (map lr_campaign_id (st_ledger_events db)) of
        [c] \<Rightarrow> load_ledger_for env show_e show_id cd c db
      | ids \<Rightarrow> Inl (SE_Ledger (''load_ledger requires exactly one persisted campaign; found ''
                               @ show_nat (length ids))))"

definition put_graph_node :: "graph_node codec \<Rightarrow> graph_node \<Rightarrow> store \<Rightarrow> store_error + store" where
  "put_graph_node cd node db =
     res_bind (map_err SE_Json (codec_to_string cd node)) (\<lambda>payload.
       Inr (db\<lparr>st_graph_nodes :=
              insert_or_replace (gn_id node) (gn_campaign_id node, payload) (st_graph_nodes db)\<rparr>))"

definition put_graph_edge :: "graph_edge codec \<Rightarrow> graph_edge \<Rightarrow> store \<Rightarrow> store_error + store" where
  "put_graph_edge cd edge db =
     res_bind (map_err SE_Json (codec_to_string cd edge)) (\<lambda>payload.
       Inr (db\<lparr>st_graph_edges :=
              insert_or_replace (ge_id edge) (ge_campaign_id edge, payload) (st_graph_edges db)\<rparr>))"

text \<open>The node and edge loops of \<^verbatim>\<open>persist_graph\<close> are the same loop on two tables.\<close>

definition insert_payload ::
    "('a \<Rightarrow> 'k) \<Rightarrow> 'a codec \<Rightarrow> campaign_id \<Rightarrow> ('k \<times> campaign_id \<times> string) list \<Rightarrow> 'a
      \<Rightarrow> store_error + ('k \<times> campaign_id \<times> string) list" where
  "insert_payload key cd c rows x =
     res_bind (map_err SE_Json (codec_to_string cd x)) (\<lambda>payload.
       insert_row (key x) (c, payload) rows)"

definition persist_graph ::
    "graph_node codec \<Rightarrow> graph_edge codec \<Rightarrow> string option \<Rightarrow> campaign_id \<Rightarrow> graph_node list
      \<Rightarrow> graph_edge list \<Rightarrow> store \<Rightarrow> (store_error + unit) \<times> store" where
  "persist_graph ncd ecd tx_fault c nodes edges db =
     (let old_edges = filter (\<lambda>(_, d, _). d \<noteq> c) (st_graph_edges db);
          old_nodes = filter (\<lambda>(_, d, _). d \<noteq> c) (st_graph_nodes db)
      in case res_fold (insert_payload gn_id ncd c) old_nodes nodes of
           Inl e \<Rightarrow> (Inl e, db)
         | Inr node_rows \<Rightarrow>
             (case res_fold (insert_payload ge_id ecd c) old_edges edges of
                Inl e \<Rightarrow> (Inl e, db)
              | Inr edge_rows \<Rightarrow>
                  (case tx_fault of
                     Some e \<Rightarrow> (Inl (SE_Sqlite e), db)
                   | None \<Rightarrow> (Inr (), db\<lparr>st_graph_nodes := node_rows,
                                          st_graph_edges := edge_rows\<rparr>))))"

definition load_payloads ::
    "'a codec \<Rightarrow> campaign_id \<Rightarrow> ('k \<times> campaign_id \<times> string) list \<Rightarrow> store_error + 'a list" where
  "load_payloads cd c rows =
     res_map (\<lambda>(_, _, payload). map_err SE_Json (codec_from_str cd payload))
       (filter (\<lambda>(_, d, _). d = c) rows)"

definition load_graph_nodes ::
    "graph_node codec \<Rightarrow> campaign_id \<Rightarrow> store \<Rightarrow> store_error + graph_node list" where
  "load_graph_nodes cd c db = load_payloads cd c (st_graph_nodes db)"

definition load_graph_edges ::
    "graph_edge codec \<Rightarrow> campaign_id \<Rightarrow> store \<Rightarrow> store_error + graph_edge list" where
  "load_graph_edges cd c db = load_payloads cd c (st_graph_edges db)"

definition put_record :: "string \<Rightarrow> string \<Rightarrow> string \<Rightarrow> store \<Rightarrow> store" where
  "put_record kind i payload db =
     db\<lparr>st_records := insert_or_replace (kind, i) payload (st_records db)\<rparr>"

definition get_record :: "string \<Rightarrow> string \<Rightarrow> store \<Rightarrow> store_error + string" where
  "get_record kind i db = ok_or (map_of (st_records db) (kind, i)) (SE_NotFound (kind @ '':'' @ i))"

definition list_records :: "string \<Rightarrow> store \<Rightarrow> (string \<times> string) list" where
  "list_records kind db =
     sort_key fst (map (\<lambda>((_, i), p). (i, p)) (filter (\<lambda>((k, _), _). k = kind) (st_records db)))"

definition list_campaigns :: "campaign codec \<Rightarrow> store \<Rightarrow> store_error + campaign list" where
  "list_campaigns cd db =
     res_map (\<lambda>(_, payload). map_err SE_Json (codec_from_str cd payload)) (st_campaigns db)"

subsection \<open>Keyed tables\<close>

text \<open>What a client of a key-value table relies on.\<close>

locale kv_table =
  fixes put :: "'k \<Rightarrow> 'v \<Rightarrow> 's \<Rightarrow> 's"
    and get :: "'k \<Rightarrow> 's \<Rightarrow> 'v option"
  assumes get_put_same: "get k (put k v s) = Some v"
    and get_put_other: "k \<noteq> k' \<Longrightarrow> get k' (put k v s) = get k' s"
begin

lemma last_write_wins:
  "get k (fold (\<lambda>(k, v). put k v) kvs s) =
     (case map_of (rev kvs) k of None \<Rightarrow> get k s | Some v \<Rightarrow> Some v)"
proof (induction kvs arbitrary: s)
  case (Cons kv kvs)
  obtain k' v where kv: "kv = (k', v)" by force
  have "get k (put k' v s) = (if k = k' then Some v else get k s)"
    by (cases "k = k'") (simp_all add: get_put_same get_put_other)
  with Cons kv show ?case by (auto simp: map_add_def split: option.splits)
qed simp

end

lemma map_of_insert_or_replace:
  "map_of (insert_or_replace k v rows) k' = (if k' = k then Some v else map_of rows k')"
  by (induction rows) (auto simp: insert_or_replace_def)

interpretation keyed_rows: kv_table insert_or_replace "\<lambda>k rows. map_of rows k"
  by unfold_locales (simp_all add: map_of_insert_or_replace)

interpretation record_table: kv_table
  "\<lambda>(kind, i) payload. put_record kind i payload" "\<lambda>(kind, i) db. res_ok (get_record kind i db)"
  by unfold_locales
     (auto simp: put_record_def get_record_def map_of_insert_or_replace split: if_splits)

subsection \<open>The ledger rows of a campaign\<close>

definition codec_ok :: "'a codec \<Rightarrow> bool" where
  "codec_ok cd \<longleftrightarrow> (\<forall>x s. codec_to_string cd x = Inr s \<longrightarrow> codec_from_str cd s = Inr x)"

text \<open>Abstraction: campaign \<open>c\<close> holds the entries \<open>es\<close>, one row each, in order.\<close>

definition row_for :: "ledger_entry codec \<Rightarrow> campaign_id \<Rightarrow> ledger_entry \<Rightarrow> ledger_row" where
  "row_for cd c e = ledger_row_of c e (projr (codec_to_string cd e))"

definition holds :: "ledger_entry codec \<Rightarrow> store \<Rightarrow> campaign_id \<Rightarrow> ledger_entry list \<Rightarrow> bool" where
  "holds cd db c es \<longleftrightarrow>
     filter (\<lambda>r. lr_campaign_id r = c) (st_ledger_events db) = map (row_for cd c) es
     \<and> (\<forall>e \<in> set es. is_ok (codec_to_string cd e))"

lemma insert_entry_Inr:
  assumes "insert_entry cd c rows e = Inr rows'"
  shows "rows' = rows @ [row_for cd c e]" "is_ok (codec_to_string cd e)"
  using assms
  by (auto simp: insert_entry_def insert_ledger_row_def row_for_def res_simps split: if_splits)

lemma insert_entries_Inr:
  assumes "res_fold (insert_entry cd c) rows es = Inr rows'"
  shows "rows' = rows @ map (row_for cd c) es \<and> (\<forall>e \<in> set es. is_ok (codec_to_string cd e))"
  using assms
proof (induction es arbitrary: rows)
  case (Cons e es)
  from Cons.prems obtain rows1 where "insert_entry cd c rows e = Inr rows1"
    "res_fold (insert_entry cd c) rows1 es = Inr rows'"
    by (auto split: sum.splits)
  with Cons.IH insert_entry_Inr show ?case by fastforce
qed simp

lemma row_for_campaign [simp]: "lr_campaign_id (row_for cd c e) = c"
  by (simp add: row_for_def ledger_row_of_def)

lemma row_for_idx [simp]: "lr_idx (row_for cd c e) = sint (le_index e)"
  by (simp add: row_for_def ledger_row_of_def)

lemma filter_row_for:
  "filter (\<lambda>r. lr_campaign_id r = d) (map (row_for cd c) es) = (if c = d then map (row_for cd c) es else [])"
  by (simp add: filter_map comp_def)

lemma persist_rows:
  assumes "persist_ledger_for env show_e cd f c l db = (Inr (), db')"
  shows "st_ledger_events db' = filter (\<lambda>r. lr_campaign_id r \<noteq> c) (st_ledger_events db)
      @ map (row_for cd c) (entries l)"
    and "\<forall>e \<in> set (entries l). is_ok (codec_to_string cd e)"
proof -
  from assms obtain rows where
    "res_fold (insert_entry cd c)
        (filter (\<lambda>r. lr_campaign_id r \<noteq> c) (st_ledger_events db)) (entries l) = Inr rows"
    and "db' = db\<lparr>st_ledger_events := rows\<rparr>"
    by (auto simp: persist_ledger_for_def split: sum.splits option.splits)
  with insert_entries_Inr show
    "st_ledger_events db' = filter (\<lambda>r. lr_campaign_id r \<noteq> c) (st_ledger_events db)
      @ map (row_for cd c) (entries l)"
    "\<forall>e \<in> set (entries l). is_ok (codec_to_string cd e)" by auto
qed

lemma persist_holds:
  assumes "persist_ledger_for env show_e cd f c l db = (Inr (), db')"
  shows "holds cd db' c (entries l)"
  using persist_rows[OF assms] by (simp add: holds_def filter_row_for)

lemma persist_filter:
  assumes "persist_ledger_for env show_e cd f c l db = (Inr (), db')" "d \<noteq> c"
  shows "filter (\<lambda>r. lr_campaign_id r = d) (st_ledger_events db')
    = filter (\<lambda>r. lr_campaign_id r = d) (st_ledger_events db)"
  using persist_rows(1)[OF assms(1)] assms(2) by (auto simp: filter_row_for intro: filter_cong)

lemma append_holds:
  assumes "append_entry_for cd c e db = Inr db'"
  shows "holds cd db c es \<Longrightarrow> holds cd db' c (es @ [e])"
    and "d \<noteq> c \<Longrightarrow> holds cd db' d es = holds cd db d es"
proof -
  from assms obtain rows where rows: "insert_entry cd c (st_ledger_events db) e = Inr rows"
    and db': "db' = db\<lparr>st_ledger_events := rows\<rparr>"
    by (auto simp: append_entry_for_def res_simps)
  from insert_entry_Inr[OF rows] db'
  show "holds cd db c es \<Longrightarrow> holds cd db' c (es @ [e])"
    and "d \<noteq> c \<Longrightarrow> holds cd db' d es = holds cd db d es"
    by (auto simp: holds_def)
qed

lemma sint_index: "i < 2 ^ 63 \<Longrightarrow> sint (of_nat i :: u64) = int i"
  by (simp add: signed_of_nat signed_take_bit_int_eq_self)

lemma select_holds:
  assumes "holds cd db c es" "chain_ok env es" "length es \<le> 2 ^ 63"
  shows "select_ledger c (st_ledger_events db) = map (row_for cd c) es"
proof -
  have "map lr_idx (map (row_for cd c) es) = map int [0..<length es]"
    using assms(2,3) by (auto simp: chain_ok_def entry_ok_def sint_index intro!: nth_equalityI)
  moreover have "sorted (map int [0..<length es])" by (simp add: sorted_map sorted_wrt_upt)
  ultimately have "sorted (map lr_idx (map (row_for cd c) es))" by metis
  then show ?thesis
    using assms(1) unfolding select_ledger_def holds_def by (simp add: sort_key_id_if_sorted)
qed

lemma read_row_for:
  assumes "codec_ok cd" "is_ok (codec_to_string cd e)"
  shows "read_ledger_row cd (row_for cd c e) = Inr e"
  using assms
  by (auto simp: read_ledger_row_def row_for_def ledger_row_of_def codec_ok_def res_simps)

lemma load_holds:
  assumes "codec_ok cd" "holds cd db c (entries l)" "ledger_verify env l = Inr ()"
    and "entries l \<noteq> []" "length (entries l) \<le> 2 ^ 63"
  shows "load_ledger_for env show_e show_id cd c db = Inr l"
proof -
  have v: "ledger_verify env \<lparr>entries = entries l\<rparr> = Inr ()" using assms(3) by (cases l) simp
  have "res_map (read_ledger_row cd) (map (row_for cd c) (entries l)) = Inr (entries l)"
    using assms(1,2) by (auto simp: res_map_Inr_iff list_all2_conv_all_nth holds_def
        intro!: read_row_for)
  moreover have "select_ledger c (st_ledger_events db) = map (row_for cd c) (entries l)"
    using assms(2,5) v by (auto simp: verify_iff_chain intro: select_holds)
  ultimately show ?thesis
    using v assms(4) by (cases l) (simp add: load_ledger_for_def from_stored_entries_def Let_def)
qed

lemma load_verified:
  assumes "load_ledger_for env show_e show_id cd c db = Inr l"
  shows "ledger_verify env l = Inr () \<and> entries l \<noteq> []"
  using assms
  by (auto simp: load_ledger_for_def from_stored_entries_def res_simps Let_def split: if_splits)

lemma persist_Inl:
  assumes "persist_ledger_for env show_e cd f c l db = (Inl e, db')"
  shows "db' = db"
  using assms by (auto simp: persist_ledger_for_def split: sum.splits option.splits)

lemma insert_payloads_Inr:
  assumes "res_fold (insert_payload key cd c) rows xs = Inr rows'"
  shows "rows' = rows @ map (\<lambda>x. (key x, c, projr (codec_to_string cd x))) xs
    \<and> (\<forall>x \<in> set xs. is_ok (codec_to_string cd x))"
  using assms
proof (induction xs arbitrary: rows)
  case (Cons x xs)
  from Cons.prems obtain rows1 where "insert_payload key cd c rows x = Inr rows1"
    "res_fold (insert_payload key cd c) rows1 xs = Inr rows'"
    by (auto split: sum.splits)
  with Cons.IH show ?case
    by (fastforce simp: insert_payload_def insert_row_def res_simps split: if_splits)
qed simp

lemma load_payloads_persisted:
  assumes "codec_ok cd" "res_fold (insert_payload key cd c) rows xs = Inr rows'"
    and "\<And>r. r \<in> set rows \<Longrightarrow> fst (snd r) \<noteq> c"
  shows "load_payloads cd c rows' = Inr xs"
proof -
  let ?row = "\<lambda>x. (key x, c, projr (codec_to_string cd x))"
  have none: "filter (\<lambda>(_, d, _). d = c) rows = []"
    using assms(3) by (fastforce simp: filter_empty_conv)
  have "filter (\<lambda>(_, d, _). d = c) rows' = map ?row xs"
    using insert_payloads_Inr[OF assms(2)] none by (simp add: filter_map comp_def)
  moreover have "res_map (\<lambda>(_, _, payload). map_err SE_Json (codec_from_str cd payload)) (map ?row xs)
      = Inr xs"
    using insert_payloads_Inr[OF assms(2)] assms(1)
    by (auto simp: res_map_Inr_iff list_all2_map1 list.rel_refl_strong list_all2_same codec_ok_def res_simps)
  ultimately show ?thesis by (simp add: load_payloads_def)
qed

subsection \<open>Concrete codecs\<close>

definition demo_codec :: "'a \<Rightarrow> 'a codec" where
  "demo_codec x = \<lparr>codec_to_string = (\<lambda>y. if y = x then Inr ''payload'' else Inl ''unsupported''),
     codec_from_str = (\<lambda>s. if s = ''payload'' then Inr x else Inl ''unsupported'')\<rparr>"

definition demo_node :: graph_node where
  "demo_node = \<lparr>gn_id = NodeId 1, gn_campaign_id = CampaignId 7, gn_graph = GK_Research,
     gn_kind = ''hypothesis'', gn_label = ''h'', gn_epistemic = ES_Hypothesized, gn_payload = JNull,
     gn_provenance = ''p'', gn_artifact_refs = [], gn_created_unix_ms = 0\<rparr>"

definition demo_edge :: graph_edge where
  "demo_edge = \<lparr>ge_id = EdgeId 1, ge_campaign_id = CampaignId 7, ge_graph = GK_Research,
     ge_from = NodeId 1, ge_to = NodeId 1, ge_kind = ''k'', ge_epistemic = ES_Inferred,
     ge_confidence = None, ge_provenance = ''p'', ge_artifact_refs = [], ge_created_unix_ms = 0\<rparr>"

definition demo_store :: store where
  "demo_store = store_empty\<lparr>st_ledger_events :=
     [ledger_row_of (CampaignId 7) demo_entry ''payload'']\<rparr>"

lemma demo_codec_ok: "codec_ok (demo_codec x)"
  by (simp add: codec_ok_def demo_codec_def)

lemma demo_persist:
  "persist_ledger_for demo_env (\<lambda>_. []) (demo_codec demo_entry) None (CampaignId 7)
     \<lparr>entries = [demo_entry]\<rparr> store_empty = (Inr (), demo_store)"
  by (simp add: persist_ledger_for_def demo_verify insert_entry_def insert_ledger_row_def
      demo_codec_def store_empty_def demo_store_def)

subsection \<open>Properties\<close>

text \<open>C21. Persist then load is the identity: after a successful persist of a ledger with at least one
  and at most \<open>2 ^ 63\<close> entries, loading its campaign gives the same ledger, and every other campaign
  loads exactly what it loaded before.\<close>

theorem persist_load_ledger:
  assumes "codec_ok cd"
    and "persist_ledger_for env show_e cd f c l db = (Inr (), db')"
    and "entries l \<noteq> []" "length (entries l) \<le> 2 ^ 63"
  shows "load_ledger_for env show_e show_id cd c db' = Inr l
    \<and> (d \<noteq> c \<longrightarrow> load_ledger_for env show_e show_id cd d db' = load_ledger_for env show_e show_id cd d db)"
proof (intro conjI impI)
  have "ledger_verify env l = Inr ()"
    using assms(2) by (auto simp: persist_ledger_for_def split: sum.splits)
  then show "load_ledger_for env show_e show_id cd c db' = Inr l"
    using assms persist_holds load_holds by metis
  assume "d \<noteq> c"
  then have "filter (\<lambda>r. lr_campaign_id r = d) (st_ledger_events db')
      = filter (\<lambda>r. lr_campaign_id r = d) (st_ledger_events db)"
    by (rule persist_filter[OF assms(2)])
  then show "load_ledger_for env show_e show_id cd d db' = load_ledger_for env show_e show_id cd d db"
    by (simp add: load_ledger_for_def select_ledger_def)
qed

lemma persist_load_ledger_witness:
  "load_ledger_for demo_env (\<lambda>_. []) (\<lambda>_. []) (demo_codec demo_entry) (CampaignId 7) demo_store
   = Inr \<lparr>entries = [demo_entry]\<rparr>"
  using persist_load_ledger[OF demo_codec_ok demo_persist] by simp

text \<open>C32. Incremental persistence refines the in-memory ledger: if a campaign's rows hold a ledger,
  appending an event in memory and its entry in the store leaves rows that load the extended
  ledger.\<close>

theorem append_entry_refines:
  assumes "codec_ok cd" "holds cd db c (entries l)" "ledger_verify env l = Inr ()"
    and "append_event env now event digests l = Inr (e, l')"
    and "append_entry_for cd c e db = Inr db'"
    and "length (entries l) < 2 ^ 63"
  shows "holds cd db' c (entries l') \<and> load_ledger_for env show_e show_id cd c db' = Inr l'"
proof -
  from append_event_Inr(1)[OF assms(4)] have l': "entries l' = entries l @ [e]" by simp
  with append_holds(1)[OF assms(5,2)] have "holds cd db' c (entries l')" by simp
  moreover have "load_ledger_for env show_e show_id cd c db' = Inr l'"
    using calculation append_event_verify[OF assms(4,3)] assms(1,6) l' by (intro load_holds) auto
  ultimately show ?thesis by simp
qed

lemma append_entry_refines_witness:
  "load_ledger_for demo_env (\<lambda>_. []) (\<lambda>_. []) (demo_codec demo_entry) (CampaignId 7) demo_store
   = Inr \<lparr>entries = [demo_entry]\<rparr>"
proof -
  have h: "holds (demo_codec demo_entry) store_empty (CampaignId 7) (entries ledger_new)"
    by (simp add: holds_def store_empty_def ledger_new_def)
  have v: "ledger_verify demo_env ledger_new = Inr ()"
    by (simp add: ledger_verify_def ledger_new_def)
  have a: "append_entry_for (demo_codec demo_entry) (CampaignId 7) demo_entry store_empty
    = Inr demo_store"
    by (simp add: append_entry_for_def insert_entry_def insert_ledger_row_def demo_codec_def
        store_empty_def demo_store_def)
  show ?thesis
    using append_entry_refines[OF demo_codec_ok h v demo_append a] by (simp add: ledger_new_def)
qed



text \<open>A persisted graph loads back: the nodes and edges of the campaign are those persisted, in
  order, and replace whatever the campaign had.\<close>

theorem persist_load_graph:
  assumes "codec_ok ncd" "codec_ok ecd"
    and "persist_graph ncd ecd f c nodes edges db = (Inr (), db')"
  shows "load_graph_nodes ncd c db' = Inr nodes \<and> load_graph_edges ecd c db' = Inr edges"
proof -
  from assms(3) obtain nrows erows where
    n: "res_fold (insert_payload gn_id ncd c) (filter (\<lambda>(_, d, _). d \<noteq> c) (st_graph_nodes db)) nodes
          = Inr nrows" and
    e: "res_fold (insert_payload ge_id ecd c) (filter (\<lambda>(_, d, _). d \<noteq> c) (st_graph_edges db)) edges
          = Inr erows" and
    db': "db' = db\<lparr>st_graph_nodes := nrows, st_graph_edges := erows\<rparr>"
    by (auto simp: persist_graph_def Let_def split: sum.splits option.splits)
  from load_payloads_persisted[OF assms(1) n] load_payloads_persisted[OF assms(2) e] db'
  show ?thesis by (auto simp: load_graph_nodes_def load_graph_edges_def)
qed

lemma persist_load_graph_witness:
  "load_graph_nodes (demo_codec demo_node) (CampaignId 7)
     (store_empty\<lparr>st_graph_nodes := [(NodeId 1, CampaignId 7, ''payload'')],
        st_graph_edges := [(EdgeId 1, CampaignId 7, ''payload'')]\<rparr>) = Inr [demo_node]"
proof -
  have "persist_graph (demo_codec demo_node) (demo_codec demo_edge) None (CampaignId 7) [demo_node]
      [demo_edge] store_empty
    = (Inr (), store_empty\<lparr>st_graph_nodes := [(NodeId 1, CampaignId 7, ''payload'')],
        st_graph_edges := [(EdgeId 1, CampaignId 7, ''payload'')]\<rparr>)"
    by (simp add: persist_graph_def insert_payload_def insert_row_def demo_codec_def store_empty_def
        demo_node_def demo_edge_def)
  from persist_load_graph[OF demo_codec_ok demo_codec_ok this] show ?thesis by simp
qed

text \<open>The record table is a map: after any sequence of writes, reading a kind and id gives the
  last value written for it, and what was there before if nothing was.\<close>

theorem records_last_write_wins:
  "get_record kind i (fold (\<lambda>((k, j), p). put_record k j p) writes db) =
     (case map_of (rev writes) (kind, i) of
        Some p \<Rightarrow> Inr p
      | None \<Rightarrow> get_record kind i db)"
proof -
  define err where "err = SE_NotFound (kind @ '':'' @ i)"
  have ok: "get_record kind i s = ok_or (res_ok (get_record kind i s)) err" for s
    by (simp add: get_record_def ok_or_def err_def split: option.splits)
  have "res_ok (get_record kind i (fold (\<lambda>((k, j), p). put_record k j p) writes db)) =
     (case map_of (rev writes) (kind, i) of
        None \<Rightarrow> res_ok (get_record kind i db) | Some p \<Rightarrow> Some p)"
    using record_table.last_write_wins[of "(kind, i)" writes db]
    by (simp add: case_prod_unfold cong: option.case_cong)
  then show ?thesis
    using ok[of "fold (\<lambda>((k, j), p). put_record k j p) writes db"] ok[of db]
    by (cases "map_of (rev writes) (kind, i)") simp_all
qed

end
