(* ===== verification/Shrink.thy ===== *)
theory Shrink
  imports Prelude
begin

text \<open>
  \<^verbatim>\<open>aros-core/src/shrink.rs\<close>: delta debugging of a failing input. Both loops are total: the
  inner one shortens what is left of the current input at every turn, the outer one either shortens
  the input or halves the chunk.
\<close>

subsection \<open>Operations\<close>

definition without :: "nat \<Rightarrow> nat \<Rightarrow> 'a list \<Rightarrow> 'a list" where
  "without from to xs = take from xs @ drop to xs"

text \<open>
  The inner loop for one chunk size: the current input and whether it progressed. It is entered with a
  positive chunk only; the guard says so for the termination proof.
\<close>

function sweep :: "('a list \<Rightarrow> bool) \<Rightarrow> nat \<Rightarrow> nat \<Rightarrow> 'a list \<Rightarrow> bool \<Rightarrow> 'a list \<times> bool" where
  "sweep still_fails chunk offset current progressed =
     (if offset < length current \<and> 0 < chunk then
        let stop = min (offset + chunk) (length current);
            candidate = without offset stop current
        in if candidate \<noteq> [] \<and> still_fails candidate
           then sweep still_fails chunk offset candidate True
           else sweep still_fails chunk stop current progressed
      else (current, progressed))"
  by pat_completeness auto
termination
  by (relation "measure (\<lambda>(_, _, offset, current, _). length current - offset)")
     (auto simp: without_def)

declare sweep.simps [simp del]

subsection \<open>The inner loop\<close>

lemma length_without: "from \<le> to \<Longrightarrow> to \<le> length xs \<Longrightarrow> length (without from to xs) = length xs - (to - from)"
  by (simp add: without_def)

lemma sweep_progress:
  "length (fst (sweep f chunk offset cur p)) \<le> length cur
   \<and> (snd (sweep f chunk offset cur p) \<longrightarrow> p \<or> length (fst (sweep f chunk offset cur p)) < length cur)"
proof (induction f chunk offset cur p rule: sweep.induct)
  case (1 f chunk offset cur p)
  let ?stop = "min (offset + chunk) (length cur)"
  let ?c = "without offset ?stop cur"
  show ?case
  proof (cases "offset < length cur \<and> 0 < chunk")
    case True
    then have "length ?c = length cur - (?stop - offset)" by (intro length_without) simp_all
    with True have lt: "length ?c < length cur" by linarith
    show ?thesis
    proof (cases "?c \<noteq> [] \<and> f ?c")
      case shorter: True
      then have "sweep f chunk offset cur p = sweep f chunk offset ?c True"
        using True by (subst sweep.simps) (simp add: Let_def)
      with "1.IH"(1)[OF True refl refl shorter] lt show ?thesis by simp
    next
      case same: False
      then have "sweep f chunk offset cur p = sweep f chunk ?stop cur p"
        using True by (subst sweep.simps) (auto simp: Let_def)
      with "1.IH"(2)[OF True refl refl same] show ?thesis by simp
    qed
  next
    case False
    then have "sweep f chunk offset cur p = (cur, p)" by (subst sweep.simps) auto
    then show ?thesis by simp
  qed
qed

function shrink_loop :: "('a list \<Rightarrow> bool) \<Rightarrow> nat \<Rightarrow> 'a list \<Rightarrow> 'a list" where
  "shrink_loop still_fails chunk current =
     (if chunk > 0 then
        case sweep still_fails chunk 0 current False of
          (current', progressed) \<Rightarrow>
            shrink_loop still_fails (if progressed then chunk else chunk div 2) current'
      else current)"
  by pat_completeness auto
termination
proof (relation "measures [\<lambda>(_, _, current). length current, \<lambda>(_, chunk, _). chunk]")
  fix still_fails :: "'a list \<Rightarrow> bool" and chunk :: nat and current x y
  assume "0 < chunk" and s: "(x, y) = sweep still_fails chunk 0 current False"
  moreover have "length x \<le> length current \<and> (y \<longrightarrow> length x < length current)"
    using sweep_progress[of still_fails chunk 0 current False] s[symmetric] by auto
  ultimately show "((still_fails, if y then chunk else chunk div 2, x), still_fails, chunk, current)
      \<in> measures [\<lambda>(_, _, current). length current, \<lambda>(_, chunk, _). chunk]"
    by (auto simp: le_less)
qed simp

declare shrink_loop.simps [simp del]

definition shrink_bytes :: "bytes \<Rightarrow> (bytes \<Rightarrow> bool) \<Rightarrow> bytes" where
  "shrink_bytes input still_fails =
     (if input = [] \<or> \<not> still_fails input then input
      else shrink_loop still_fails (max (length input) 1) input)"

subsection \<open>Specification\<close>

definition one_minimal :: "('a list \<Rightarrow> bool) \<Rightarrow> 'a list \<Rightarrow> bool" where
  "one_minimal f xs \<longleftrightarrow>
     (\<forall>i < length xs. without i (Suc i) xs \<noteq> [] \<longrightarrow> \<not> f (without i (Suc i) xs))"

definition shrunk_from :: "('a list \<Rightarrow> bool) \<Rightarrow> 'a list \<Rightarrow> 'a list \<Rightarrow> bool" where
  "shrunk_from f xs ys \<longleftrightarrow> subseq ys xs \<and> ys \<noteq> [] \<and> f ys"

lemma subseq_without: "from \<le> to \<Longrightarrow> subseq (without from to xs) xs"
proof -
  assume "from \<le> to"
  then have "xs = take from xs @ take (to - from) (drop from xs) @ drop to xs"
    by (metis append_assoc append_take_drop_id le_add_diff_inverse take_add)
  then show ?thesis
    unfolding without_def by (metis list_emb_append2 list_emb_append_mono subseq_order.refl)
qed

lemma sweep_shrunk:
  "shrunk_from f xs cur \<Longrightarrow> shrunk_from f xs (fst (sweep f chunk offset cur p))"
proof (induction f chunk offset cur p rule: sweep.induct)
  case (1 f chunk offset cur p)
  let ?stop = "min (offset + chunk) (length cur)"
  show ?case
  proof (cases "offset < length cur \<and> 0 < chunk")
    case True
    have "shrunk_from f xs (without offset ?stop cur)"
      if "without offset ?stop cur \<noteq> []" "f (without offset ?stop cur)"
      using "1.prems" that subseq_without[of offset ?stop cur] True
      by (auto simp: shrunk_from_def intro: subseq_order.trans)
    with 1 True show ?thesis by (subst sweep.simps) (auto simp: Let_def)
  next
    case False
    with "1.prems" show ?thesis by (subst sweep.simps) auto
  qed
qed

text \<open>A sweep of single bytes that does not progress has tried every position from \<open>offset\<close> on.\<close>

lemma sweep_no_progress:
  "sweep f 1 offset cur p = (cur', False) \<Longrightarrow>
     cur' = cur \<and> (\<forall>i. offset \<le> i \<and> i < length cur \<and> without i (Suc i) cur \<noteq> []
                        \<longrightarrow> \<not> f (without i (Suc i) cur))"
proof (induction "length cur - offset" arbitrary: offset p)
  case 0
  then show ?case by (subst (asm) sweep.simps) auto
next
  case (Suc n)
  from Suc.hyps(2) have lt: "offset < length cur" by simp
  let ?c = "without offset (Suc offset) cur"
  have step: "sweep f 1 offset cur p =
      (if ?c \<noteq> [] \<and> f ?c then sweep f 1 offset ?c True else sweep f 1 (Suc offset) cur p)"
    using lt by (subst sweep.simps) (simp add: Let_def min_def)
  have "snd (sweep f chunk o' c True)" for chunk o' c
    by (induction f chunk o' c True rule: sweep.induct) (subst sweep.simps, auto simp: Let_def)
  then have not: "\<not> (?c \<noteq> [] \<and> f ?c)" using Suc.prems step by (metis (full_types) snd_conv)
  with Suc.prems step have "sweep f 1 (Suc offset) cur p = (cur', False)" by auto
  with Suc.hyps(1)[of "Suc offset" p] Suc.hyps(2) have "cur' = cur \<and> (\<forall>i. Suc offset \<le> i \<and> i < length cur \<and> without i (Suc i) cur \<noteq> []
                        \<longrightarrow> \<not> f (without i (Suc i) cur))" by simp
  with not show ?case by (metis Suc_leI le_neq_implies_less)
qed

subsection \<open>The outer loop\<close>

lemma shrink_loop_spec:
  assumes "shrunk_from f xs cur" "0 < chunk"
  shows "shrunk_from f xs (shrink_loop f chunk cur) \<and> one_minimal f (shrink_loop f chunk cur)"
  using assms
proof (induction f chunk cur rule: shrink_loop.induct)
  case (1 f chunk cur)
  obtain cur' progressed where s: "sweep f chunk 0 cur False = (cur', progressed)" by force
  have shr: "shrunk_from f xs cur'" using sweep_shrunk[OF "1.prems"(1), of chunk 0 False] s by simp
  let ?next = "if progressed then chunk else chunk div 2"
  have step: "shrink_loop f chunk cur = shrink_loop f ?next cur'"
    using "1.prems"(2) s by (subst shrink_loop.simps) simp
  show ?case
  proof (cases "?next = 0")
    case False
    with "1.IH"[OF "1.prems"(2) s[symmetric] shr] step show ?thesis by simp
  next
    case True
    with "1.prems"(2) have "chunk = 1" "\<not> progressed" by (auto split: if_splits)
    with sweep_no_progress[of f 0 cur False cur'] s have "one_minimal f cur'"
      by (simp add: one_minimal_def)
    moreover have "shrink_loop f 0 cur' = cur'" by (subst shrink_loop.simps) simp
    ultimately show ?thesis using step True shr by simp
  qed
qed

subsection \<open>Property\<close>

text \<open>C29. Shrinking always returns, and correctly: an input that fails is reduced to a non-empty
  subsequence of it that still fails and from which no single byte can be removed without the
  failure disappearing (or the input becoming empty); an input that does not fail, or is empty, is
  returned as it is.\<close>

theorem shrink_bytes_spec:
  "if input \<noteq> [] \<and> still_fails input
   then subseq (shrink_bytes input still_fails) input
        \<and> shrink_bytes input still_fails \<noteq> []
        \<and> still_fails (shrink_bytes input still_fails)
        \<and> one_minimal still_fails (shrink_bytes input still_fails)
   else shrink_bytes input still_fails = input"
proof -
  have "shrunk_from still_fails input input" if "input \<noteq> []" "still_fails input"
    using that by (simp add: shrunk_from_def)
  from shrink_loop_spec[OF this, of "max (length input) 1"] show ?thesis
    by (auto simp: shrink_bytes_def shrunk_from_def)
qed

lemma shrink_bytes_example: "shrink_bytes [65, 65, 0, 66, 66] (\<lambda>b. 0 \<in> set b) = [0]"
  by code_simp

end
