(* ===== verification/Campaign_Spec.thy ===== *)
theory Campaign_Spec
  imports Types
begin

text \<open>
  \<^verbatim>\<open>aros-types/src/campaign_spec.rs\<close>: the declarative campaign contract, its validation and the
  attack plans it yields. \<^verbatim>\<open>from_json_str\<close> takes the deserializer of \<^verbatim>\<open>serde_json\<close> as a parameter.
  A \<^verbatim>\<open>BTreeMap\<close> is its list of members in key order.
\<close>

subsection \<open>Ordered maps and debug text\<close>

fun btree_insert :: "'k::linorder \<Rightarrow> 'v \<Rightarrow> ('k \<times> 'v) list \<Rightarrow> ('k \<times> 'v) list" where
  "btree_insert k v [] = [(k, v)]"
| "btree_insert k v ((k', v') # m) =
     (if k < k' then (k, v) # (k', v') # m
      else if k = k' then (k, v) # m
      else (k', v') # btree_insert k v m)"

lemma map_of_btree_insert:
  "map_of (btree_insert k v m) k' = (if k' = k then Some v else map_of m k')"
  by (induction k v m rule: btree_insert.induct) auto

lemma set_btree_insert: "fst ` set (btree_insert k v m) = insert k (fst ` set m)"
  by (induction k v m rule: btree_insert.induct) auto

lemma sorted_btree_insert:
  "sorted_wrt (<) (map fst m) \<Longrightarrow> sorted_wrt (<) (map fst (btree_insert k v m))"
proof (induction k v m rule: btree_insert.induct)
  case (2 k v k' v' m)
  then show ?case using set_btree_insert[of k v m] by fastforce
qed simp

text \<open>\<^verbatim>\<open>{:?}\<close> of a \<^verbatim>\<open>str\<close>.\<close>

fun show_hex :: "nat \<Rightarrow> string" where
  "show_hex n =
     (let d = (\<lambda>k. char_of (if k < 10 then 48 + k else 87 + k))
      in if n < 16 then [d n] else show_hex (n div 16) @ [d (n mod 16)])"

declare show_hex.simps [simp del]

definition escape_debug :: "char \<Rightarrow> string" where
  "escape_debug c =
     (let n = (of_char c :: nat)
      in if n = 0 then [backslash, CHR ''0'']
         else if n = 9 then [backslash, CHR ''t'']
         else if n = 13 then [backslash, CHR ''r'']
         else if n = 10 then [backslash, CHR ''n'']
         else if n = 34 \<or> n = 92 then [backslash, c]
         else if is_control c \<or> n = 160 \<or> n = 173 then
           [backslash] @ ''u{'' @ show_hex n @ ''}''
         else [c])"

definition debug_str :: "string \<Rightarrow> string" where
  "debug_str s = [CHR 0x22] @ concat (map escape_debug s) @ [CHR 0x22]"

subsection \<open>Data\<close>

datatype types_error =
    TE_Json string | InvalidId string | InvalidNetwork string | TE_Canonical string
  | InvalidCampaign string

datatype security_class =
    Confidentiality | Integrity | Authenticity | ForwardSecrecy | Availability | MemorySafety
  | SupplyChain | SideChannel | Authorization

datatype campaign_network = NetNone | LoopbackOnly

datatype generator_kind = Harness | Fuzzer | Differential | FormalCheck | PropertyTest

datatype oracle_decides =
    ExitCode | StdoutContains | StdoutNotContains | JsonField | DifferentialMismatch
  | CounterexampleFound

datatype expected_outcome = InvariantHolds | InvariantBroken

record campaign_target =
  ct_project :: string
  ct_repo :: "string option"
  ct_revision_pin :: string
  ct_language :: "string option"

record historical_pattern =
  hp_summary :: string
  hp_references :: "string list"

record campaign_surface =
  su_entrypoints :: "string list"
  su_files :: "string list"
  su_notes :: "string option"

record resource_limits =
  rl_wall_clock_seconds :: u32
  rl_memory_mb :: u32
  rl_max_iterations :: "u32 option"
  rl_network :: campaign_network

record campaign_generator =
  cg_kind :: generator_kind
  cg_command :: string
  cg_corpus :: "string option"
  cg_harness :: "string option"
  cg_bind :: "(string \<times> string) list"

record campaign_oracle =
  co_decides :: oracle_decides
  co_success_means :: string
  co_match :: "string option"
  co_negative_control :: "string option"

record named_attack_surface =
  as_name :: string
  as_entrypoints :: "string list"
  as_files :: "string list"
  as_generator :: campaign_generator
  as_oracle :: "campaign_oracle option"

record structural_control =
  sc_good :: campaign_generator
  sc_mutant :: campaign_generator

record campaign_spec =
  sp_id :: string
  sp_schema_version :: "string option"
  sp_target :: "campaign_target option"
  sp_security_class :: security_class
  sp_historical_pattern :: historical_pattern
  sp_surface :: campaign_surface
  sp_invariant :: string
  sp_attacker_capabilities :: "string list"
  sp_prerequisites :: "string list"
  sp_resource_limits :: resource_limits
  sp_assigned_roles :: "string list"
  sp_generator :: campaign_generator
  sp_oracle :: campaign_oracle
  sp_expected_outcome :: expected_outcome
  sp_required_evidence :: "string list"
  sp_severity_rationale :: string
  sp_surfaces :: "named_attack_surface list"
  sp_structural_control :: "structural_control option"

subsection \<open>Operations\<close>

text \<open>The loop of \<^verbatim>\<open>id_is_slug\<close>, with \<open>prev_hyphen\<close> carried along.\<close>

fun slug_loop :: "bool \<Rightarrow> string \<Rightarrow> bool" where
  "slug_loop prev_hyphen [] = (\<not> prev_hyphen)"
| "slug_loop prev_hyphen (c # cs) =
     (if c = CHR ''-'' then (if prev_hyphen then False else slug_loop True cs)
      else if \<not> is_ascii_lowercase c \<and> \<not> is_ascii_digit c then False
      else slug_loop False cs)"

definition id_is_slug :: "string \<Rightarrow> bool" where
  "id_is_slug i = (if i = [] then False else slug_loop True i)"

definition evidence_names :: "string list" where
  "evidence_names = [''E0'', ''E1'', ''E2'', ''E3'', ''E4'', ''E5'', ''E6'', ''E7'']"

definition guard :: "bool \<Rightarrow> string \<Rightarrow> (types_error + unit) \<Rightarrow> types_error + unit" where
  "guard bad message k = (if bad then Inl (InvalidCampaign message) else k)"

definition spec_validate :: "campaign_spec \<Rightarrow> types_error + unit" where
  "spec_validate s =
     guard (sp_id s = [] \<or> \<not> id_is_slug (sp_id s))
       (''id '' @ debug_str (sp_id s) @ '' is not a slug [a-z0-9]+(-[a-z0-9]+)*'')
     (guard (sp_schema_version s \<noteq> None \<and> the (sp_schema_version s) \<noteq> ''0.1'')
       (''unsupported schema_version '' @ the (sp_schema_version s))
     (guard (trim (sp_invariant s) = [])
       ''invariant must be a falsifiable claim''
     (guard (sp_attacker_capabilities s = [])
       ''attacker_capabilities must not be empty''
     (guard (su_entrypoints (sp_surface s) = [])
       ''surface.entrypoints must not be empty''
     (guard (rl_wall_clock_seconds (sp_resource_limits s) < 1
             \<or> rl_memory_mb (sp_resource_limits s) < 1)
       ''resource_limits must bound wall clock and memory''
     (guard (trim (cg_command (sp_generator s)) = [])
       ''generator.command must not be empty''
     (guard (cg_harness (sp_generator s) \<noteq> None \<and> \<not> id_is_slug (the (cg_harness (sp_generator s))))
       (''generator.harness '' @ debug_str (the (cg_harness (sp_generator s)))
        @ '' is not a catalog slug'')
     (guard (sp_required_evidence s = [])
       ''required_evidence must not be empty''
     (guard (list_ex (\<lambda>l. \<not> List.member evidence_names l) (sp_required_evidence s))
       (''unknown evidence level ''
        @ hd (filter (\<lambda>l. \<not> List.member evidence_names l) (sp_required_evidence s)))
     (guard (co_decides (sp_oracle s) = StdoutContains \<and> co_match (sp_oracle s) = None)
       ''stdout_contains oracle requires match''
     (guard (list_ex (\<lambda>a. trim (as_name a) = [] \<or> trim (cg_command (as_generator a)) = [])
               (sp_surfaces s))
       ''each named surface needs a name and generator.command''
     (guard (case sp_structural_control s of None \<Rightarrow> False
             | Some c \<Rightarrow> trim (cg_command (sc_good c)) = [] \<or> trim (cg_command (sc_mutant c)) = [])
       ''structural_control good and mutant commands are required''
     (Inr ())))))))))))))"

definition from_json_str ::
    "(string \<Rightarrow> types_error + campaign_spec) \<Rightarrow> string \<Rightarrow> types_error + campaign_spec" where
  "from_json_str parse raw =
     res_bind (parse raw) (\<lambda>spec. res_bind (spec_validate spec) (\<lambda>_. Inr spec))"

definition attack_plans ::
    "campaign_spec \<Rightarrow> (string \<times> campaign_generator \<times> campaign_oracle) list" where
  "attack_plans s =
     (if sp_surfaces s = [] then [(''primary'', sp_generator s, sp_oracle s)]
      else map (\<lambda>a. (as_name a, as_generator a,
                     case as_oracle a of Some o' \<Rightarrow> o' | None \<Rightarrow> sp_oracle s)) (sp_surfaces s))"

subsection \<open>Slugs\<close>

text \<open>The pattern \<^verbatim>\<open>[a-z0-9]+(-[a-z0-9]+)*\<close>: non-empty words over the alphabet, joined by hyphens.\<close>

definition slug_char :: "char \<Rightarrow> bool" where
  "slug_char c = (is_ascii_lowercase c \<or> is_ascii_digit c)"

definition slug_word :: "string \<Rightarrow> bool" where
  "slug_word w = (w \<noteq> [] \<and> list_all slug_char w)"

lemma hyphen_not_slug_char: "\<not> slug_char (CHR ''-'')"
  by (simp add: slug_char_def char_class_defs)

lemma slug_loop_Cons:
  "slug_loop h (c # cs) \<longleftrightarrow>
     (if c = CHR ''-'' then \<not> h \<and> slug_loop True cs else slug_char c \<and> slug_loop False cs)"
  by (simp add: slug_char_def)

lemma slug_loop_split:
  "slug_loop True s \<longleftrightarrow> list_all slug_word (split_on (CHR ''-'') s)"
  "slug_loop False s \<longleftrightarrow> list_all slug_char (hd (split_on (CHR ''-'') s))
     \<and> list_all slug_word (tl (split_on (CHR ''-'') s))"
proof (induction s)
  case Nil
  { case 1 show ?case by (simp add: slug_word_def) }
  { case 2 show ?case by simp }
next
  case (Cons c s)
  obtain p ps where ps: "split_on (CHR ''-'') s = p # ps" by (metis neq_Nil_conv split_on_not_Nil)
  { case 1 with Cons ps show ?case
      by (auto simp: slug_loop_Cons slug_word_def simp del: slug_loop.simps) }
  { case 2 with Cons ps show ?case
      by (auto simp: slug_loop_Cons slug_word_def hyphen_not_slug_char simp del: slug_loop.simps) }
qed

lemma id_is_slug_iff: "id_is_slug i \<longleftrightarrow> list_all slug_word (split_on (CHR ''-'') i)"
  by (cases "i = []") (simp_all add: id_is_slug_def slug_loop_split(1), simp add: slug_word_def)

lemma id_is_slug_chars: "id_is_slug i \<Longrightarrow> c \<in> set i \<Longrightarrow> slug_char c \<or> c = CHR ''-''"
proof -
  assume s: "id_is_slug i" and c: "c \<in> set i"
  have "set i \<subseteq> {CHR ''-''} \<union> (\<Union>w \<in> set (split_on (CHR ''-'') i). set w)"
    using set_join_with[of "''-''" "split_on (CHR ''-'') i"] by (simp add: join_split)
  with s c show ?thesis by (fastforce simp: id_is_slug_iff list_all_iff slug_word_def)
qed

subsection \<open>Validation\<close>

definition spec_valid :: "campaign_spec \<Rightarrow> bool" where
  "spec_valid s \<longleftrightarrow>
     list_all slug_word (split_on (CHR ''-'') (sp_id s))
     \<and> sp_schema_version s \<in> {None, Some ''0.1''}
     \<and> trim (sp_invariant s) \<noteq> []
     \<and> sp_attacker_capabilities s \<noteq> []
     \<and> su_entrypoints (sp_surface s) \<noteq> []
     \<and> 1 \<le> rl_wall_clock_seconds (sp_resource_limits s) \<and> 1 \<le> rl_memory_mb (sp_resource_limits s)
     \<and> trim (cg_command (sp_generator s)) \<noteq> []
     \<and> pred_option (\<lambda>h. list_all slug_word (split_on (CHR ''-'') h)) (cg_harness (sp_generator s))
     \<and> sp_required_evidence s \<noteq> [] \<and> set (sp_required_evidence s) \<subseteq> set evidence_names
     \<and> (co_decides (sp_oracle s) = StdoutContains \<longrightarrow> co_match (sp_oracle s) \<noteq> None)
     \<and> (\<forall>a \<in> set (sp_surfaces s). trim (as_name a) \<noteq> [] \<and> trim (cg_command (as_generator a)) \<noteq> [])
     \<and> pred_option (\<lambda>c. trim (cg_command (sc_good c)) \<noteq> [] \<and> trim (cg_command (sc_mutant c)) \<noteq> [])
         (sp_structural_control s)"

lemma guard_Inr: "guard bad msg k = Inr () \<longleftrightarrow> \<not> bad \<and> k = Inr ()"
  by (simp add: guard_def)

lemma slug_not_Nil: "list_all slug_word (split_on (CHR ''-'') i) \<Longrightarrow> i \<noteq> []"
  by (auto simp: slug_word_def)

lemma spec_validate_Inr: "spec_validate s = Inr () \<longleftrightarrow> spec_valid s"
proof -
  have e1: "(\<not> (sp_id s = [] \<or> \<not> id_is_slug (sp_id s))) = list_all slug_word (split_on (CHR ''-'') (sp_id s))"
    using slug_not_Nil by (auto simp: id_is_slug_iff)
  have e2: "(\<not> (sp_schema_version s \<noteq> None \<and> the (sp_schema_version s) \<noteq> ''0.1''))
      = (sp_schema_version s \<in> {None, Some ''0.1''})"
    by (cases "sp_schema_version s") auto
  have e3: "(\<not> (cg_harness (sp_generator s) \<noteq> None \<and> \<not> id_is_slug (the (cg_harness (sp_generator s)))))
      = pred_option (\<lambda>h. list_all slug_word (split_on (CHR ''-'') h)) (cg_harness (sp_generator s))"
    by (cases "cg_harness (sp_generator s)") (auto simp: id_is_slug_iff)
  have e4: "(\<not> list_ex (\<lambda>l. \<not> List.member evidence_names l) (sp_required_evidence s))
      = (set (sp_required_evidence s) \<subseteq> set evidence_names)"
    by (auto simp: list_ex_iff)
  have e5: "(\<not> (case sp_structural_control s of None \<Rightarrow> False
      | Some c \<Rightarrow> trim (cg_command (sc_good c)) = [] \<or> trim (cg_command (sc_mutant c)) = []))
    = pred_option (\<lambda>c. trim (cg_command (sc_good c)) \<noteq> [] \<and> trim (cg_command (sc_mutant c)) \<noteq> [])
        (sp_structural_control s)"
    by (cases "sp_structural_control s") auto
  have e6: "(\<not> (rl_wall_clock_seconds (sp_resource_limits s) < 1 \<or> rl_memory_mb (sp_resource_limits s) < 1))
      = (1 \<le> rl_wall_clock_seconds (sp_resource_limits s) \<and> 1 \<le> rl_memory_mb (sp_resource_limits s))"
    by (simp only: not_less de_Morgan_disj)
  have e7: "(\<not> (co_decides (sp_oracle s) = StdoutContains \<and> co_match (sp_oracle s) = None))
      = (co_decides (sp_oracle s) = StdoutContains \<longrightarrow> co_match (sp_oracle s) \<noteq> None)"
    by (simp only: de_Morgan_conj imp_conv_disj)
  have e8: "(\<not> list_ex (\<lambda>a. trim (as_name a) = [] \<or> trim (cg_command (as_generator a)) = []) (sp_surfaces s))
      = (\<forall>a \<in> set (sp_surfaces s). trim (as_name a) \<noteq> [] \<and> trim (cg_command (as_generator a)) \<noteq> [])"
    by (auto simp: list_ex_iff)
  show ?thesis
    unfolding spec_validate_def guard_Inr spec_valid_def e1 e2 e3 e4 e5 e6 e7 e8
    by (simp only: conj_assoc simp_thms)
qed

lemma attack_plans_valid:
  assumes "spec_valid s"
  shows "attack_plans s \<noteq> []
    \<and> (\<forall>(name, g, _) \<in> set (attack_plans s). trim name \<noteq> [] \<and> trim (cg_command g) \<noteq> [])"
proof -
  have "trim ''primary'' = ''primary''" by code_simp
  with assms show ?thesis by (auto simp: attack_plans_def spec_valid_def)
qed

subsection \<open>Properties\<close>

text \<open>Validation accepts exactly the contracts that meet every documented condition: the id and the
  catalog harness match \<^verbatim>\<open>[a-z0-9]+(-[a-z0-9]+)*\<close>, the schema version is absent or 0.1, the
  invariant and all commands are not blank, capabilities, entry points and evidence are not empty,
  the limits are positive, evidence levels are E0 to E7, and a substring oracle has its text. A
  contract read from JSON satisfies them, and yields at least one attack plan, each with a name and
  a command.\<close>

theorem spec_validate_iff:
  "(spec_validate s = Inr () \<longleftrightarrow> spec_valid s)
   \<and> (from_json_str parse raw = Inr t \<longrightarrow>
        spec_valid t \<and> attack_plans t \<noteq> []
        \<and> (\<forall>(name, g, orc) \<in> set (attack_plans t). trim name \<noteq> [] \<and> trim (cg_command g) \<noteq> []))"
  using spec_validate_Inr attack_plans_valid[of t]
  by (auto simp: from_json_str_def res_simps)

definition demo_generator :: campaign_generator where
  "demo_generator = \<lparr>cg_kind = Harness, cg_command = ''python3 harness.py'', cg_corpus = None,
     cg_harness = Some ''http-idor'', cg_bind = []\<rparr>"

definition demo_spec :: campaign_spec where
  "demo_spec = \<lparr>sp_id = ''http-idor'', sp_schema_version = Some ''0.1'', sp_target = None,
     sp_security_class = Authorization,
     sp_historical_pattern = \<lparr>hp_summary = ''idor'', hp_references = []\<rparr>,
     sp_surface = \<lparr>su_entrypoints = [''/api''], su_files = [], su_notes = None\<rparr>,
     sp_invariant = ''owner only'', sp_attacker_capabilities = [''http''], sp_prerequisites = [],
     sp_resource_limits = \<lparr>rl_wall_clock_seconds = 30, rl_memory_mb = 256, rl_max_iterations = None,
       rl_network = LoopbackOnly\<rparr>,
     sp_assigned_roles = [], sp_generator = demo_generator,
     sp_oracle = \<lparr>co_decides = ExitCode, co_success_means = ''broken'', co_match = None,
       co_negative_control = None\<rparr>,
     sp_expected_outcome = InvariantBroken, sp_required_evidence = [''E3''],
     sp_severity_rationale = ''s'', sp_surfaces = [], sp_structural_control = None\<rparr>"

lemma spec_validate_iff_witness: "spec_valid demo_spec \<and> attack_plans demo_spec \<noteq> []"
proof -
  have "from_json_str (\<lambda>_. Inr demo_spec) ''{}'' = Inr demo_spec" by code_simp
  with spec_validate_iff[of demo_spec "\<lambda>_. Inr demo_spec" "''{}''" demo_spec] show ?thesis by blast
qed

end
