(* ===== verification/Planner.thy ===== *)
theory Planner
  imports Store Campaign_Spec "HOL-Library.Multiset"
begin

text \<open>
  \<^verbatim>\<open>aros-core/src/htn.rs\<close> and \<^verbatim>\<open>pddl.rs\<close>: the campaign planner. The HTN compiler, the forward
  STRIPS search, the parser for an external planner's output, failure memory, and the function that
  composes them. What Fast Downward printed is an argument. The main results: the search terminates
  and returns the HTN plan, and the final plan is the set of campaigns the facts justify minus those
  with a recorded tool gap, whatever the external planner says.
\<close>

subsection \<open>htn.rs\<close>

record htn_facts =
  has_http_paths :: bool
  has_users :: bool
  has_files :: bool
  has_server :: bool
  has_parse :: bool
  has_once :: bool

text \<open>\<open>paths\<close> is the concatenation of source paths, live paths and bind values; the three file tests
  are arguments.\<close>

definition facts_from :: "string list \<Rightarrow> bool \<Rightarrow> bool \<Rightarrow> bool \<Rightarrow> htn_facts" where
  "facts_from paths server_py parse_py once_py =
     (let joined = join_with '' '' paths
      in \<lparr>has_http_paths = (paths \<noteq> []), has_users = str_contains joined ''/users'',
          has_files = str_contains joined ''/files'', has_server = server_py,
          has_parse = parse_py, has_once = once_py\<rparr>)"

definition HTTP_USER_CAMPAIGNS :: "string list" where
  "HTTP_USER_CAMPAIGNS =
     [''http-mr-cookie-drop'', ''http-unauth'', ''http-idor'', ''http-cookie-confusion'',
      ''http-mr-method'', ''http-mr-cross-user'', ''http-mr-header-noise'',
      ''http-mr-query-noise'', ''http-mr-xff'', ''http-mr-auth-header'']"

definition HTTP_FILE_CAMPAIGNS :: "string list" where
  "HTTP_FILE_CAMPAIGNS =
     [''http-path-traversal'', ''http-mr-encoded-dotdot'', ''http-mr-dot-segment'',
      ''http-mr-encoded-dot'', ''http-mr-nested-dotdot'', ''http-mr-double-slash'']"

definition CLI_PARSE_CAMPAIGNS :: "string list" where
  "CLI_PARSE_CAMPAIGNS = [''cli-crash'', ''mutate-fuzz'', ''prop-ascii'', ''klee-run'']"

definition CLI_ONCE_CAMPAIGNS :: "string list" where
  "CLI_ONCE_CAMPAIGNS = [''lib-call-twice'']"

definition SKILL_TASKS :: "(string \<times> string list) list" where
  "SKILL_TASKS =
     [(''reachability_boundary_mapping'', [''http-surface-map'']),
      (''breadth_depth_context'', [''http-surface-map'']),
      (''negative_control_design'', [''http-mr-cookie-drop'']),
      (''trust_boundary_mapping'', [''http-unauth'', ''http-mr-auth-header'']),
      (''assumption_attack'', [''http-idor'']),
      (''hidden_component_inference'', [''http-cookie-confusion'']),
      (''differential_experiment'', [''http-mr-method'']),
      (''attack_chain_reasoning'', [''http-mr-cross-user'']),
      (''anomaly_investigation'', [''http-mr-header-noise'', ''http-mr-xff'']),
      (''discovery_cascade'', [''http-mr-query-noise'']),
      (''variant_analysis'', [''http-mr-query-noise'', ''http-mr-encoded-dotdot'',
         ''http-mr-dot-segment'', ''http-mr-encoded-dot'', ''http-mr-nested-dotdot'',
         ''http-mr-double-slash'']),
      (''incomplete_fix_search'', [''http-mr-method'', ''http-mr-encoded-dotdot'']),
      (''parser_interpretation_disagreement'', [''http-path-traversal'', ''cli-crash'']),
      (''representation_transformation_analysis'', [''http-mr-encoded-dotdot'',
         ''http-mr-dot-segment'', ''http-mr-encoded-dot'', ''http-mr-nested-dotdot'',
         ''http-mr-double-slash'']),
      (''source_to_sink'', [''http-path-traversal'']),
      (''sink_to_source'', [''http-path-traversal'']),
      (''fast_falsification'', [''mutate-fuzz'', ''prop-ascii'']),
      (''missed_bug_analysis'', [''mutate-fuzz'']),
      (''patch_archaeology'', [''klee-run'']),
      (''primitive_composition'', [''lib-call-twice''])]"

record failure_memory =
  fm_spec_id :: string
  fm_category :: string

record failure_replan =
  fr_campaigns :: "string list"
  fr_skipped :: "string list"
  fr_promoted :: "string list"

text \<open>The three loops of \<^verbatim>\<open>apply_failure_memory\<close>.\<close>

definition skip_step :: "string list \<Rightarrow> failure_memory \<Rightarrow> string list \<Rightarrow> string list" where
  "skip_step plan item skipped =
     (if fm_category item = ''TOOL_GAP'' \<and> fm_spec_id item \<in> set plan
         \<and> fm_spec_id item \<notin> set skipped
      then skipped @ [fm_spec_id item] else skipped)"

definition promote_step ::
    "string list \<Rightarrow> failure_memory \<Rightarrow> string list \<times> string list \<Rightarrow> string list \<times> string list" where
  "promote_step skipped item st =
     (case st of (campaigns, promoted) \<Rightarrow>
        if fm_category item \<noteq> ''EXPERIMENT_INADEQUATE'' then st
        else if fm_spec_id item \<in> set skipped then st
        else if fm_spec_id item \<in> set campaigns \<and> fm_spec_id item \<notin> set promoted then
          (remove1 (fm_spec_id item) campaigns, promoted @ [fm_spec_id item])
        else st)"

definition insert_at :: "nat \<Rightarrow> 'a \<Rightarrow> 'a list \<Rightarrow> 'a list" where
  "insert_at i x xs = take i xs @ [x] @ drop i xs"

definition apply_failure_memory :: "string list \<Rightarrow> failure_memory list \<Rightarrow> failure_replan" where
  "apply_failure_memory plan memory =
     (let skipped = fold (skip_step plan) memory [];
          campaigns = filter (\<lambda>i. i \<notin> set skipped) plan
      in case fold (promote_step skipped) memory (campaigns, []) of
           (campaigns', promoted) \<Rightarrow>
             \<lparr>fr_campaigns = fold (\<lambda>(offset, i) cs. insert_at offset i cs)
                              (enumerate 0 promoted) campaigns',
              fr_skipped = skipped, fr_promoted = promoted\<rparr>)"

definition htn_plan :: "htn_facts \<Rightarrow> string \<Rightarrow> string list" where
  "htn_plan facts pack =
     (let http = (pack = ''http'' \<or> pack = ''all'');
          cli = (pack = ''cli'' \<or> pack = ''all'')
      in (if http \<and> (has_http_paths facts \<or> has_server facts) then [''http-surface-map''] else [])
         @ (if http \<and> has_users facts then HTTP_USER_CAMPAIGNS else [])
         @ (if http \<and> has_files facts then HTTP_FILE_CAMPAIGNS else [])
         @ (if cli \<and> has_parse facts then CLI_PARSE_CAMPAIGNS else [])
         @ (if cli \<and> has_once facts then CLI_ONCE_CAMPAIGNS else []))"

subsection \<open>pddl.rs\<close>

datatype plan_source = Strips | FastDownward

record campaign_plan =
  pl_source :: plan_source
  pl_campaigns :: "string list"
  pl_domain :: string
  pl_problem :: string
  pl_skipped :: "string list"
  pl_promoted :: "string list"

record action =
  ac_id :: string
  ac_needs_mapped :: bool
  ac_needs_users :: bool
  ac_needs_files :: bool
  ac_needs_parse :: bool
  ac_needs_once :: bool

definition mk_action :: "bool \<Rightarrow> bool \<Rightarrow> bool \<Rightarrow> bool \<Rightarrow> bool \<Rightarrow> string \<Rightarrow> action" where
  "mk_action m u f p n i = \<lparr>ac_id = i, ac_needs_mapped = m, ac_needs_users = u, ac_needs_files = f,
     ac_needs_parse = p, ac_needs_once = n\<rparr>"

definition catalog :: "action list" where
  "catalog =
     [mk_action False False False False False ''http-surface-map'']
     @ map (mk_action True True False False False) HTTP_USER_CAMPAIGNS
     @ map (mk_action True False True False False) HTTP_FILE_CAMPAIGNS
     @ map (mk_action False False False True False) CLI_PARSE_CAMPAIGNS
     @ map (mk_action False False False False True) CLI_ONCE_CAMPAIGNS"

definition action_applies :: "htn_facts \<Rightarrow> string \<Rightarrow> action \<Rightarrow> bool" where
  "action_applies facts pack a =
     (let http = (pack = ''http'' \<or> pack = ''all'');
          cli = (pack = ''cli'' \<or> pack = ''all'')
      in if starts_with (ac_id a) ''http-'' \<and> \<not> http then False
         else if (ac_needs_parse a \<or> ac_needs_once a) \<and> \<not> cli then False
         else if ac_id a = ''http-surface-map'' then has_http_paths facts \<or> has_server facts
         else if ac_needs_users a \<and> \<not> has_users facts then False
         else if ac_needs_files a \<and> \<not> has_files facts then False
         else if ac_needs_parse a \<and> \<not> has_parse facts then False
         else if ac_needs_once a \<and> \<not> has_once facts then False
         else True)"

definition applicable :: "htn_facts \<Rightarrow> string \<Rightarrow> action list" where
  "applicable facts pack = filter (action_applies facts pack) catalog"

text \<open>A search node: whether the surface is mapped, the campaigns run so far, and their order.\<close>

type_synonym node = "bool \<times> string set \<times> string list"

definition successors :: "action list \<Rightarrow> node \<Rightarrow> node list" where
  "successors actions n =
     (case n of (mapped, hist, path) \<Rightarrow>
        map (\<lambda>a. (mapped \<or> ac_id a = ''http-surface-map'', insert (ac_id a) hist, path @ [ac_id a]))
          (filter (\<lambda>a. ac_id a \<notin> hist \<and> (ac_needs_mapped a \<longrightarrow> mapped)) actions))"

definition node_key :: "node \<Rightarrow> bool \<times> string list" where
  "node_key n = (fst n, sorted_list_of_set (fst (snd n)))"

text \<open>
  Weight of a node for termination: \<open>(k + 1) ^ u\<close> for \<open>k\<close> actions of which \<open>u\<close> have not run. A node
  has at most \<open>u\<close> successors, each with one action less to run.
\<close>

definition pending :: "action list \<Rightarrow> node \<Rightarrow> nat" where
  "pending actions n = length (filter (\<lambda>a. ac_id a \<notin> fst (snd n)) actions)"

definition node_weight :: "action list \<Rightarrow> node \<Rightarrow> nat" where
  "node_weight actions n = Suc (length actions) ^ pending actions n"

lemma pending_successor:
  assumes "s \<in> set (successors actions n)"
  shows "pending actions s < pending actions n"
proof -
  obtain mapped hist path where n: "n = (mapped, hist, path)" by (cases n)
  from assms n obtain a where a: "a \<in> set actions" "ac_id a \<notin> hist" "fst (snd s) = insert (ac_id a) hist"
    by (auto simp: successors_def)
  then have "a \<in> set (filter (\<lambda>b. ac_id b \<notin> hist) actions)" by simp
  then have "length (filter (\<lambda>b. ac_id b \<noteq> ac_id a) (filter (\<lambda>b. ac_id b \<notin> hist) actions))
      < length (filter (\<lambda>b. ac_id b \<notin> hist) actions)"
    by (intro length_filter_less) auto
  also have "filter (\<lambda>b. ac_id b \<noteq> ac_id a) (filter (\<lambda>b. ac_id b \<notin> hist) actions)
      = filter (\<lambda>b. ac_id b \<notin> insert (ac_id a) hist) actions"
    by (auto intro: filter_cong)
  finally show ?thesis using a(3) n by (simp add: pending_def)
qed

lemma length_successors: "length (successors actions n) \<le> length actions"
  by (cases n) (simp add: successors_def)

lemma successors_weight:
  "sum_list (map (node_weight actions) (successors actions n)) < node_weight actions n"
proof (cases "successors actions n = []")
  case True
  then show ?thesis by (simp add: node_weight_def)
next
  case False
  let ?k = "length actions"
  from False pending_successor obtain u where u: "pending actions n = Suc u"
    by (metis length_greater_0_conv less_nat_zero_code not0_implies_Suc nth_mem)
  have "node_weight actions s \<le> Suc ?k ^ u" if "s \<in> set (successors actions n)" for s
    using pending_successor[OF that] u by (simp add: node_weight_def power_increasing)
  then have "sum_list (map (node_weight actions) (successors actions n))
      \<le> sum_list (map (\<lambda>_. Suc ?k ^ u) (successors actions n))"
    by (intro sum_list_mono) simp
  also have "\<dots> = length (successors actions n) * Suc ?k ^ u" by (simp add: sum_list_triv)
  also have "\<dots> \<le> ?k * Suc ?k ^ u" using length_successors by (rule mult_le_mono1)
  also have "\<dots> < node_weight actions n" using u by (simp add: node_weight_def)
  finally show ?thesis .
qed

text \<open>The search loop of \<^verbatim>\<open>strips_plan\<close>: \<open>None\<close> when the queue runs empty.\<close>

function strips_search ::
    "action list \<Rightarrow> node list \<Rightarrow> (bool \<times> string list) set \<Rightarrow> string list option" where
  "strips_search actions [] seen = None"
| "strips_search actions (n # queue) seen =
     (if node_key n \<in> seen then strips_search actions queue seen
      else if list_all (\<lambda>a. ac_id a \<in> fst (snd n)) actions then Some (snd (snd n))
      else strips_search actions (queue @ successors actions n) (insert (node_key n) seen))"
  by pat_completeness auto
termination
proof (relation "measure (\<lambda>(actions, queue, _). sum_list (map (node_weight actions) queue))")
  fix actions n queue and seen :: "(bool \<times> string list) set"
  have "0 < node_weight actions n" by (simp add: node_weight_def)
  then show "((actions, queue, seen), actions, n # queue, seen)
      \<in> measure (\<lambda>(actions, queue, _). sum_list (map (node_weight actions) queue))"
    by simp
  show "((actions, queue @ successors actions n, insert (node_key n) seen), actions, n # queue, seen)
      \<in> measure (\<lambda>(actions, queue, _). sum_list (map (node_weight actions) queue))"
    using successors_weight[of actions n] by simp
qed simp

definition strips_plan :: "htn_facts \<Rightarrow> string \<Rightarrow> string list" where
  "strips_plan facts pack =
     (let actions = applicable facts pack
      in if actions = [] then []
         else
           let start_mapped = (\<not> list_ex (\<lambda>a. ac_id a = ''http-surface-map'') actions)
           in case strips_search actions [(start_mapped, {}, [])] {} of
                Some path \<Rightarrow> path
              | None \<Rightarrow> htn_plan facts pack)"

definition pddl_pred :: "string \<Rightarrow> string" where
  "pddl_pred i = ''ran-'' @ i"

definition nl :: string where "nl = [newline]"

definition conj_text :: "string list \<Rightarrow> string" where
  "conj_text xs = (if xs = [] then ''(and)'' else ''(and '' @ join_with '' '' xs @ '')'')"

definition preconditions :: "action \<Rightarrow> string list" where
  "preconditions a =
     (if ac_needs_mapped a then [''(mapped)''] else [])
     @ (if ac_needs_users a then [''(has-users)''] else [])
     @ (if ac_needs_files a then [''(has-files)''] else [])
     @ (if ac_needs_parse a then [''(has-parse)''] else [])
     @ (if ac_needs_once a then [''(has-once)''] else [])"

definition emit_domain :: string where
  "emit_domain =
     ''(define (domain aros-gate)'' @ nl @ ''  (:requirements :strips)'' @ nl
     @ ''  (:predicates'' @ nl @ ''    (mapped)'' @ nl @ ''    (has-users)'' @ nl
     @ ''    (has-files)'' @ nl @ ''    (has-parse)'' @ nl @ ''    (has-once)'' @ nl
     @ concat (map (\<lambda>a. ''    ('' @ pddl_pred (ac_id a) @ '')'' @ nl) catalog)
     @ ''  )'' @ nl
     @ concat (map (\<lambda>a.
         let effect = [''('' @ pddl_pred (ac_id a) @ '')'']
                      @ (if ac_id a = ''http-surface-map'' then [''(mapped)''] else [])
         in ''  (:action '' @ ac_id a @ nl @ ''    :parameters ()'' @ nl
            @ ''    :precondition '' @ conj_text (preconditions a) @ nl
            @ ''    :effect (and '' @ join_with '' '' effect @ ''))'' @ nl) catalog)
     @ '')'' @ nl"

definition emit_problem :: "htn_facts \<Rightarrow> string \<Rightarrow> string" where
  "emit_problem facts pack =
     (let needs_map = ((pack = ''http'' \<or> pack = ''all'')
                       \<and> (has_http_paths facts \<or> has_server facts));
          init = (if \<not> needs_map then [''(mapped)''] else [])
                 @ (if has_users facts then [''(has-users)''] else [])
                 @ (if has_files facts then [''(has-files)''] else [])
                 @ (if has_parse facts then [''(has-parse)''] else [])
                 @ (if has_once facts then [''(has-once)''] else []);
          goal = map (\<lambda>a. ''('' @ pddl_pred (ac_id a) @ '')'') (applicable facts pack)
      in ''(define (problem aros-target)'' @ nl @ ''  (:domain aros-gate)'' @ nl
         @ ''  (:init '' @ conj_text init @ '')'' @ nl @ ''  (:goal '' @ conj_text goal @ '')'' @ nl
         @ '')'' @ nl)"

definition trim_end_matches :: "(char \<Rightarrow> bool) \<Rightarrow> string \<Rightarrow> string" where
  "trim_end_matches P s = rev (dropWhile P (rev s))"

text \<open>The id on one line of a plan file, if the line has one that is allowed.\<close>

definition sas_line :: "string set \<Rightarrow> string \<Rightarrow> string list" where
  "sas_line allowed raw =
     (let line = trim raw
      in if line = [] \<or> starts_with line '';'' \<or> starts_with line ''cost'' then []
         else
           let name = trim (trim_end_matches (\<lambda>c. c = CHR '')'')
                              (dropWhile (\<lambda>c. c = CHR ''('') line));
               i = (case split_whitespace name of [] \<Rightarrow> [] | w # _ \<Rightarrow> w)
           in if i \<in> allowed then [i] else [])"

definition parse_sas_plan :: "string \<Rightarrow> string set \<Rightarrow> string list option" where
  "parse_sas_plan raw allowed =
     (let out = concat (map (sas_line allowed) (str_lines raw))
      in if out = [] then None else Some out)"

text \<open>
  \<open>fd_raw\<close> is the text of \<^verbatim>\<open>sas_plan\<close> or of standard output; \<open>None\<close> when the engine is absent, there
  is no work directory, or a write, the run or the read failed.
\<close>

definition try_fast_downward :: "htn_facts \<Rightarrow> string \<Rightarrow> string option \<Rightarrow> string list option" where
  "try_fast_downward facts pack fd_raw =
     (case fd_raw of
        None \<Rightarrow> None
      | Some raw \<Rightarrow>
          let allowed = set (map ac_id (applicable facts pack))
          in case parse_sas_plan raw allowed of
               None \<Rightarrow> None
             | Some plan \<Rightarrow> if \<not> allowed \<subseteq> set plan then None else Some plan)"

text \<open>\<open>memory\<close> is what \<^verbatim>\<open>load_failure_memory\<close> read from the work directory, empty without one.\<close>

definition plan_campaigns ::
    "htn_facts \<Rightarrow> string \<Rightarrow> string option \<Rightarrow> failure_memory list \<Rightarrow> campaign_plan" where
  "plan_campaigns facts pack fd_raw memory =
     (let base = (case try_fast_downward facts pack fd_raw of
                    Some campaigns \<Rightarrow> (FastDownward, campaigns)
                  | None \<Rightarrow> (Strips, strips_plan facts pack));
          replanned = apply_failure_memory (snd base) memory
      in \<lparr>pl_source = fst base, pl_campaigns = fr_campaigns replanned, pl_domain = emit_domain,
          pl_problem = emit_problem facts pack, pl_skipped = fr_skipped replanned,
          pl_promoted = fr_promoted replanned\<rparr>)"

definition spec_id_from_detail :: "string \<Rightarrow> string option" where
  "spec_id_from_detail detail =
     (case find_split ''campaign '' detail of
        None \<Rightarrow> None
      | Some (_, rest) \<Rightarrow>
          let i = takeWhile (\<lambda>c. is_ascii_alphanumeric c \<or> c = CHR ''-'') rest
          in if i = [] then None else Some i)"

fun category_text :: "failure_category \<Rightarrow> string" where
  "category_text FC_SurfaceNotDiscovered = ''SURFACE_NOT_DISCOVERED''"
| "category_text FC_ArchitectureMisunderstood = ''ARCHITECTURE_MISUNDERSTOOD''"
| "category_text FC_AssumptionNotGenerated = ''ASSUMPTION_NOT_GENERATED''"
| "category_text FC_HypothesisNotGenerated = ''HYPOTHESIS_NOT_GENERATED''"
| "category_text FC_HypothesisDeprioritized = ''HYPOTHESIS_DEPRIORITIZED''"
| "category_text FC_ExperimentInadequate = ''EXPERIMENT_INADEQUATE''"
| "category_text FC_ObservationMisinterpreted = ''OBSERVATION_MISINTERPRETED''"
| "category_text FC_ToolGap = ''TOOL_GAP''"
| "category_text FC_VerificationFailure = ''VERIFICATION_FAILURE''"
| "category_text FC_BudgetExhaustion = ''BUDGET_EXHAUSTION''"
| "category_text FC_PolicyBlocked = ''POLICY_BLOCKED''"
| "category_text FC_Unknown = ''UNKNOWN''"

definition memory_of_card :: "research_failure_card \<Rightarrow> failure_memory list" where
  "memory_of_card fc =
     (let spec_id = (if rf_spec_id fc = [] then
                       (case spec_id_from_detail (rf_detail fc) of None \<Rightarrow> [] | Some i \<Rightarrow> i)
                     else rf_spec_id fc);
          category = category_text (rf_category fc)
      in if spec_id \<noteq> [] \<and> category \<noteq> []
         then [\<lparr>fm_spec_id = spec_id, fm_category = category\<rparr>] else [])"

definition json_str_field :: "string \<Rightarrow> json \<Rightarrow> string option" where
  "json_str_field k v =
     (case v of
        JObject m \<Rightarrow> (case map_of m k of Some (JString s) \<Rightarrow> Some s | _ \<Rightarrow> None)
      | _ \<Rightarrow> None)"

definition memory_of_line :: "(string \<Rightarrow> string + json) \<Rightarrow> string \<Rightarrow> failure_memory list" where
  "memory_of_line parse line =
     (case parse line of
        Inl _ \<Rightarrow> []
      | Inr v \<Rightarrow>
          (case (json_str_field ''campaign'' v, json_str_field ''category'' v) of
             (Some spec_id, Some category) \<Rightarrow>
               if spec_id \<noteq> [] then [\<lparr>fm_spec_id = spec_id, fm_category = category\<rparr>] else []
           | _ \<Rightarrow> []))"

text \<open>\<open>db\<close> is the opened store, \<open>jsonl\<close> the text of the side file; each may be missing.\<close>

definition load_failure_memory ::
    "research_failure_card codec \<Rightarrow> (string \<Rightarrow> string + json) \<Rightarrow> store option \<Rightarrow> string option
      \<Rightarrow> failure_memory list" where
  "load_failure_memory cd parse db jsonl =
     (case db of
        None \<Rightarrow> []
      | Some s \<Rightarrow>
          concat (map (\<lambda>(_, payload).
                        case codec_from_str cd payload of Inl _ \<Rightarrow> [] | Inr fc \<Rightarrow> memory_of_card fc)
                   (list_records ''failure_card'' s)))
     @ (case jsonl of None \<Rightarrow> [] | Some text \<Rightarrow> concat (map (memory_of_line parse) (str_lines text)))"

subsection \<open>The search returns the catalog order\<close>

text \<open>
  Breadth-first search from the empty node visits the nodes layer by layer. The first node of layer
  \<open>k\<close> is always the one that ran the first \<open>k\<close> actions in catalog order: it is new when it is reached,
  and its first successor is the first node of the next layer.
\<close>

definition layer :: "nat \<Rightarrow> node \<Rightarrow> bool" where
  "layer k n \<longleftrightarrow> finite (fst (snd n)) \<and> card (fst (snd n)) = k"

definition older :: "nat \<Rightarrow> (bool \<times> string list) set \<Rightarrow> bool" where
  "older k seen \<longleftrightarrow> (\<forall>key \<in> seen. length (snd key) < k)"

definition front :: "bool \<Rightarrow> string list \<Rightarrow> nat \<Rightarrow> node" where
  "front m ids k = (m \<or> ''http-surface-map'' \<in> set (take k ids), set (take k ids), take k ids)"

definition ordered_actions :: "bool \<Rightarrow> action list \<Rightarrow> bool" where
  "ordered_actions m actions \<longleftrightarrow>
     distinct (map ac_id actions)
     \<and> (\<forall>k < length actions. ac_needs_mapped (actions ! k) \<longrightarrow>
          m \<or> ''http-surface-map'' \<in> set (take k (map ac_id actions)))"

lemma layer_successors: "layer k n \<Longrightarrow> s \<in> set (successors actions n) \<Longrightarrow> layer (Suc k) s"
  by (cases n) (auto simp: layer_def successors_def)

lemma layer_new: "layer k n \<Longrightarrow> older k seen \<Longrightarrow> node_key n \<notin> seen"
  by (auto simp: layer_def older_def node_key_def)

lemma older_insert: "older (Suc k) seen \<Longrightarrow> layer k n \<Longrightarrow> older (Suc k) (insert (node_key n) seen)"
  by (auto simp: layer_def older_def node_key_def)

lemma older_Suc: "older k seen \<Longrightarrow> older (Suc k) seen"
  by (auto simp: older_def)

lemma layer_not_goal:
  assumes "layer k n" "k < length actions" "distinct (map ac_id actions)"
  shows "\<not> list_all (\<lambda>a. ac_id a \<in> fst (snd n)) actions"
proof
  assume "list_all (\<lambda>a. ac_id a \<in> fst (snd n)) actions"
  then have "set (map ac_id actions) \<subseteq> fst (snd n)" by (auto simp: list_all_iff)
  with assms(1) have "card (set (map ac_id actions)) \<le> k"
    by (auto simp: layer_def intro: card_mono)
  with assms(2,3) show False by (metis distinct_card length_map not_le)
qed

lemma finish_layer:
  assumes "\<forall>n \<in> set xs. layer k n" "\<forall>n \<in> set ys. layer (Suc k) n" "older (Suc k) seen"
    and "k < length actions" "distinct (map ac_id actions)"
  shows "\<exists>zs seen'. (\<forall>n \<in> set zs. layer (Suc k) n) \<and> older (Suc k) seen'
    \<and> strips_search actions (xs @ ys) seen = strips_search actions (ys @ zs) seen'"
  using assms
proof (induction xs arbitrary: ys seen)
  case Nil
  then show ?case by (intro exI[of _ "[]"] exI[of _ seen]) simp
next
  case (Cons n xs)
  show ?case
  proof (cases "node_key n \<in> seen")
    case True
    then have "strips_search actions ((n # xs) @ ys) seen = strips_search actions (xs @ ys) seen" by simp
    with Cons.IH[of ys seen] Cons.prems show ?thesis by simp
  next
    case False
    have l: "layer k n" using Cons.prems(1) by simp
    let ?ys = "ys @ successors actions n"
    have "strips_search actions ((n # xs) @ ys) seen
        = strips_search actions (xs @ ?ys) (insert (node_key n) seen)"
      using False layer_not_goal[OF l Cons.prems(4,5)] by simp
    moreover have "\<forall>m \<in> set ?ys. layer (Suc k) m" using Cons.prems(2) layer_successors[OF l] by auto
    moreover note Cons.IH[of ?ys "insert (node_key n) seen"]
    ultimately obtain zs seen' where zs: "\<forall>n \<in> set zs. layer (Suc k) n" "older (Suc k) seen'"
      "strips_search actions ((n # xs) @ ys) seen = strips_search actions (?ys @ zs) seen'"
      using Cons.prems older_insert[OF Cons.prems(3) l] by auto
    then show ?thesis
      using layer_successors[OF l]
      by (intro exI[of _ "successors actions n @ zs"] exI[of _ seen']) auto
  qed
qed

lemma layer_front:
  "distinct (map ac_id actions) \<Longrightarrow> k \<le> length actions \<Longrightarrow> layer k (front m (map ac_id actions) k)"
  by (simp add: layer_def front_def distinct_card)

lemma front_successor:
  assumes "ordered_actions m actions" "k < length actions"
  shows "\<exists>rest. successors actions (front m (map ac_id actions) k)
    = front m (map ac_id actions) (Suc k) # rest"
proof -
  let ?ids = "map ac_id actions"
  let ?ok = "\<lambda>a. ac_id a \<notin> set (take k ?ids)
    \<and> (ac_needs_mapped a \<longrightarrow> m \<or> ''http-surface-map'' \<in> set (take k ?ids))"
  have split: "actions = take k actions @ actions ! k # drop (Suc k) actions"
    using assms(2) by (simp add: id_take_nth_drop)
  have "distinct (map ac_id (take k actions @ actions ! k # drop (Suc k) actions))"
    using assms(1) split by (simp add: ordered_actions_def)
  then have "ac_id (actions ! k) \<notin> set (take k ?ids)" by (auto simp: take_map)
  then have "?ok (actions ! k)" using assms by (auto simp: ordered_actions_def)
  moreover have "filter ?ok (take k actions) = []" by (auto simp: filter_empty_conv take_map)
  ultimately have "filter ?ok actions = actions ! k # filter ?ok (drop (Suc k) actions)"
    by (subst split) simp
  moreover have "take (Suc k) ?ids = take k ?ids @ [ac_id (actions ! k)]"
    using assms(2) by (simp add: take_Suc_conv_app_nth)
  ultimately show ?thesis by (auto simp: successors_def front_def)
qed

lemma search_from_front:
  assumes "ordered_actions m actions" "k \<le> length actions"
    and "\<forall>n \<in> set ys. layer k n" "older k seen"
  shows "strips_search actions (front m (map ac_id actions) k # ys) seen = Some (map ac_id actions)"
  using assms
proof (induction "length actions - k" arbitrary: k ys seen)
  case 0
  then have k: "k = length actions" by simp
  have d: "distinct (map ac_id actions)" using "0.prems"(1) by (simp add: ordered_actions_def)
  from layer_new[OF layer_front[OF d "0.prems"(2)] "0.prems"(4)] k show ?case
    by (auto simp: front_def list_all_iff)
next
  case (Suc u)
  then have lt: "k < length actions" by simp
  have d: "distinct (map ac_id actions)" using Suc.prems(1) by (simp add: ordered_actions_def)
  let ?n = "front m (map ac_id actions) k"
  have l: "layer k ?n" using d lt by (simp add: layer_front)
  obtain rest where rest: "successors actions ?n = front m (map ac_id actions) (Suc k) # rest"
    using front_successor[OF Suc.prems(1) lt] by blast
  have "strips_search actions (?n # ys) seen
      = strips_search actions (ys @ successors actions ?n) (insert (node_key ?n) seen)"
    using layer_new[OF l Suc.prems(4)] layer_not_goal[OF l lt d] by simp
  moreover obtain zs seen' where zs: "\<forall>n \<in> set zs. layer (Suc k) n" "older (Suc k) seen'"
    "strips_search actions (ys @ successors actions ?n) (insert (node_key ?n) seen)
       = strips_search actions (successors actions ?n @ zs) seen'"
    using finish_layer[OF Suc.prems(3) _ older_insert[OF older_Suc[OF Suc.prems(4)] l] lt d]
      layer_successors[OF l] by blast
  moreover have "\<forall>n \<in> set rest. layer (Suc k) n"
    using layer_successors[OF l] rest by (metis list.set_intros(2))
  then have "strips_search actions (front m (map ac_id actions) (Suc k) # rest @ zs) seen'
      = Some (map ac_id actions)"
    using Suc.hyps(2) Suc.prems(1) lt zs(1,2) by (intro Suc.hyps(1)) auto
  ultimately show ?case using rest by simp
qed

subsection \<open>The applicable actions are the HTN plan\<close>

abbreviation http_pack :: "string \<Rightarrow> bool" where
  "http_pack pack \<equiv> pack = ''http'' \<or> pack = ''all''"

abbreviation cli_pack :: "string \<Rightarrow> bool" where
  "cli_pack pack \<equiv> pack = ''cli'' \<or> pack = ''all''"

lemma user_applies:
  "i \<in> set HTTP_USER_CAMPAIGNS \<Longrightarrow>
     action_applies facts pack (mk_action True True False False False i)
       \<longleftrightarrow> http_pack pack \<and> has_users facts"
  by (auto simp: HTTP_USER_CAMPAIGNS_def action_applies_def mk_action_def Let_def)

lemma file_applies:
  "i \<in> set HTTP_FILE_CAMPAIGNS \<Longrightarrow>
     action_applies facts pack (mk_action True False True False False i)
       \<longleftrightarrow> http_pack pack \<and> has_files facts"
  by (auto simp: HTTP_FILE_CAMPAIGNS_def action_applies_def mk_action_def Let_def)

lemma parse_applies:
  "i \<in> set CLI_PARSE_CAMPAIGNS \<Longrightarrow>
     action_applies facts pack (mk_action False False False True False i)
       \<longleftrightarrow> cli_pack pack \<and> has_parse facts"
  by (auto simp: CLI_PARSE_CAMPAIGNS_def action_applies_def mk_action_def Let_def)

lemma once_applies:
  "i \<in> set CLI_ONCE_CAMPAIGNS \<Longrightarrow>
     action_applies facts pack (mk_action False False False False True i)
       \<longleftrightarrow> cli_pack pack \<and> has_once facts"
  by (auto simp: CLI_ONCE_CAMPAIGNS_def action_applies_def mk_action_def Let_def)

lemma map_applies:
  "action_applies facts pack (mk_action False False False False False ''http-surface-map'')
     \<longleftrightarrow> http_pack pack \<and> (has_http_paths facts \<or> has_server facts)"
  by (auto simp: action_applies_def mk_action_def Let_def)

lemma filter_map_group:
  assumes "\<And>i. i \<in> set ids \<Longrightarrow> P (f i) \<longleftrightarrow> b" and "\<And>i. g (f i) = i"
  shows "map g (filter P (map f ids)) = (if b then ids else [])"
  using assms by (induction ids) auto

lemma ac_id_mk_action: "ac_id (mk_action m u f p n i) = i"
  by (simp add: mk_action_def)

lemma applicable_groups:
  "map ac_id (filter (action_applies facts pack)
       (map (mk_action True True False False False) HTTP_USER_CAMPAIGNS))
     = (if http_pack pack \<and> has_users facts then HTTP_USER_CAMPAIGNS else [])"
  "map ac_id (filter (action_applies facts pack)
       (map (mk_action True False True False False) HTTP_FILE_CAMPAIGNS))
     = (if http_pack pack \<and> has_files facts then HTTP_FILE_CAMPAIGNS else [])"
  "map ac_id (filter (action_applies facts pack)
       (map (mk_action False False False True False) CLI_PARSE_CAMPAIGNS))
     = (if cli_pack pack \<and> has_parse facts then CLI_PARSE_CAMPAIGNS else [])"
  "map ac_id (filter (action_applies facts pack)
       (map (mk_action False False False False True) CLI_ONCE_CAMPAIGNS))
     = (if cli_pack pack \<and> has_once facts then CLI_ONCE_CAMPAIGNS else [])"
  by (rule filter_map_group;
      simp only: user_applies file_applies parse_applies once_applies ac_id_mk_action)+

lemma applicable_ids: "map ac_id (applicable facts pack) = htn_plan facts pack"
  unfolding applicable_def catalog_def htn_plan_def Let_def filter_append map_append
    applicable_groups
  by (simp add: map_applies ac_id_mk_action)

lemma distinct_catalog: "distinct (map ac_id catalog)"
  by code_simp

lemma catalog_Cons:
  "\<exists>rest. catalog = mk_action False False False False False ''http-surface-map'' # rest"
  by (simp add: catalog_def)

lemma applicable_ordered:
  "ordered_actions (\<not> list_ex (\<lambda>a. ac_id a = ''http-surface-map'') (applicable facts pack))
     (applicable facts pack)"
proof -
  let ?as = "applicable facts pack"
  let ?map = "mk_action False False False False False ''http-surface-map''"
  obtain rest where rest: "catalog = ?map # rest" using catalog_Cons by blast
  have d: "distinct (map ac_id ?as)"
    unfolding applicable_def using distinct_catalog by (rule distinct_map_filter)
  have "''http-surface-map'' \<notin> set (map ac_id rest)"
    using distinct_catalog unfolding rest by (simp add: ac_id_mk_action)
  then have not: "a \<in> set (filter P rest) \<Longrightarrow> ac_id a \<noteq> ''http-surface-map''" for a P
    by (force simp: image_iff)
  have "''http-surface-map'' \<in> set (take k (map ac_id ?as))"
    if "list_ex (\<lambda>a. ac_id a = ''http-surface-map'') ?as" "k < length ?as" "ac_needs_mapped (?as ! k)"
    for k
  proof -
    from that(1) not have "action_applies facts pack ?map"
      unfolding applicable_def rest by (auto simp: list_ex_iff split: if_splits)
    then obtain r where r: "?as = ?map # r" unfolding applicable_def rest by simp
    with that(3) have "k \<noteq> 0" by (cases k) (auto simp: mk_action_def)
    with r show ?thesis by (cases k) (simp_all add: ac_id_mk_action)
  qed
  with d show ?thesis by (auto simp: ordered_actions_def)
qed

lemma strips_plan_htn: "strips_plan facts pack = htn_plan facts pack"
proof (cases "applicable facts pack = []")
  case True
  then show ?thesis using applicable_ids[of facts pack] by (simp add: strips_plan_def)
next
  case False
  let ?m = "\<not> list_ex (\<lambda>a. ac_id a = ''http-surface-map'') (applicable facts pack)"
  have "strips_search (applicable facts pack) [front ?m (map ac_id (applicable facts pack)) 0] {}
      = Some (map ac_id (applicable facts pack))"
    by (rule search_from_front[OF applicable_ordered]) (simp_all add: older_def)
  with False show ?thesis by (simp add: strips_plan_def front_def applicable_ids Let_def)
qed

subsection \<open>Failure memory\<close>

definition has_gap :: "failure_memory list \<Rightarrow> string \<Rightarrow> bool" where
  "has_gap memory i \<longleftrightarrow> \<lparr>fm_spec_id = i, fm_category = ''TOOL_GAP''\<rparr> \<in> set memory"

definition was_inadequate :: "failure_memory list \<Rightarrow> string \<Rightarrow> bool" where
  "was_inadequate memory i \<longleftrightarrow> \<lparr>fm_spec_id = i, fm_category = ''EXPERIMENT_INADEQUATE''\<rparr> \<in> set memory"

lemma memory_item: "fm_category item = c \<Longrightarrow> item = \<lparr>fm_spec_id = fm_spec_id item, fm_category = c\<rparr>"
  by (cases item) simp

lemma skip_fold:
  "set (fold (skip_step plan) memory sk) = set sk \<union> {i \<in> set plan. has_gap memory i}"
proof (induction memory arbitrary: sk)
  case Nil
  then show ?case by (simp add: has_gap_def)
next
  case (Cons item memory)
  have "set (skip_step plan item sk)
      = set sk \<union> {i \<in> set plan. item = \<lparr>fm_spec_id = i, fm_category = ''TOOL_GAP''\<rparr>}"
    using memory_item[of item "''TOOL_GAP''"] by (auto simp: skip_step_def)
  with Cons show ?case by (auto simp: has_gap_def)
qed

lemma promote_fold:
  assumes "fold (promote_step sk) memory (cs, ps) = (cs', ps')"
  shows "mset cs' + mset ps' = mset cs + mset ps
    \<and> set ps' = set ps \<union> {i \<in> set cs. i \<notin> set sk \<and> was_inadequate memory i}"
  using assms
proof (induction memory arbitrary: cs ps)
  case Nil
  then show ?case by (simp add: was_inadequate_def)
next
  case (Cons item memory)
  obtain cs1 ps1 where s1: "promote_step sk item (cs, ps) = (cs1, ps1)" by force
  let ?i = "fm_spec_id item"
  let ?take = "fm_category item = ''EXPERIMENT_INADEQUATE'' \<and> ?i \<notin> set sk \<and> ?i \<in> set cs \<and> ?i \<notin> set ps"
  have step: "(cs1, ps1) = (if ?take then (remove1 ?i cs, ps @ [?i]) else (cs, ps))"
    using s1 by (auto simp: promote_step_def split: if_splits)
  then have m: "mset cs1 + mset ps1 = mset cs + mset ps" by (auto split: if_splits)
  have p: "set ps1 = set ps \<union> {i \<in> set cs. i \<notin> set sk
      \<and> \<lparr>fm_spec_id = i, fm_category = ''EXPERIMENT_INADEQUATE''\<rparr> = item}"
    using step memory_item[of item "''EXPERIMENT_INADEQUATE''"] by (auto split: if_splits)
  have c: "set ps1 \<union> set cs1 = set ps \<union> set cs" using arg_cong[OF m, of set_mset] by auto
  have m': "mset cs' + mset ps' = mset cs1 + mset ps1"
    using Cons.IH[of cs1 ps1] Cons.prems s1 by simp
  have "set ps' = set ps1 \<union> {i \<in> set cs1. i \<notin> set sk \<and> was_inadequate memory i}"
    using Cons.IH[of cs1 ps1] Cons.prems s1 by simp
  also have "\<dots> = set ps \<union> {i \<in> set cs. i \<notin> set sk \<and> was_inadequate (item # memory) i}"
  proof (rule set_eqI)
    fix i
    have "i \<in> set ps1 \<longleftrightarrow> i \<in> set ps \<or> (i \<in> set cs \<and> i \<notin> set sk
        \<and> \<lparr>fm_spec_id = i, fm_category = ''EXPERIMENT_INADEQUATE''\<rparr> = item)" using p by blast
    moreover have "i \<in> set ps1 \<or> i \<in> set cs1 \<longleftrightarrow> i \<in> set ps \<or> i \<in> set cs" using c by blast
    moreover have "i \<in> set cs1 \<Longrightarrow> i \<in> set cs"
      using step by (auto split: if_splits dest: subsetD[OF set_remove1_subset])
    ultimately show "i \<in> set ps1 \<union> {i \<in> set cs1. i \<notin> set sk \<and> was_inadequate memory i}
      \<longleftrightarrow> i \<in> set ps \<union> {i \<in> set cs. i \<notin> set sk \<and> was_inadequate (item # memory) i}"
      unfolding was_inadequate_def Un_iff mem_Collect_eq list.set insert_iff by blast
  qed
  finally show ?case using m m' by simp
qed

lemma insert_promoted:
  "fold (\<lambda>(o', i) cs. insert_at o' i cs) (enumerate (length pre) ps) (pre @ cs) = pre @ ps @ cs"
proof (induction ps arbitrary: pre)
  case (Cons p ps)
  have "insert_at (length pre) p (pre @ cs) = (pre @ [p]) @ cs" by (simp add: insert_at_def)
  with Cons[of "pre @ [p]"] show ?case by simp
qed simp

lemma failure_replan_spec:
  fixes plan memory
  defines "r \<equiv> apply_failure_memory plan memory"
  shows "mset (fr_campaigns r) = mset (filter (\<lambda>i. \<not> has_gap memory i) plan)
    \<and> set (fr_skipped r) = {i \<in> set plan. has_gap memory i}
    \<and> set (fr_promoted r) = {i \<in> set plan. \<not> has_gap memory i \<and> was_inadequate memory i}
    \<and> prefix (fr_promoted r) (fr_campaigns r)"
proof -
  let ?sk = "fold (skip_step plan) memory []"
  have sk: "set ?sk = {i \<in> set plan. has_gap memory i}" by (simp add: skip_fold)
  then have f: "filter (\<lambda>i. i \<notin> set ?sk) plan = filter (\<lambda>i. \<not> has_gap memory i) plan"
    by (auto intro: filter_cong)
  obtain cs ps where fold: "fold (promote_step ?sk) memory (filter (\<lambda>i. i \<notin> set ?sk) plan, []) = (cs, ps)"
    by force
  have "mset cs + mset ps = mset (filter (\<lambda>i. \<not> has_gap memory i) plan)"
    using promote_fold[OF fold] unfolding f by simp
  moreover have "set ps = {i \<in> set plan. \<not> has_gap memory i \<and> was_inadequate memory i}"
    using promote_fold[OF fold] unfolding f sk by auto
  moreover have "fold (\<lambda>(o', i) cs. insert_at o' i cs) (enumerate 0 ps) cs = ps @ cs"
    using insert_promoted[of "[]" ps cs] by simp
  ultimately show ?thesis
    using fold sk by (simp add: r_def apply_failure_memory_def Let_def add.commute)
qed

lemma sas_line_allowed: "set (sas_line allowed raw) \<subseteq> allowed"
  by (auto simp: sas_line_def Let_def)

lemma try_fast_downward_set:
  "try_fast_downward facts pack fd_raw = Some plan \<Longrightarrow> set plan = set (htn_plan facts pack)"
proof -
  assume "try_fast_downward facts pack fd_raw = Some plan"
  then obtain raw where raw: "parse_sas_plan raw (set (map ac_id (applicable facts pack))) = Some plan"
    and sub: "set (map ac_id (applicable facts pack)) \<subseteq> set plan"
    by (auto simp: try_fast_downward_def Let_def split: option.splits if_splits)
  have "set plan \<subseteq> set (map ac_id (applicable facts pack))"
    using raw sas_line_allowed by (fastforce simp: parse_sas_plan_def Let_def split: if_splits)
  with sub show ?thesis by (metis applicable_ids subset_antisym)
qed

subsection \<open>Properties\<close>

text \<open>C31. The forward search is total and agrees with the task network: for every set of facts and every
  pack, breadth-first STRIPS search over the catalog terminates and returns exactly the HTN plan.\<close>

theorem strips_plan_eq_htn_plan: "strips_plan facts pack = htn_plan facts pack"
  by (rule strips_plan_htn)

text \<open>Failure memory only removes and reorders: the new plan has the campaigns of the old one, with
  their multiplicities, without those that have a recorded tool gap; those are reported as skipped;
  the campaigns with an inadequate experiment are the promoted ones and come first.\<close>

theorem apply_failure_memory_spec:
  "let r = apply_failure_memory plan memory
   in mset (fr_campaigns r) = mset (filter (\<lambda>i. \<not> has_gap memory i) plan)
      \<and> set (fr_skipped r) = {i \<in> set plan. has_gap memory i}
      \<and> set (fr_promoted r) = {i \<in> set plan. \<not> has_gap memory i \<and> was_inadequate memory i}
      \<and> prefix (fr_promoted r) (fr_campaigns r)"
  using failure_replan_spec[of plan memory] by (simp add: Let_def)

text \<open>C37. The plan is justified by the facts, whatever an external planner printed and whatever the
  failure memory says: its campaigns are exactly those the facts and the pack call for that have no
  recorded tool gap, and the rest of those are listed as skipped.\<close>

theorem plan_campaigns_justified:
  "let p = plan_campaigns facts pack fd_raw memory
   in set (pl_campaigns p) = {i \<in> set (htn_plan facts pack). \<not> has_gap memory i}
      \<and> set (pl_skipped p) = {i \<in> set (htn_plan facts pack). has_gap memory i}"
proof -
  define base where "base = (case try_fast_downward facts pack fd_raw of
    Some campaigns \<Rightarrow> (FastDownward, campaigns) | None \<Rightarrow> (Strips, strips_plan facts pack))"
  have set: "set (snd base) = set (htn_plan facts pack)"
    by (auto simp: base_def strips_plan_htn split: option.splits dest: try_fast_downward_set)
  have "set (fr_campaigns (apply_failure_memory (snd base) memory))
      = {i \<in> set (snd base). \<not> has_gap memory i}"
    "set (fr_skipped (apply_failure_memory (snd base) memory)) = {i \<in> set (snd base). has_gap memory i}"
    using failure_replan_spec[of "snd base" memory]
    by (metis mset_eq_setD set_filter, blast)
  then show ?thesis
    unfolding plan_campaigns_def base_def[symmetric] by (simp add: set Let_def)
qed

end
