(* ===== verification/Scheduler.thy ===== *)
theory Scheduler
  imports Domain Rust_Str
begin

text \<open>
  \<^verbatim>\<open>aros-core/src/scheduler.rs\<close>: the heuristic score of a hypothesis and the choice of the cheapest
  one. Scores are \<^verbatim>\<open>u32\<close>; the lemmas show that the sum cannot wrap, the range it stays in, that a
  cheaper experiment never scores lower, and which hypothesis is picked.
\<close>

subsection \<open>Operations\<close>

record priority_score =
  ps_total :: u32
  ps_plausibility :: u32
  ps_impact :: u32
  ps_novelty :: u32
  ps_information_gain :: u32
  ps_cascade_potential :: u32
  ps_execution_cost :: u32
  ps_risk :: u32

definition saturating_sub :: "u32 \<Rightarrow> u32 \<Rightarrow> u32" where
  "saturating_sub a b = (if b \<le> a then a - b else 0)"

definition score_hypothesis :: "hypothesis \<Rightarrow> priority_score" where
  "score_hypothesis h =
     (let plausibility = 50;
          impact = (if str_contains (hy_possible_impact h) ''confidential''
                       \<or> str_contains (hy_possible_impact h) ''auth'' then 80 else 40);
          novelty = (if hy_historical_analogues h = [] then 60 else 40);
          information_gain = 70;
          cascade_potential = 30;
          execution_cost = min (hy_estimated_cost h) 100;
          risk = 20;
          total = plausibility + impact + novelty + information_gain + cascade_potential
                  + saturating_sub 100 execution_cost + saturating_sub 100 risk
      in \<lparr>ps_total = total, ps_plausibility = plausibility, ps_impact = impact,
          ps_novelty = novelty, ps_information_gain = information_gain,
          ps_cascade_potential = cascade_potential, ps_execution_cost = execution_cost,
          ps_risk = risk\<rparr>)"

text \<open>\<^verbatim>\<open>Iterator::min_by_key\<close>: a fold that keeps the element it has unless the next key is smaller.\<close>

definition keep_cheaper :: "hypothesis option \<Rightarrow> hypothesis \<Rightarrow> hypothesis option" where
  "keep_cheaper best h =
     (case best of
        None \<Rightarrow> Some h
      | Some b \<Rightarrow> if hy_estimated_cost h < hy_estimated_cost b then Some h else Some b)"

definition pick_cheapest :: "hypothesis list \<Rightarrow> hypothesis option" where
  "pick_cheapest hs = foldl keep_cheaper None hs"

subsection \<open>Lemmas\<close>

lemma saturating_sub_nat: "unat (saturating_sub a b) = unat a - unat b"
  by (simp add: saturating_sub_def unat_sub word_le_nat_alt)

lemma score_fields:
  "ps_total (score_hypothesis h) = ps_plausibility (score_hypothesis h) + ps_impact (score_hypothesis h)
     + ps_novelty (score_hypothesis h) + ps_information_gain (score_hypothesis h)
     + ps_cascade_potential (score_hypothesis h)
     + saturating_sub 100 (ps_execution_cost (score_hypothesis h))
     + saturating_sub 100 (ps_risk (score_hypothesis h))"
  by (simp add: score_hypothesis_def Let_def)

lemma score_execution_cost:
  "unat (saturating_sub 100 (ps_execution_cost (score_hypothesis h))) = 100 - min (unat (hy_estimated_cost h)) 100"
  by (simp add: saturating_sub_nat score_hypothesis_def Let_def min_def word_le_nat_alt)

lemma score_parts:
  "unat (ps_plausibility (score_hypothesis h)) = 50"
  "unat (ps_impact (score_hypothesis h)) \<in> {40, 80}"
  "unat (ps_novelty (score_hypothesis h)) \<in> {40, 60}"
  "unat (ps_information_gain (score_hypothesis h)) = 70"
  "unat (ps_cascade_potential (score_hypothesis h)) = 30"
  "unat (saturating_sub 100 (ps_risk (score_hypothesis h))) = 80"
  by (simp_all add: score_hypothesis_def Let_def saturating_sub_def)

lemma unat_add_small:
  fixes a b :: u32
  shows "unat a + unat b < 2 ^ 32 \<Longrightarrow> unat (a + b) = unat a + unat b"
  by (simp add: unat_word_ariths)

lemma score_total_nat:
  "unat (ps_total (score_hypothesis h)) =
     230 + unat (ps_impact (score_hypothesis h)) + unat (ps_novelty (score_hypothesis h))
     + (100 - min (unat (hy_estimated_cost h)) 100)"
proof -
  have imp: "unat (ps_impact (score_hypothesis h)) \<le> 80" and nov: "unat (ps_novelty (score_hypothesis h)) \<le> 60"
    using score_parts(2)[of h] score_parts(3)[of h] by auto
  show ?thesis
    unfolding score_fields
    using imp nov by (simp add: unat_add_small score_parts(1,4,5,6) score_execution_cost)
qed

lemma pick_cheapest_snoc: "pick_cheapest (hs @ [h]) = keep_cheaper (pick_cheapest hs) h"
  by (simp add: pick_cheapest_def)

definition first_minimum :: "hypothesis list \<Rightarrow> nat \<Rightarrow> bool" where
  "first_minimum hs i =
     (i < length hs \<and> (\<forall>j < length hs. hy_estimated_cost (hs ! i) \<le> hy_estimated_cost (hs ! j))
      \<and> (\<forall>j < i. hy_estimated_cost (hs ! i) < hy_estimated_cost (hs ! j)))"

lemma first_minimum_unique: "first_minimum hs i \<Longrightarrow> first_minimum hs j \<Longrightarrow> i = j"
  unfolding first_minimum_def by (metis leD linorder_neqE_nat)

lemma first_minimum_snoc:
  assumes "first_minimum hs i"
  shows "first_minimum (hs @ [h])
    (if hy_estimated_cost h < hy_estimated_cost (hs ! i) then length hs else i)"
  using assms unfolding first_minimum_def
  by (auto simp: nth_append less_Suc_eq not_less intro: less_le_trans dest: order.strict_implies_order)

lemma pick_cheapest_first_minimum:
  "hs \<noteq> [] \<Longrightarrow> \<exists>i. first_minimum hs i \<and> pick_cheapest hs = Some (hs ! i)"
proof (induction hs rule: rev_induct)
  case (snoc h hs)
  show ?case
  proof (cases "hs = []")
    case True
    then show ?thesis by (intro exI[of _ 0]) (simp add: pick_cheapest_def keep_cheaper_def first_minimum_def)
  next
    case False
    with snoc.IH obtain i where i: "first_minimum hs i" "pick_cheapest hs = Some (hs ! i)" by blast
    let ?k = "if hy_estimated_cost h < hy_estimated_cost (hs ! i) then length hs else i"
    from i(1) have "i < length hs" by (simp add: first_minimum_def)
    with i(2) have "pick_cheapest (hs @ [h]) = Some ((hs @ [h]) ! ?k)"
      by (simp add: pick_cheapest_snoc keep_cheaper_def nth_append)
    with first_minimum_snoc[OF i(1)] show ?thesis by (intro exI[of _ ?k] conjI)
  qed
qed simp

subsection \<open>Properties\<close>

text \<open>The \<^verbatim>\<open>u32\<close> sum of a score never wraps: read as a number it is the sum of its parts, it lies
  between 310 and 470, and it falls by one for every unit of estimated cost up to 100.\<close>

theorem score_hypothesis_bounds:
  "unat (ps_total (score_hypothesis h)) =
     unat (ps_plausibility (score_hypothesis h)) + unat (ps_impact (score_hypothesis h))
     + unat (ps_novelty (score_hypothesis h)) + unat (ps_information_gain (score_hypothesis h))
     + unat (ps_cascade_potential (score_hypothesis h))
     + (100 - min (unat (hy_estimated_cost h)) 100) + (100 - unat (ps_risk (score_hypothesis h)))
   \<and> 310 \<le> unat (ps_total (score_hypothesis h)) \<and> unat (ps_total (score_hypothesis h)) \<le> 470
   \<and> unat (ps_total (score_hypothesis (h\<lparr>hy_estimated_cost := 0\<rparr>)))
       = unat (ps_total (score_hypothesis h)) + min (unat (hy_estimated_cost h)) 100"
proof -
  have risk: "unat (ps_risk (score_hypothesis h)) = 20"
    by (simp add: score_hypothesis_def Let_def)
  have same: "ps_impact (score_hypothesis (h\<lparr>hy_estimated_cost := 0\<rparr>)) = ps_impact (score_hypothesis h)"
    "ps_novelty (score_hypothesis (h\<lparr>hy_estimated_cost := 0\<rparr>)) = ps_novelty (score_hypothesis h)"
    by (simp_all add: score_hypothesis_def Let_def)
  show ?thesis
    using score_parts(2,3)[of h] by (auto simp: score_total_nat score_parts(1,4,5) risk same)
qed

text \<open>\<^verbatim>\<open>pick_cheapest\<close> returns nothing exactly for no hypotheses, and otherwise the first of those
  with the least estimated cost.\<close>

theorem pick_cheapest_iff:
  "pick_cheapest hs = r \<longleftrightarrow>
     (hs = [] \<and> r = None) \<or> (\<exists>i. first_minimum hs i \<and> r = Some (hs ! i))"
proof (cases "hs = []")
  case True
  then show ?thesis by (auto simp: pick_cheapest_def first_minimum_def)
next
  case False
  with pick_cheapest_first_minimum obtain i where "first_minimum hs i" "pick_cheapest hs = Some (hs ! i)"
    by blast
  with False show ?thesis by (auto dest: first_minimum_unique)
qed

end
