(* ===== verification/Ipc_Frame.thy ===== *)
theory Ipc_Frame
  imports Prelude Rust_Str
begin

unbundle bit_operations_syntax

text \<open>
  \<^verbatim>\<open>aros-ipc/src/messages.rs\<close> and \<^verbatim>\<open>aros-ipc/src/frame.rs\<close>: the messages between the supervisor and
  the research worker, and the length-prefixed frames that carry them over a byte stream. The protobuf
  codec (crate prost) is the pair of functions \<open>prost_encode\<close> and \<open>prost_decode\<close>; a stream is what the
  peer has sent, what was sent to it, how many more bytes the
  transport takes before it fails, and what flushing it returns.
\<close>

subsection \<open>Messages (messages.rs)\<close>

definition PROTOCOL_VERSION :: u32 where
  "PROTOCOL_VERSION = 1"

definition DEFAULT_MAX_FRAME_BYTES :: u32 where
  "DEFAULT_MAX_FRAME_BYTES = 4 * 1024 * 1024"

record hello =
  he_worker_kind :: string
  he_python_version :: string
  he_token :: string

record hello_ack =
  ha_daemon_version :: string
  ha_max_frame_bytes :: u32
  ha_campaign_id :: string
  ha_manifest_hash :: string

record tool_intent_msg =
  tm_capability :: string
  tm_argv :: "string list"
  tm_cwd :: "string option"
  tm_path :: "string option"
  tm_host :: "string option"
  tm_port :: "u32 option"
  tm_protocol :: "string option"
  tm_timeout_ms :: u64
  tm_http_target :: "string option"
  tm_http_cookie :: "string option"

record intent_result =
  ir_decision :: string
  ir_reason :: string
  ir_exit_status :: "i32 option"
  ir_stdout_digest :: "string option"

record heartbeat =
  hb_unix_ms :: u64

record error_msg =
  em_code :: string
  em_message :: string

record shutdown =
  sd_reason :: string

datatype (plugins only: code size) kind =
    Hello hello
  | HelloAck hello_ack
  | ToolIntent tool_intent_msg
  | IntentResult intent_result
  | Heartbeat heartbeat
  | Error error_msg
  | Shutdown shutdown

record envelope =
  en_protocol_version :: u32
  en_request_id :: string
  en_kind :: "kind option"

subsection \<open>Streams\<close>

datatype io_error = UnexpectedEof | BrokenPipe

datatype ipc_error =
    IE_Io io_error
  | FrameTooLarge u32 u32
  | Decode
  | Protocol u32
  | EmptyKind

record ipc_stream =
  st_in :: bytes
  st_out :: bytes
  st_room :: "nat option"
  st_flush :: "ipc_error + unit"

text \<open>An end of file leaves nothing to read.\<close>

definition read_exact :: "nat \<Rightarrow> ipc_stream \<Rightarrow> (ipc_error + bytes) \<times> ipc_stream" where
  "read_exact n s =
     (if length (st_in s) < n then (Inl (IE_Io UnexpectedEof), s\<lparr>st_in := []\<rparr>)
      else (Inr (take n (st_in s)), s\<lparr>st_in := drop n (st_in s)\<rparr>))"

text \<open>\<open>write_all\<close> reports failure together with the stream, since a failing transport may have taken a
  prefix of the data.\<close>

definition write_all :: "bytes \<Rightarrow> ipc_stream \<Rightarrow> (ipc_error + unit) \<times> ipc_stream" where
  "write_all bs s =
     (case st_room s of
        None \<Rightarrow> (Inr (), s\<lparr>st_out := st_out s @ bs\<rparr>)
      | Some n \<Rightarrow>
          if length bs \<le> n then (Inr (), s\<lparr>st_out := st_out s @ bs, st_room := Some (n - length bs)\<rparr>)
          else (Inl (IE_Io BrokenPipe), s\<lparr>st_out := st_out s @ take n bs, st_room := Some 0\<rparr>))"

definition put_u32 :: "u32 \<Rightarrow> bytes" where
  "put_u32 w = map (\<lambda>i. ucast (drop_bit i w)) [24, 16, 8, 0]"

definition get_u32 :: "bytes \<Rightarrow> u32" where
  "get_u32 bs =
     push_bit 24 (ucast (bs ! 0)) OR push_bit 16 (ucast (bs ! 1)) OR push_bit 8 (ucast (bs ! 2))
     OR ucast (bs ! 3)"

subsection \<open>Frames (frame.rs)\<close>

definition write_envelope ::
    "(envelope \<Rightarrow> bytes option) \<Rightarrow> ipc_stream \<Rightarrow> envelope \<Rightarrow> u32 \<Rightarrow> (ipc_error + unit) \<times> ipc_stream" where
  "write_envelope prost_encode s env max_frame =
     (case prost_encode env of
        None \<Rightarrow> (Inl Decode, s)
      | Some buf \<Rightarrow>
          let len = (of_nat (length buf) :: u32)
          in if max_frame < len then (Inl (FrameTooLarge max_frame len), s)
             else (case write_all (put_u32 len) s of
                     (Inl e, s') \<Rightarrow> (Inl e, s')
                   | (Inr _, s') \<Rightarrow>
                       (case write_all buf s' of
                          (Inl e, s'') \<Rightarrow> (Inl e, s'')
                        | (Inr _, s'') \<Rightarrow> (st_flush s'', s''))))"

definition check_envelope :: "envelope option \<Rightarrow> ipc_error + envelope" where
  "check_envelope decoded =
     (case decoded of
        None \<Rightarrow> Inl Decode
      | Some env \<Rightarrow>
          if en_protocol_version env \<noteq> PROTOCOL_VERSION then Inl (Protocol (en_protocol_version env))
          else if en_kind env = None then Inl EmptyKind
          else Inr env)"

definition read_envelope ::
    "(bytes \<Rightarrow> envelope option) \<Rightarrow> ipc_stream \<Rightarrow> u32 \<Rightarrow> (ipc_error + envelope) \<times> ipc_stream" where
  "read_envelope prost_decode s max_frame =
     (case read_exact 4 s of
        (Inl e, s1) \<Rightarrow> (Inl e, s1)
      | (Inr header, s1) \<Rightarrow>
          let len = get_u32 header
          in if max_frame < len then (Inl (FrameTooLarge max_frame len), s1)
             else if len = 0 then (Inl Decode, s1)
             else (case read_exact (unat len) s1 of
                     (Inl e, s2) \<Rightarrow> (Inl e, s2)
                   | (Inr payload, s2) \<Rightarrow> (check_envelope (prost_decode payload), s2)))"

definition validate_hello :: "envelope \<Rightarrow> ipc_error + unit" where
  "validate_hello env =
     (if en_protocol_version env \<noteq> PROTOCOL_VERSION then Inl (Protocol (en_protocol_version env))
      else Inr ())"

definition default_max_frame :: u32 where
  "default_max_frame = DEFAULT_MAX_FRAME_BYTES"

subsection \<open>Specification\<close>

definition frame :: "bytes \<Rightarrow> bytes" where
  "frame buf = put_u32 (of_nat (length buf)) @ buf"

text \<open>What makes an envelope travel: the codec reads back what it wrote, the text is not empty (the
  version field is never the protobuf default) and fits the limit.\<close>

definition sendable ::
    "(envelope \<Rightarrow> bytes option) \<Rightarrow> (bytes \<Rightarrow> envelope option) \<Rightarrow> u32 \<Rightarrow> envelope \<Rightarrow> bool" where
  "sendable prost_encode prost_decode max_frame env =
     (case prost_encode env of
        None \<Rightarrow> False
      | Some buf \<Rightarrow> prost_decode buf = Some env \<and> buf \<noteq> [] \<and> length buf \<le> unat max_frame
                    \<and> en_protocol_version env = PROTOCOL_VERSION \<and> en_kind env \<noteq> None)"

text \<open>The peer's view: read envelopes until none is left, and what stopped it.\<close>

fun receive :: "(bytes \<Rightarrow> envelope option) \<Rightarrow> u32 \<Rightarrow> nat \<Rightarrow> ipc_stream \<Rightarrow> envelope list \<times> ipc_error option" where
  "receive prost_decode max_frame 0 s = ([], None)"
| "receive prost_decode max_frame (Suc n) s =
     (case read_envelope prost_decode s max_frame of
        (Inl e, _) \<Rightarrow> ([], Some e)
      | (Inr env, s') \<Rightarrow>
          (case receive prost_decode max_frame n s' of (envs, e) \<Rightarrow> (env # envs, e)))"

fun send :: "(envelope \<Rightarrow> bytes option) \<Rightarrow> u32 \<Rightarrow> envelope list \<Rightarrow> ipc_stream \<Rightarrow> ipc_stream" where
  "send prost_encode max_frame [] s = s"
| "send prost_encode max_frame (env # envs) s =
     (case write_envelope prost_encode s env max_frame of
        (Inl e, s') \<Rightarrow> s'
      | (Inr _, s') \<Rightarrow> send prost_encode max_frame envs s')"

definition fresh_stream :: "bytes \<Rightarrow> ipc_stream" where
  "fresh_stream bs = \<lparr>st_in = bs, st_out = [], st_room = None, st_flush = Inr ()\<rparr>"

subsection \<open>Lemmas\<close>

lemma length_put_u32 [simp]: "length (put_u32 w) = 4"
  by (simp add: put_u32_def)

lemma get_put_u32 [simp]: "get_u32 (put_u32 w @ rest) = w"
proof (rule bit_word_eqI)
  fix n
  assume "n < LENGTH(32)"
  then have n: "n < 32" by simp
  have "bit (get_u32 (put_u32 w @ rest)) n \<longleftrightarrow>
      (24 \<le> n \<and> bit w n) \<or> (16 \<le> n \<and> n < 24 \<and> bit w n) \<or> (8 \<le> n \<and> n < 16 \<and> bit w n)
      \<or> (n < 8 \<and> bit w n)"
    using n by (auto simp: get_u32_def put_u32_def bit_simps nth_Cons')
  also have "\<dots> \<longleftrightarrow> bit w n" using n by linarith
  finally show "bit (get_u32 (put_u32 w @ rest)) n \<longleftrightarrow> bit w n" .
qed

lemma get_put_u32_take [simp]: "get_u32 (take 4 (put_u32 w @ rest)) = w"
  using get_put_u32[of w "[]"] by simp

lemma put_get_u32:
  assumes "length bs = 4"
  shows "put_u32 (get_u32 bs) = bs"
proof -
  obtain a b c d where bs: "bs = [a, b, c, d]"
    using assms by (auto simp: numeral_eq_Suc length_Suc_conv)
  have high: "\<not> bit (x :: u8) (8 + n)" "\<not> bit x (16 + n)" "\<not> bit x (24 + n)" for x n
    using bit_imp_le_length[of x "8 + n"] bit_imp_le_length[of x "16 + n"] bit_imp_le_length[of x "24 + n"]
    by auto
  show ?thesis
    unfolding bs put_u32_def get_u32_def by (auto intro!: bit_word_eqI simp: bit_simps high)
qed

lemma unat_of_length: "length buf \<le> unat (m :: u32) \<Longrightarrow> unat (of_nat (length buf) :: u32) = length buf"
proof -
  assume "length buf \<le> unat m"
  moreover have "unat m < 2 ^ 32" using unsigned_less[of m, where ?'a = nat] by simp
  ultimately have "length buf < 2 ^ 32" by (rule le_less_trans)
  then show ?thesis by (simp add: unsigned_of_nat take_bit_nat_eq_self)
qed

lemma length_frame [simp]: "length (frame buf) = 4 + length buf"
  by (simp add: frame_def)

lemma read_exact_append [simp]:
  "st_in s = xs @ rest \<Longrightarrow> length xs = n \<Longrightarrow> read_exact n s = (Inr xs, s\<lparr>st_in := rest\<rparr>)"
  by (simp add: read_exact_def)

lemma read_exact_Inr: "read_exact n s = (Inr xs, s') \<longleftrightarrow>
    length xs = n \<and> st_in s = xs @ st_in s' \<and> s' = s\<lparr>st_in := st_in s'\<rparr>"
  by (cases s; cases s') (auto simp: read_exact_def)

lemma check_envelope_Inr: "check_envelope d = Inr env \<longleftrightarrow>
    d = Some env \<and> en_protocol_version env = PROTOCOL_VERSION \<and> en_kind env \<noteq> None"
  by (auto simp: check_envelope_def split: option.splits)

lemma read_envelope_Inr:
  "read_envelope prost_decode s max_frame = (Inr env, s') \<longleftrightarrow>
     (\<exists>buf. st_in s = frame buf @ st_in s' \<and> s' = s\<lparr>st_in := st_in s'\<rparr> \<and> buf \<noteq> []
        \<and> length buf \<le> unat max_frame \<and> prost_decode buf = Some env
        \<and> en_protocol_version env = PROTOCOL_VERSION \<and> en_kind env \<noteq> None)"
  (is "?l \<longleftrightarrow> ?r")
proof
  assume ?l
  then obtain header s1 payload where h: "read_exact 4 s = (Inr header, s1)"
    "get_u32 header \<le> max_frame" "get_u32 header \<noteq> 0"
    "read_exact (unat (get_u32 header)) s1 = (Inr payload, s')"
    "prost_decode payload = Some env" "en_protocol_version env = PROTOCOL_VERSION" "en_kind env \<noteq> None"
    unfolding read_envelope_def
    by (auto simp: check_envelope_Inr Let_def split: prod.splits sum.splits if_splits)
  have len: "length payload = unat (get_u32 header)" using h(4) by (simp add: read_exact_Inr)
  then have "put_u32 (of_nat (length payload)) = header"
    using h(1) by (simp add: put_get_u32 read_exact_Inr)
  then have "st_in s = frame payload @ st_in s'" "s' = s\<lparr>st_in := st_in s'\<rparr>"
    using h(1,4) by (auto simp: frame_def read_exact_Inr)
  moreover have "payload \<noteq> []" using len h(3) by (auto simp: unat_eq_0)
  ultimately show ?r using h len by (auto simp: word_le_nat_alt)
next
  assume ?r
  then obtain buf where b: "st_in s = frame buf @ st_in s'" "s' = s\<lparr>st_in := st_in s'\<rparr>" "buf \<noteq> []"
    "length buf \<le> unat max_frame" "prost_decode buf = Some env"
    "en_protocol_version env = PROTOCOL_VERSION" "en_kind env \<noteq> None" by blast
  note len = unat_of_length[OF b(4)]
  have "read_exact 4 s = (Inr (put_u32 (of_nat (length buf))), s\<lparr>st_in := buf @ st_in s'\<rparr>)"
    using b(1) by (simp add: frame_def)
  moreover have "read_exact (length buf) (s\<lparr>st_in := buf @ st_in s'\<rparr>) = (Inr buf, s\<lparr>st_in := st_in s'\<rparr>)"
    by simp
  moreover have "(of_nat (length buf) :: u32) \<noteq> 0" using len b(3) by (metis length_0_conv unat_0)
  moreover have "\<not> max_frame < of_nat (length buf)" using len b(4) by (simp add: word_less_nat_alt)
  ultimately show ?l
    using b get_put_u32[of "of_nat (length buf)" "[]"] len
    unfolding read_envelope_def by (simp add: Let_def check_envelope_def)
qed

lemma read_envelope_frame:
  assumes "sendable prost_encode prost_decode max_frame env" "prost_encode env = Some buf"
  shows "read_envelope prost_decode (s\<lparr>st_in := frame buf @ rest\<rparr>) max_frame = (Inr env, s\<lparr>st_in := rest\<rparr>)"
  using assms by (auto simp: read_envelope_Inr sendable_def)

text \<open>A frame that was cut short is reported as an end of file, never as an envelope.\<close>

lemma read_envelope_cut:
  assumes "strict_prefix (st_in s) (frame buf)" "buf \<noteq> []" "length buf \<le> unat max_frame"
  shows "read_envelope prost_decode s max_frame = (Inl (IE_Io UnexpectedEof), s\<lparr>st_in := []\<rparr>)"
proof (cases "length (st_in s) < 4")
  case True
  then show ?thesis by (simp add: read_envelope_def read_exact_def)
next
  case False
  let ?w = "of_nat (length buf) :: u32"
  note len = unat_of_length[OF assms(3)]
  from assms(1) obtain z where z: "frame buf = st_in s @ z" "z \<noteq> []" by (auto simp: strict_prefix_def prefix_def)
  with False have "st_in s = put_u32 ?w @ drop 4 (st_in s)"
    by (metis append_eq_append_conv_if append_take_drop_id frame_def length_put_u32 not_less)
  then obtain y where y: "st_in s = put_u32 ?w @ y" by blast
  with z have "length y < length buf" by (auto simp: frame_def)
  moreover have "?w \<noteq> 0" using len assms(2) by (metis length_0_conv unat_0)
  moreover have "\<not> max_frame < ?w" using len assms(3) by (simp add: word_less_nat_alt)
  moreover have "read_exact 4 s = (Inr (put_u32 ?w), s\<lparr>st_in := y\<rparr>)" using y by simp
  ultimately show ?thesis
    using get_put_u32[of ?w "[]"] len by (simp add: read_envelope_def Let_def read_exact_def)
qed

lemma write_all_out:
  "\<exists>sent. st_out (snd (write_all bs s)) = st_out s @ sent \<and> prefix sent bs
     \<and> (fst (write_all bs s) = Inr () \<longrightarrow> sent = bs)"
  by (auto simp: write_all_def take_is_prefix split: option.splits)

lemma write_all_room:
  "st_room s = None \<Longrightarrow> write_all bs s = (Inr (), s\<lparr>st_out := st_out s @ bs\<rparr>)"
  by (simp add: write_all_def)

lemma write_envelope_out:
  assumes "sendable prost_encode prost_decode max_frame env" "prost_encode env = Some buf"
    "write_envelope prost_encode s env max_frame = (r, s')"
  obtains "st_out s' = st_out s @ frame buf"
    | sent e where "r = Inl e" "st_out s' = st_out s @ sent" "strict_prefix sent (frame buf)"
proof -
  let ?w = "of_nat (length buf) :: u32"
  have fits: "\<not> max_frame < ?w"
    using assms(1,2) unat_of_length[of buf max_frame] by (simp add: sendable_def word_less_nat_alt)
  obtain r1 s1 where 1: "write_all (put_u32 ?w) s = (r1, s1)" by (cases "write_all (put_u32 ?w) s")
  obtain x where x: "st_out s1 = st_out s @ x" "prefix x (put_u32 ?w)" "r1 = Inr () \<longrightarrow> x = put_u32 ?w"
    using write_all_out[of "put_u32 ?w" s] 1 by auto
  obtain r2 s2 where 2: "write_all buf s1 = (r2, s2)" by (cases "write_all buf s1")
  obtain y where y: "st_out s2 = st_out s1 @ y" "prefix y buf" "r2 = Inr () \<longrightarrow> y = buf"
    using write_all_out[of buf s1] 2 by auto
  show thesis
  proof (cases r1)
    case (Inl e)
    then have "r = Inl e" "s' = s1" using assms(2,3) 1 fits by (auto simp: write_envelope_def Let_def)
    moreover have "strict_prefix x (frame buf)"
      using x(2) sendable_def assms(1,2) by (fastforce simp: frame_def strict_prefix_def prefix_def)
    ultimately show thesis using that(2) x(1) by blast
  next
    case (Inr u)
    then have x': "x = put_u32 ?w" using x(3) by simp
    show thesis
    proof (cases r2)
      case (Inl e)
      then have "r = Inl e" "s' = s2" using assms(2,3) 1 2 fits Inr by (auto simp: write_envelope_def Let_def)
      then show thesis
        using that x' x(1) y(1,2) by (cases "y = buf") (auto simp: frame_def strict_prefix_def)
    next
      case (Inr u')
      then have "s' = s2" using assms(2,3) 1 2 fits \<open>r1 = Inr u\<close> by (auto simp: write_envelope_def Let_def)
      then show thesis using that(1) x' x(1) y(1,3) Inr by (simp add: frame_def)
    qed
  qed
qed

lemma write_envelope_room:
  assumes "sendable prost_encode prost_decode max_frame env" "prost_encode env = Some buf"
    "st_room s = None" "st_flush s = Inr ()"
  shows "write_envelope prost_encode s env max_frame = (Inr (), s\<lparr>st_out := st_out s @ frame buf\<rparr>)"
  using assms unat_of_length[of buf max_frame]
  by (simp add: sendable_def write_envelope_def Let_def word_less_nat_alt write_all_room frame_def)

lemma receive_nothing:
  "receive prost_decode max_frame n (r\<lparr>st_in := []\<rparr>) = ([], if n = 0 then None else Some (IE_Io UnexpectedEof))"
  by (cases n) (simp_all add: read_envelope_def read_exact_def)

lemma receive_frame:
  assumes "sendable prost_encode prost_decode max_frame env" "prost_encode env = Some buf"
    and "receive prost_decode max_frame n (r\<lparr>st_in := rest\<rparr>) = (envs, e)"
  shows "receive prost_decode max_frame (Suc n) (r\<lparr>st_in := frame buf @ rest\<rparr>) = (env # envs, e)"
  using assms(3) by (simp add: read_envelope_frame[OF assms(1,2)])

text \<open>What arrives when sending stopped after any number of bytes.\<close>

definition delivered ::
    "(bytes \<Rightarrow> envelope option) \<Rightarrow> u32 \<Rightarrow> envelope list \<Rightarrow> bytes \<Rightarrow> nat \<Rightarrow> bool" where
  "delivered prost_decode max_frame envs sent k =
     (k \<le> length envs \<and> (\<forall>r. receive prost_decode max_frame (length envs) (r\<lparr>st_in := sent\<rparr>) =
        (take k envs, if k = length envs then None else Some (IE_Io UnexpectedEof))))"

lemma delivered_Cons:
  assumes "sendable prost_encode prost_decode max_frame env" "prost_encode env = Some buf"
    "delivered prost_decode max_frame envs sent k"
  shows "delivered prost_decode max_frame (env # envs) (frame buf @ sent) (Suc k)"
proof -
  have "receive prost_decode max_frame (Suc (length envs)) (r\<lparr>st_in := frame buf @ sent\<rparr>) =
      (env # take k envs, if k = length envs then None else Some (IE_Io UnexpectedEof))" for r
    using assms(3) by (intro receive_frame[OF assms(1,2)]) (simp add: delivered_def)
  with assms(3) show ?thesis by (simp add: delivered_def)
qed

lemma send_delivers:
  assumes "\<forall>env \<in> set envs. sendable prost_encode prost_decode max_frame env"
  shows "\<exists>sent k. st_out (send prost_encode max_frame envs s) = st_out s @ sent
    \<and> delivered prost_decode max_frame envs sent k
    \<and> (st_room s = None \<and> st_flush s = Inr () \<longrightarrow> k = length envs)"
  using assms
proof (induction envs arbitrary: s)
  case Nil
  show ?case by (rule exI[of _ "[]"]) (simp add: delivered_def)
next
  case (Cons env envs)
  from Cons.prems have ok: "sendable prost_encode prost_decode max_frame env" by simp
  then obtain buf where buf: "prost_encode env = Some buf" by (auto simp: sendable_def split: option.splits)
  obtain res s' where w: "write_envelope prost_encode s env max_frame = (res, s')" by fastforce
  have free: "res = Inr () \<and> s' = s\<lparr>st_out := st_out s @ frame buf\<rparr>"
    if "st_room s = None" "st_flush s = Inr ()"
    using write_envelope_room[OF ok buf that] w by simp
  from ok buf w consider "st_out s' = st_out s @ frame buf"
    | sent e where "res = Inl e" "st_out s' = st_out s @ sent" "strict_prefix sent (frame buf)"
    by (rule write_envelope_out)
  then show ?case
  proof cases
    case 1
    show ?thesis
    proof (cases res)
      case (Inl e)
      have "delivered prost_decode max_frame envs [] 0" by (auto simp: delivered_def receive_nothing)
      from delivered_Cons[OF ok buf this] 1 Inl free w show ?thesis
        by (intro exI[of _ "frame buf"] exI[of _ "Suc 0"]) auto
    next
      case (Inr u)
      from Cons.IH[of s'] Cons.prems obtain sent k where
        k: "st_out (send prost_encode max_frame envs s') = st_out s' @ sent"
        "delivered prost_decode max_frame envs sent k"
        "st_room s' = None \<and> st_flush s' = Inr () \<longrightarrow> k = length envs" by auto
      from delivered_Cons[OF ok buf k(2)] k(1,3) 1 Inr free w show ?thesis
        by (intro exI[of _ "frame buf @ sent"] exI[of _ "Suc k"]) auto
    qed
  next
    case (2 sent e)
    have "delivered prost_decode max_frame (env # envs) sent 0"
      using read_envelope_cut[of "_\<lparr>st_in := sent\<rparr>" buf max_frame prost_decode] 2(3) ok buf
      by (auto simp: delivered_def sendable_def)
    with 2 free w show ?thesis by (intro exI[of _ sent] exI[of _ 0]) auto
  qed
qed

subsection \<open>Properties\<close>

text \<open>C23. Frames and crashes: whatever happens to the transport while a sequence of envelopes is
  written (a write cut after any byte, a failing flush), the peer receives exactly a prefix of that
  sequence and then an end of file; it never receives an altered envelope. When nothing fails it
  receives all of them, in order.\<close>

theorem frame_stream_roundtrip:
  assumes "\<forall>env \<in> set envs. sendable prost_encode prost_decode max_frame env"
  shows "\<exists>k. k \<le> length envs
    \<and> receive prost_decode max_frame (length envs)
        (fresh_stream (st_out (send prost_encode max_frame envs
           \<lparr>st_in = [], st_out = [], st_room = room, st_flush = fl\<rparr>)))
      = (take k envs, if k = length envs then None else Some (IE_Io UnexpectedEof))
    \<and> (room = None \<and> fl = Inr () \<longrightarrow> k = length envs)"
proof -
  let ?s = "\<lparr>st_in = [], st_out = [], st_room = room, st_flush = fl\<rparr>"
  obtain sent k where "st_out (send prost_encode max_frame envs ?s) = sent"
    "delivered prost_decode max_frame envs sent k" "room = None \<and> fl = Inr () \<longrightarrow> k = length envs"
    using send_delivers[OF assms, of ?s] by auto
  moreover have "fresh_stream sent = (fresh_stream [])\<lparr>st_in := sent\<rparr>" by (simp add: fresh_stream_def)
  ultimately show ?thesis by (auto simp: delivered_def)
qed

definition demo_envelope :: envelope where
  "demo_envelope = \<lparr>en_protocol_version = 1, en_request_id = ''r1'',
     en_kind = Some (Hello \<lparr>he_worker_kind = ''research'', he_python_version = ''3.14'', he_token = ''t''\<rparr>)\<rparr>"

definition demo_encode :: "envelope \<Rightarrow> bytes option" where
  "demo_encode env = Some [1, 2, 3]"

definition demo_decode :: "bytes \<Rightarrow> envelope option" where
  "demo_decode bs = (if bs = [1, 2, 3] then Some demo_envelope else None)"

lemma demo_sendable: "sendable demo_encode demo_decode default_max_frame demo_envelope"
  by (simp add: sendable_def demo_encode_def demo_decode_def demo_envelope_def PROTOCOL_VERSION_def
      default_max_frame_def DEFAULT_MAX_FRAME_BYTES_def)

theorem frame_stream_roundtrip_witness:
  "receive demo_decode default_max_frame (length [demo_envelope, demo_envelope]) (fresh_stream (st_out (send demo_encode default_max_frame
     [demo_envelope, demo_envelope] (fresh_stream [])))) = ([demo_envelope, demo_envelope], None)"
  using frame_stream_roundtrip[of "[demo_envelope, demo_envelope]" demo_encode demo_decode
    default_max_frame None "Inr ()"] demo_sendable
  by (auto simp: fresh_stream_def simp del: send.simps receive.simps list.size)

text \<open>Reading a frame: it succeeds exactly on a non-empty payload of at most \<^verbatim>\<open>max_frame\<close> bytes
  behind its own big-endian length, which decodes to an envelope of the supported version that has a
  kind; it consumes the frame and nothing after it. A declared length above the limit is refused on
  the four header bytes alone.\<close>

theorem read_envelope_spec:
  "(read_envelope prost_decode s max_frame = (Inr env, s') \<longleftrightarrow>
     (\<exists>buf. st_in s = frame buf @ st_in s' \<and> s' = s\<lparr>st_in := st_in s'\<rparr> \<and> buf \<noteq> []
        \<and> length buf \<le> unat max_frame \<and> prost_decode buf = Some env
        \<and> en_protocol_version env = PROTOCOL_VERSION \<and> en_kind env \<noteq> None))
   \<and> (fst (read_envelope prost_decode s max_frame) = Inl (FrameTooLarge max_frame len) \<longleftrightarrow>
       (\<exists>rest. st_in s = put_u32 len @ rest) \<and> max_frame < len)"
proof -
  have check: "check_envelope d \<noteq> Inl (FrameTooLarge m l)" for d m l
    by (auto simp: check_envelope_def split: option.splits)
  have "fst (read_envelope prost_decode s max_frame) = Inl (FrameTooLarge max_frame len) \<longleftrightarrow>
       4 \<le> length (st_in s) \<and> get_u32 (take 4 (st_in s)) = len \<and> max_frame < len"
    unfolding read_envelope_def by (auto simp: check Let_def read_exact_def)
  moreover have "4 \<le> length (st_in s) \<and> get_u32 (take 4 (st_in s)) = len \<longleftrightarrow> (\<exists>rest. st_in s = put_u32 len @ rest)"
    using put_get_u32[of "take 4 (st_in s)"] get_put_u32[of len "[]"] append_take_drop_id[of 4 "st_in s"]
    by (auto intro: exI[of _ "drop 4 (st_in s)"])
  ultimately show ?thesis using read_envelope_Inr by blast
qed

text \<open>The limit of \<^verbatim>\<open>write_envelope\<close> is tested on the length modulo \<open>2\<^sup>3\<^sup>2\<close>: a payload of 4 GiB or
  more can pass it, and its frame then declares only the low 32 bits of its length, so the peer
  takes a proper prefix of the payload for the whole and the rest for further frames.\<close>

theorem write_envelope_wraps:
  assumes "prost_encode env = Some buf" "2 ^ 32 \<le> length buf" "length buf mod 2 ^ 32 \<le> unat max_frame"
    "st_room s = None" "st_flush s = Inr ()"
  shows "write_envelope prost_encode s env max_frame =
      (Inr (), s\<lparr>st_out := st_out s @ frame (take (length buf mod 2 ^ 32) buf) @ drop (length buf mod 2 ^ 32) buf\<rparr>)"
proof -
  let ?m = "length buf mod 2 ^ 32"
  have w: "(of_nat (length buf) :: u32) = of_nat ?m"
    by (rule unsigned_word_eqI[where ?'a = nat]) (simp add: unsigned_of_nat take_bit_eq_mod)
  have "unat (of_nat (length buf) :: u32) = ?m" by (simp add: unsigned_of_nat take_bit_eq_mod)
  moreover have "length (take ?m buf) = ?m" using mod_less_eq_dividend[of "length buf" "2 ^ 32"] by simp
  then have "frame (take ?m buf) = put_u32 (of_nat (length buf)) @ take ?m buf" unfolding frame_def w by simp
  ultimately show ?thesis
    using assms by (simp add: write_envelope_def Let_def word_less_nat_alt write_all_room)
qed

theorem write_envelope_wraps_witness:
  "fst (write_envelope (\<lambda>_. Some (replicate (2 ^ 32 + 1) 0)) (fresh_stream []) demo_envelope default_max_frame)
     = Inr ()"
  using write_envelope_wraps[of "\<lambda>_. Some (replicate (2 ^ 32 + 1) 0)" demo_envelope
    "replicate (2 ^ 32 + 1) 0" default_max_frame "fresh_stream []"]
  by (simp add: fresh_stream_def default_max_frame_def DEFAULT_MAX_FRAME_BYTES_def del: replicate.simps)

end
