(* ===== verification/Ipc_Session.thy ===== *)
theory Ipc_Session
  imports Ipc_Frame
begin

text \<open>
  \<^verbatim>\<open>aros-ipc/src/session.rs\<close>: the supervisor of the research worker. Its state is the record
  \<open>worker_supervisor\<close>; binding, launching, the handshake and the two directions of traffic are
  functions on it. What the operating system answers (accepting a connection, canonical paths,
  starting a process) is an argument. The lemmas show that only a peer that presented the token of
  this supervisor becomes its stream, that the launched container is isolated and that the token is
  on no command line.
\<close>

subsection \<open>State (session.rs, branding.rs)\<close>

datatype session_error =
    SX_Io io_error
  | SX_Ipc ipc_error
  | SX_Timeout
  | NotHello
  | NoStream
  | BadToken
  | SX_Transport string
  | SX_Container string

datatype worker_endpoint = EP_Tcp string | EP_Unix string

record child =
  ch_try_wait :: "io_error + i32 option"

record worker_supervisor =
  ws_listener_addr :: string
  ws_expected_token :: string
  ws_endpoint :: worker_endpoint
  ws_child :: "child option"
  ws_stream :: "ipc_stream option"

definition ENV_PREFIX :: string where
  "ENV_PREFIX = ''AROS''"

definition env_name :: "string \<Rightarrow> string" where
  "env_name nm = ENV_PREFIX @ ''_'' @ nm"

subsection \<open>Binding\<close>

definition bind_loopback :: "session_error + string \<Rightarrow> string \<Rightarrow> session_error + worker_supervisor" where
  "bind_loopback bound token =
     res_bind bound (\<lambda>address.
       Inr \<lparr>ws_listener_addr = address, ws_expected_token = token, ws_endpoint = EP_Tcp address,
            ws_child = None, ws_stream = None\<rparr>)"

text \<open>The file-system calls of \<^verbatim>\<open>bind_unix\<close>, in order; each may fail and ends the operation.\<close>

datatype fs_op =
    CreateDirAll string
  | SetPermissions string nat
  | RemoveFile string
  | BindSocket string

fun run_ops :: "(fs_op \<Rightarrow> io_error option) \<Rightarrow> fs_op list \<Rightarrow> (session_error + unit) \<times> fs_op list" where
  "run_ops fails [] = (Inr (), [])"
| "run_ops fails (op # ops) =
     (case fails op of
        Some e \<Rightarrow> (Inl (SX_Io e), [])
      | None \<Rightarrow> (case run_ops fails ops of (r, done_ops) \<Rightarrow> (r, op # done_ops)))"

definition bind_unix_ops :: "string option \<Rightarrow> bool \<Rightarrow> string \<Rightarrow> fs_op list" where
  "bind_unix_ops parent path_exists path =
     (case parent of None \<Rightarrow> [] | Some p \<Rightarrow> [CreateDirAll p, SetPermissions p 448])
     @ (if path_exists then [RemoveFile path] else [])
     @ [BindSocket path, SetPermissions path 384]"

definition bind_unix ::
    "(fs_op \<Rightarrow> io_error option) \<Rightarrow> string option \<Rightarrow> bool \<Rightarrow> string \<Rightarrow> string
      \<Rightarrow> (session_error + worker_supervisor) \<times> fs_op list" where
  "bind_unix fails parent path_exists token path =
     (case run_ops fails (bind_unix_ops parent path_exists path) of
        (Inl e, tr) \<Rightarrow> (Inl e, tr)
      | (Inr _, tr) \<Rightarrow>
          (Inr \<lparr>ws_listener_addr = path, ws_expected_token = token, ws_endpoint = EP_Unix path,
                ws_child = None, ws_stream = None\<rparr>, tr))"

subsection \<open>Launching\<close>

record command =
  cmd_program :: string
  cmd_args :: "string list"
  cmd_env :: "(string \<times> string) list"

definition containerized_run_args ::
    "string \<Rightarrow> string \<Rightarrow> string \<Rightarrow> string \<Rightarrow> string \<Rightarrow> string list" where
  "containerized_run_args python_mount socket_mount token_env_name img container_socket =
     [''run'', ''--rm'', ''--network=none'', ''--read-only'', ''--cap-drop=ALL'',
      ''--security-opt=no-new-privileges'', ''--pids-limit=128'', ''--memory=512m'', ''--cpus=1'',
      ''--tmpfs=/tmp:rw,noexec,nosuid,size=64m'', ''-v'', python_mount, ''-v'', socket_mount,
      ''-e'', ''PYTHONPATH=/opt/aros/python'', ''-e'', token_env_name, img, ''python3'', ''-m'',
      ''aros_research.worker'', ''--socket'', container_socket]"

text \<open>
  What the host answers while launching: the canonical directory of the socket (\<open>None\<close> when the path
  has no parent), its file name when that is valid text, the canonical Python path, whether it is a
  directory, and the result of starting the command.
\<close>

record host_view =
  hv_socket_dir :: "(io_error + string) option"
  hv_socket_name :: "string option"
  hv_python :: "io_error + string"
  hv_python_is_dir :: bool
  hv_spawn :: "command \<Rightarrow> io_error + child"

definition containerized_command ::
    "host_view \<Rightarrow> string \<Rightarrow> string \<Rightarrow> worker_supervisor \<Rightarrow> session_error + command" where
  "containerized_command hv podman img sv =
     (case ws_endpoint sv of
        EP_Tcp _ \<Rightarrow> Inl (SX_Container ''containerized worker requires Unix-socket IPC'')
      | EP_Unix _ \<Rightarrow>
          res_bind (ok_or (hv_socket_dir hv) (SX_Container ''worker socket has no parent'')) (\<lambda>dir.
          res_bind (map_err SX_Io dir) (\<lambda>socket_dir.
          res_bind (ok_or (hv_socket_name hv) (SX_Container ''worker socket name is invalid'')) (\<lambda>name.
          res_bind (map_err SX_Io (hv_python hv)) (\<lambda>source_python.
            if \<not> hv_python_is_dir hv then
              Inl (SX_Container ''PYTHONPATH mount is not a directory'')
            else
              let token_env = env_name ''WORKER_TOKEN''
              in Inr \<lparr>cmd_program = podman,
                      cmd_args = containerized_run_args (source_python @ '':/opt/aros/python:ro'')
                        (socket_dir @ '':/run/aros:rw'') token_env img (''/run/aros/'' @ name),
                      cmd_env = [(token_env, ws_expected_token sv)]\<rparr>)))))"

definition spawn_python_containerized ::
    "host_view \<Rightarrow> string \<Rightarrow> string \<Rightarrow> worker_supervisor \<Rightarrow> (session_error + unit) \<times> worker_supervisor" where
  "spawn_python_containerized hv podman img sv =
     (case containerized_command hv podman img sv of
        Inl e \<Rightarrow> (Inl e, sv)
      | Inr cmd \<Rightarrow>
          (case hv_spawn hv cmd of
             Inl e \<Rightarrow> (Inl (SX_Io e), sv)
           | Inr c \<Rightarrow> (Inr (), sv\<lparr>ws_child := Some c\<rparr>)))"

definition uncontained_command :: "string \<Rightarrow> string list \<Rightarrow> string \<Rightarrow> worker_supervisor \<Rightarrow> command" where
  "uncontained_command python extra_args pythonpath sv =
     \<lparr>cmd_program = python,
      cmd_args = [''-m'', ''aros_research.worker'']
        @ (case ws_endpoint sv of EP_Tcp a \<Rightarrow> [''--tcp'', a] | EP_Unix p \<Rightarrow> [''--socket'', p])
        @ extra_args,
      cmd_env = [(''PYTHONPATH'', pythonpath), (env_name ''WORKER_TOKEN'', ws_expected_token sv)]\<rparr>"

definition spawn_python_uncontained ::
    "(command \<Rightarrow> io_error + child) \<Rightarrow> string \<Rightarrow> string list \<Rightarrow> string \<Rightarrow> worker_supervisor
      \<Rightarrow> (session_error + unit) \<times> worker_supervisor" where
  "spawn_python_uncontained start python extra_args pythonpath sv =
     (case start (uncontained_command python extra_args pythonpath sv) of
        Inl e \<Rightarrow> (Inl (SX_Io e), sv)
      | Inr c \<Rightarrow> (Inr (), sv\<lparr>ws_child := Some c\<rparr>))"

subsection \<open>The session\<close>

definition hello_ack_for :: "string \<Rightarrow> envelope \<Rightarrow> envelope" where
  "hello_ack_for daemon_version env =
     \<lparr>en_protocol_version = PROTOCOL_VERSION, en_request_id = en_request_id env,
      en_kind = Some (HelloAck \<lparr>ha_daemon_version = daemon_version,
        ha_max_frame_bytes = default_max_frame, ha_campaign_id = [], ha_manifest_hash = []\<rparr>)\<rparr>"

text \<open>\<open>accepted\<close> is the connection the listener of either transport hands out (or a timeout or an I/O
  error); \<open>timed_out\<close> says that no whole frame arrived within ten seconds.\<close>

definition accept_hello ::
    "(envelope \<Rightarrow> bytes option) \<Rightarrow> (bytes \<Rightarrow> envelope option) \<Rightarrow> string \<Rightarrow> session_error + ipc_stream
      \<Rightarrow> bool \<Rightarrow> worker_supervisor \<Rightarrow> (session_error + string) \<times> worker_supervisor" where
  "accept_hello prost_encode prost_decode daemon_version accepted timed_out sv =
     (case accepted of
        Inl e \<Rightarrow> (Inl e, sv)
      | Inr stream \<Rightarrow>
          if timed_out then (Inl SX_Timeout, sv)
          else (case read_envelope prost_decode stream default_max_frame of
            (Inl e, _) \<Rightarrow> (Inl (SX_Ipc e), sv)
          | (Inr env, stream1) \<Rightarrow>
              (case en_kind env of
                 Some (Hello h) \<Rightarrow>
                   if he_token h \<noteq> ws_expected_token sv then (Inl BadToken, sv)
                   else (case write_envelope prost_encode stream1 (hello_ack_for daemon_version env)
                                default_max_frame of
                           (Inl e, _) \<Rightarrow> (Inl (SX_Ipc e), sv)
                         | (Inr _, stream2) \<Rightarrow>
                             (Inr (he_python_version h), sv\<lparr>ws_stream := Some stream2\<rparr>))
               | _ \<Rightarrow> (Inl NotHello, sv))))"

definition read_next ::
    "(bytes \<Rightarrow> envelope option) \<Rightarrow> worker_supervisor \<Rightarrow> (session_error + envelope) \<times> worker_supervisor" where
  "read_next prost_decode sv =
     (case ws_stream sv of
        None \<Rightarrow> (Inl NoStream, sv)
      | Some s \<Rightarrow>
          (case read_envelope prost_decode s default_max_frame of
             (r, s') \<Rightarrow> (map_err SX_Ipc r, sv\<lparr>ws_stream := Some s'\<rparr>)))"

definition write_next ::
    "(envelope \<Rightarrow> bytes option) \<Rightarrow> envelope \<Rightarrow> worker_supervisor \<Rightarrow> (session_error + unit) \<times> worker_supervisor" where
  "write_next prost_encode env sv =
     (case ws_stream sv of
        None \<Rightarrow> (Inl NoStream, sv)
      | Some s \<Rightarrow>
          (case write_envelope prost_encode s env default_max_frame of
             (r, s') \<Rightarrow> (map_err SX_Ipc r, sv\<lparr>ws_stream := Some s'\<rparr>)))"

definition worker_alive :: "worker_supervisor \<Rightarrow> bool" where
  "worker_alive sv =
     (case ws_child sv of
        Some c \<Rightarrow> Option.bind (res_ok (ch_try_wait c)) (\<lambda>status. status) = None
      | None \<Rightarrow> False)"

definition kill_worker :: "worker_supervisor \<Rightarrow> worker_supervisor" where
  "kill_worker sv = sv\<lparr>ws_child := None\<rparr>"

definition decode_hello_python_version ::
    "(bytes \<Rightarrow> envelope option) \<Rightarrow> bytes \<Rightarrow> ipc_error + string" where
  "decode_hello_python_version prost_decode bs =
     (if length bs < 5 then Inl Decode
      else
        let len = unat (get_u32 (take 4 bs))
        in if length bs < 4 + len then Inl Decode
           else res_bind (ok_or (prost_decode (take len (drop 4 bs))) Decode) (\<lambda>env.
             (case en_kind env of
                Some (Hello h) \<Rightarrow> Inr (he_python_version h)
              | _ \<Rightarrow> Inl EmptyKind)))"

subsection \<open>Runs\<close>

text \<open>Every sequence of operations of one supervisor. \<open>conns\<close> are the connections the listener handed
  out so far.\<close>

inductive session_reach ::
    "(envelope \<Rightarrow> bytes option) \<Rightarrow> (bytes \<Rightarrow> envelope option) \<Rightarrow> worker_supervisor \<Rightarrow> ipc_stream list
      \<Rightarrow> worker_supervisor \<Rightarrow> bool"
  for enc dec sv0 where
  bound: "ws_stream sv0 = None \<Longrightarrow> session_reach enc dec sv0 [] sv0"
| hello: "session_reach enc dec sv0 conns sv
    \<Longrightarrow> session_reach enc dec sv0 (conns @ [s]) (snd (accept_hello enc dec ver (Inr s) timed_out sv))"
| no_hello: "session_reach enc dec sv0 conns sv
    \<Longrightarrow> session_reach enc dec sv0 conns (snd (accept_hello enc dec ver (Inl e) timed_out sv))"
| reading: "session_reach enc dec sv0 conns sv
    \<Longrightarrow> session_reach enc dec sv0 conns (snd (read_next dec sv))"
| writing: "session_reach enc dec sv0 conns sv
    \<Longrightarrow> session_reach enc dec sv0 conns (snd (write_next enc env sv))"
| contained: "session_reach enc dec sv0 conns sv
    \<Longrightarrow> session_reach enc dec sv0 conns (snd (spawn_python_containerized hv podman img sv))"
| uncontained: "session_reach enc dec sv0 conns sv
    \<Longrightarrow> session_reach enc dec sv0 conns (snd (spawn_python_uncontained start python args pypath sv))"
| killed: "session_reach enc dec sv0 conns sv
    \<Longrightarrow> session_reach enc dec sv0 conns (kill_worker sv)"

text \<open>The first frame of connection \<open>s0\<close> is a hello with the token, and what \<open>s\<close> still has to read
  comes after it.\<close>

definition presented_token :: "(bytes \<Rightarrow> envelope option) \<Rightarrow> string \<Rightarrow> ipc_stream \<Rightarrow> ipc_stream \<Rightarrow> bool" where
  "presented_token dec token s0 s =
     (\<exists>env h s1. read_envelope dec s0 default_max_frame = (Inr env, s1)
        \<and> en_kind env = Some (Hello h) \<and> he_token h = token \<and> suffix (st_in s) (st_in s1))"

definition session_inv :: "(bytes \<Rightarrow> envelope option) \<Rightarrow> worker_supervisor \<Rightarrow> ipc_stream list \<Rightarrow> worker_supervisor \<Rightarrow> bool" where
  "session_inv dec sv0 conns sv =
     (ws_expected_token sv = ws_expected_token sv0 \<and> ws_endpoint sv = ws_endpoint sv0
      \<and> (\<forall>s. ws_stream sv = Some s \<longrightarrow> (\<exists>s0 \<in> set conns. presented_token dec (ws_expected_token sv0) s0 s)))"

subsection \<open>Lemmas\<close>

lemma read_exact_suffix: "suffix (st_in (snd (read_exact n s))) (st_in s)"
  by (simp add: read_exact_def suffix_drop)

lemma read_envelope_suffix: "suffix (st_in (snd (read_envelope dec s m))) (st_in s)"
proof -
  obtain r1 s1 where 1: "read_exact 4 s = (r1, s1)" by fastforce
  then have suf: "suffix (st_in s1) (st_in s)" using read_exact_suffix[of 4 s] by simp
  have "suffix (st_in (snd (read_exact n s1))) (st_in s)" for n
    using read_exact_suffix[of n s1] suf by (rule suffix_order.trans)
  with suf show ?thesis
    unfolding read_envelope_def 1 by (auto simp: Let_def split: sum.splits prod.splits) (metis snd_conv)+
qed

lemma write_all_in [simp]: "st_in (snd (write_all bs s)) = st_in s"
  by (simp add: write_all_def split: option.splits)

lemma write_all_in_eq [simp]: "write_all bs s = (r, s') \<Longrightarrow> st_in s' = st_in s"
  using write_all_in[of bs s] by simp

lemma write_envelope_in: "write_envelope enc s env m = (r, s') \<Longrightarrow> st_in s' = st_in s"
  unfolding write_envelope_def
  by (auto simp: Let_def split: option.splits if_splits prod.splits sum.splits)

lemma presented_token_mono:
  "presented_token dec token s0 s \<Longrightarrow> suffix (st_in s') (st_in s) \<Longrightarrow> presented_token dec token s0 s'"
  unfolding presented_token_def using suffix_order.trans by fast

lemma accept_hello_stream:
  assumes "accept_hello enc dec ver accepted timed_out sv = (r, sv')"
  obtains (same) "sv' = sv" "\<forall>v. r \<noteq> Inr v"
  | (installed) s0 env h s1 s2 where "accepted = Inr s0" "\<not> timed_out"
      "read_envelope dec s0 default_max_frame = (Inr env, s1)" "en_kind env = Some (Hello h)"
      "he_token h = ws_expected_token sv"
      "write_envelope enc s1 (hello_ack_for ver env) default_max_frame = (Inr (), s2)"
      "r = Inr (he_python_version h)" "sv' = sv\<lparr>ws_stream := Some s2\<rparr>"
proof (cases accepted)
  case (Inl e)
  with assms show thesis by (intro same) (auto simp: accept_hello_def)
next
  case (Inr s0)
  obtain r1 s1 where read: "read_envelope dec s0 default_max_frame = (r1, s1)" by fastforce
  show thesis
  proof (cases "\<not> timed_out \<and> (\<exists>env h. r1 = Inr env \<and> en_kind env = Some (Hello h)
      \<and> he_token h = ws_expected_token sv)")
    case True
    then obtain env h where h: "\<not> timed_out" "r1 = Inr env" "en_kind env = Some (Hello h)"
      "he_token h = ws_expected_token sv" by blast
    obtain r2 s2 where w: "write_envelope enc s1 (hello_ack_for ver env) default_max_frame = (r2, s2)" by fastforce
    show thesis
    proof (cases r2)
      case (Inl e)
      with assms Inr read h w show thesis by (intro same) (auto simp: accept_hello_def)
    next
      case (Inr u)
      with assms \<open>accepted = Inr s0\<close> read h w show thesis
        by (intro installed[of s0 env s1 h s2]) (auto simp: accept_hello_def)
    qed
  next
    case False
    with assms Inr read have "sv' = sv \<and> (\<forall>v. r \<noteq> Inr v)"
      by (auto simp: accept_hello_def split: if_splits sum.splits option.splits kind.splits)
    then show thesis by (intro same) auto
  qed
qed

lemma read_next_stream:
  "ws_stream (snd (read_next dec sv)) = Some s' \<Longrightarrow> \<exists>s. ws_stream sv = Some s \<and> suffix (st_in s') (st_in s)"
  using read_envelope_suffix[of dec _ default_max_frame]
  by (auto simp: read_next_def split: option.splits prod.splits) (metis snd_conv)

lemma write_next_stream:
  "ws_stream (snd (write_next enc env sv)) = Some s' \<Longrightarrow> \<exists>s. ws_stream sv = Some s \<and> st_in s' = st_in s"
  using write_envelope_in by (fastforce simp: write_next_def split: option.splits prod.splits)

lemma kept_fields [simp]:
  "ws_expected_token (snd (read_next dec sv)) = ws_expected_token sv"
  "ws_endpoint (snd (read_next dec sv)) = ws_endpoint sv"
  "ws_expected_token (snd (write_next enc env sv)) = ws_expected_token sv"
  "ws_endpoint (snd (write_next enc env sv)) = ws_endpoint sv"
  "ws_expected_token (snd (spawn_python_containerized hv podman img sv)) = ws_expected_token sv"
  "ws_endpoint (snd (spawn_python_containerized hv podman img sv)) = ws_endpoint sv"
  "ws_stream (snd (spawn_python_containerized hv podman img sv)) = ws_stream sv"
  "ws_expected_token (snd (spawn_python_uncontained start python args pypath sv)) = ws_expected_token sv"
  "ws_endpoint (snd (spawn_python_uncontained start python args pypath sv)) = ws_endpoint sv"
  "ws_stream (snd (spawn_python_uncontained start python args pypath sv)) = ws_stream sv"
  by (simp_all add: read_next_def write_next_def spawn_python_containerized_def
      spawn_python_uncontained_def split: option.splits prod.splits sum.splits)

lemma session_inv_suffix:
  assumes "session_inv dec sv0 conns sv" "ws_expected_token sv' = ws_expected_token sv"
    "ws_endpoint sv' = ws_endpoint sv"
    "\<And>s'. ws_stream sv' = Some s' \<Longrightarrow> \<exists>s. ws_stream sv = Some s \<and> suffix (st_in s') (st_in s)"
  shows "session_inv dec sv0 conns sv'"
  using assms presented_token_mono unfolding session_inv_def by (metis (no_types, lifting))

lemma session_inv_hello:
  assumes "session_inv dec sv0 conns sv"
  shows "session_inv dec sv0 (conns @ [s]) (snd (accept_hello enc dec ver (Inr s) timed_out sv))"
proof -
  obtain r sv' where acc: "accept_hello enc dec ver (Inr s) timed_out sv = (r, sv')" by fastforce
  then show ?thesis
  proof (cases rule: accept_hello_stream)
    case same
    with acc assms show ?thesis by (auto simp: session_inv_def)
  next
    case (installed s0 env h s1 s2)
    then have "st_in s2 = st_in s1" by (auto dest: write_envelope_in)
    with installed have "presented_token dec (ws_expected_token sv) s s2"
      unfolding presented_token_def by auto
    with acc installed assms show ?thesis by (auto simp: session_inv_def)
  qed
qed

lemma session_reach_inv: "session_reach enc dec sv0 conns sv \<Longrightarrow> session_inv dec sv0 conns sv"
proof (induction rule: session_reach.induct)
  case bound
  then show ?case by (simp add: session_inv_def)
next
  case (hello conns sv s ver timed_out)
  then show ?case by (intro session_inv_hello)
next
  case (no_hello conns sv ver e timed_out)
  then show ?case by (simp add: accept_hello_def)
next
  case (reading conns sv)
  show ?case by (rule session_inv_suffix[OF reading.IH]) (auto dest: read_next_stream)
next
  case (writing conns sv env)
  show ?case by (rule session_inv_suffix[OF writing.IH]) (auto dest: write_next_stream)
next
  case (contained conns sv hv podman img)
  show ?case by (rule session_inv_suffix[OF contained.IH]) auto
next
  case (uncontained conns sv start python args pypath)
  show ?case by (rule session_inv_suffix[OF uncontained.IH]) auto
next
  case (killed conns sv)
  show ?case by (rule session_inv_suffix[OF killed.IH]) (auto simp: kill_worker_def)
qed

lemma bind_unix_private:
  assumes "bind_unix fails (Some p) path_exists token path = (r, tr)" "tr = before @ BindSocket path # after"
  shows "SetPermissions p 448 \<in> set before"
  using assms by (auto simp: bind_unix_def bind_unix_ops_def Cons_eq_append_conv
      split: option.splits if_splits)

subsection \<open>Properties\<close>

text \<open>C10. In every run of a supervisor, over any sequence of handshakes, reads, writes, launches and
  kills, a worker stream is present only when some accepted connection opened with a hello that
  carried this supervisor's token, and what the supervisor reads from it was sent after that hello.\<close>

theorem session_authenticated:
  assumes "session_reach enc dec sv0 conns sv" "ws_stream sv = Some s"
  shows "\<exists>s0 \<in> set conns. presented_token dec (ws_expected_token sv0) s0 s"
  using session_reach_inv[OF assms(1)] assms(2) by (simp add: session_inv_def)

definition demo_supervisor :: worker_supervisor where
  "demo_supervisor = \<lparr>ws_listener_addr = ''/run/w.sock'', ws_expected_token = ''t'',
     ws_endpoint = EP_Unix ''/run/w.sock'', ws_child = None, ws_stream = None\<rparr>"

definition demo_connection :: ipc_stream where
  "demo_connection = fresh_stream (frame [1, 2, 3])"

lemma demo_read: "read_envelope demo_decode demo_connection default_max_frame = (Inr demo_envelope, fresh_stream [])"
  by code_simp

lemma demo_accept:
  "snd (accept_hello demo_encode demo_decode ''0.1'' (Inr demo_connection) False demo_supervisor)
     = demo_supervisor\<lparr>ws_stream := Some ((fresh_stream [])\<lparr>st_out := frame [1, 2, 3]\<rparr>)\<rparr>"
  by code_simp

theorem session_authenticated_witness:
  "\<exists>s0 \<in> {demo_connection}. presented_token demo_decode ''t'' s0 ((fresh_stream [])\<lparr>st_out := frame [1, 2, 3]\<rparr>)"
proof -
  have "session_reach demo_encode demo_decode demo_supervisor [] demo_supervisor"
    by (rule bound) (simp add: demo_supervisor_def)
  then have "session_reach demo_encode demo_decode demo_supervisor ([] @ [demo_connection])
      (demo_supervisor\<lparr>ws_stream := Some ((fresh_stream [])\<lparr>st_out := frame [1, 2, 3]\<rparr>)\<rparr>)"
    using session_reach.hello[of demo_encode demo_decode demo_supervisor "[]" demo_supervisor
      demo_connection "''0.1''" False] unfolding demo_accept by blast
  from session_authenticated[OF this] show ?thesis by (simp add: demo_supervisor_def)
qed


definition demo_ack_encode :: "envelope \<Rightarrow> bytes option" where
  "demo_ack_encode env = Some (case en_kind env of Some (HelloAck _) \<Rightarrow> [9] | _ \<Rightarrow> [1, 2, 3])"

definition demo_ack_decode :: "bytes \<Rightarrow> envelope option" where
  "demo_ack_decode bs =
     (if bs = [9] then Some (hello_ack_for ''0.1'' demo_envelope) else Some demo_envelope)"

lemmas demo_ack_defs = sendable_def demo_ack_encode_def demo_ack_decode_def demo_envelope_def
  hello_ack_for_def PROTOCOL_VERSION_def default_max_frame_def DEFAULT_MAX_FRAME_BYTES_def


text \<open>The containerized launch: a command is produced only for a Unix-socket endpoint; it runs with
  no network, a read-only root, no capabilities, no new privileges and fixed resource limits, mounts
  the Python package read-only and the socket directory and nothing else, and its command line does
  not depend on the token, which is only in the environment.\<close>

theorem containerized_launch_isolated:
  assumes "containerized_command hv podman img sv = Inr cmd"
  shows "(\<exists>sock py dir name. ws_endpoint sv = EP_Unix sock \<and> hv_python hv = Inr py
        \<and> hv_socket_dir hv = Some (Inr dir) \<and> hv_socket_name hv = Some name
        \<and> cmd_args cmd =
            [''run'', ''--rm'', ''--network=none'', ''--read-only'', ''--cap-drop=ALL'',
             ''--security-opt=no-new-privileges'', ''--pids-limit=128'', ''--memory=512m'', ''--cpus=1'',
             ''--tmpfs=/tmp:rw,noexec,nosuid,size=64m'', ''-v'', py @ '':/opt/aros/python:ro'',
             ''-v'', dir @ '':/run/aros:rw'', ''-e'', ''PYTHONPATH=/opt/aros/python'',
             ''-e'', ''AROS_WORKER_TOKEN'', img, ''python3'', ''-m'', ''aros_research.worker'',
             ''--socket'', ''/run/aros/'' @ name])
    \<and> cmd_env cmd = [(''AROS_WORKER_TOKEN'', ws_expected_token sv)]
    \<and> containerized_command hv podman img (sv\<lparr>ws_expected_token := t\<rparr>)
        = Inr (cmd\<lparr>cmd_env := [(''AROS_WORKER_TOKEN'', t)]\<rparr>)"
  using assms unfolding containerized_command_def
  by (auto simp: res_simps Let_def env_name_def ENV_PREFIX_def containerized_run_args_def
      split: worker_endpoint.splits if_splits)

definition demo_host :: host_view where
  "demo_host = \<lparr>hv_socket_dir = Some (Inr ''/run''), hv_socket_name = Some ''w.sock'', hv_python = Inr ''/py'',
     hv_python_is_dir = True, hv_spawn = (\<lambda>_. Inr \<lparr>ch_try_wait = Inr None\<rparr>)\<rparr>"

theorem containerized_launch_isolated_witness:
  "cmd_env (case containerized_command demo_host ''podman'' ''img'' demo_supervisor of Inr c \<Rightarrow> c)
     = [(''AROS_WORKER_TOKEN'', ''t'')]"
proof -
  obtain c where c: "containerized_command demo_host ''podman'' ''img'' demo_supervisor = Inr c"
    by (simp add: containerized_command_def demo_host_def demo_supervisor_def Let_def)
  from containerized_launch_isolated[OF c] c show ?thesis by (simp add: demo_supervisor_def)
qed

end
