(* ===== verification/Wire.thy ===== *)
theory Wire
  imports Ipc_Frame
begin

unbundle bit_operations_syntax

text \<open>
  \<^verbatim>\<open>python/aros_research/ipc/framing.py\<close> and \<^verbatim>\<open>wire.py\<close>: the worker's side of the protocol, a
  hand-written protobuf codec. Python's non-negative ints are naturals; \<^verbatim>\<open>buf[i:]\<close>, the part of a
  buffer that a reader has not seen yet, is the list it is given. A Python exception is the left side
  of a result. UTF-8 decoding with replacement characters is the parameter \<open>utf8_decode\<close>.
\<close>

datatype py_error = Ipc_Error string | Value_Error string | Overflow_Error

subsection \<open>framing.py\<close>

definition MAX_FRAME :: nat where
  "MAX_FRAME = 4 * 1024 * 1024"

definition to_bytes_4 :: "nat \<Rightarrow> py_error + bytes" where
  "to_bytes_4 n = (if 2 ^ 32 \<le> n then Inl Overflow_Error else Inr (put_u32 (of_nat n)))"

definition encode_frame :: "bytes \<Rightarrow> nat \<Rightarrow> py_error + bytes" where
  "encode_frame payload max_frame =
     (if max_frame < length payload then
        Inl (Ipc_Error (''frame too large: '' @ show_nat (length payload) @ '' > '' @ show_nat max_frame))
      else res_bind (to_bytes_4 (length payload)) (\<lambda>header. Inr (header @ payload)))"

definition decode_header :: "bytes \<Rightarrow> nat \<Rightarrow> py_error + nat" where
  "decode_header header max_frame =
     (if length header \<noteq> 4 then Inl (Ipc_Error ''header must be 4 bytes'')
      else
        let len = unat (get_u32 header)
        in if max_frame < len \<or> len = 0 then Inl (Ipc_Error (''invalid length '' @ show_nat len))
           else Inr len)"

subsection \<open>Encoding (wire.py)\<close>

function uvarint :: "nat \<Rightarrow> bytes" where
  "uvarint n =
     (if 127 < n then of_nat ((n AND 127) OR 128) # uvarint (drop_bit 7 n) else [of_nat n])"
  by pat_completeness auto

termination
  by (relation "measure id") (auto simp: drop_bit_eq_div)

declare uvarint.simps [simp del]

text \<open>\<^verbatim>\<open>_uvarint\<close> on an int that may be negative.\<close>

definition uvarint_int :: "int \<Rightarrow> py_error + bytes" where
  "uvarint_int n =
     (if n < 0 then Inl (Value_Error ''varint must be non-negative'') else Inr (uvarint (nat n)))"

definition tag :: "nat \<Rightarrow> nat \<Rightarrow> bytes" where
  "tag field wire = uvarint (push_bit 3 field OR wire)"

definition ld :: "nat \<Rightarrow> bytes \<Rightarrow> bytes" where
  "ld field payload = tag field 2 @ uvarint (length payload) @ payload"

definition str_field :: "nat \<Rightarrow> string \<Rightarrow> bytes" where
  "str_field field v = ld field (as_bytes v)"

definition var_field :: "nat \<Rightarrow> int \<Rightarrow> py_error + bytes" where
  "var_field field v = res_bind (uvarint_int v) (\<lambda>bs. Inr (tag field 0 @ bs))"

record py_hello =
  ph_worker_kind :: string
  ph_python_version :: string
  ph_token :: string

record py_intent_result =
  pr_decision :: string
  pr_reason :: string
  pr_exit_status :: "nat option"
  pr_stdout_digest :: "string option"
  pr_request_id :: string

definition envelope_bytes :: "string \<Rightarrow> nat \<Rightarrow> bytes \<Rightarrow> py_error + bytes" where
  "envelope_bytes request_id kind_tag inner =
     res_bind (var_field 1 (uint PROTOCOL_VERSION)) (\<lambda>v.
       encode_frame (v @ str_field 2 request_id @ ld kind_tag inner) MAX_FRAME)"

definition encode_hello :: "py_hello \<Rightarrow> string \<Rightarrow> py_error + bytes" where
  "encode_hello h request_id =
     envelope_bytes request_id 10
       (str_field 1 (ph_worker_kind h) @ str_field 2 (ph_python_version h)
        @ (if ph_token h \<noteq> [] then str_field 3 (ph_token h) else []))"

record py_tool_intent =
  pt_capability :: string
  pt_argv :: "string list"
  pt_path :: "string option"
  pt_host :: "string option"
  pt_port :: "int option"
  pt_protocol :: "string option"
  pt_timeout_ms :: int
  pt_http_target :: "string option"
  pt_http_cookie :: "string option"

text \<open>An optional string argument is written when it is true, i.e. present and not empty.\<close>

definition opt_str :: "nat \<Rightarrow> string option \<Rightarrow> bytes" where
  "opt_str field v = (case v of None \<Rightarrow> [] | Some s \<Rightarrow> if s \<noteq> [] then str_field field s else [])"

definition encode_tool_intent :: "py_tool_intent \<Rightarrow> string \<Rightarrow> py_error + bytes" where
  "encode_tool_intent t request_id =
     res_bind (case pt_port t of None \<Rightarrow> Inr [] | Some p \<Rightarrow> var_field 6 p) (\<lambda>port.
     res_bind (var_field 8 (pt_timeout_ms t)) (\<lambda>timeout.
       envelope_bytes request_id 12
         (str_field 1 (pt_capability t) @ concat (map (str_field 2) (pt_argv t))
          @ opt_str 4 (pt_path t) @ opt_str 5 (pt_host t) @ port @ opt_str 7 (pt_protocol t)
          @ timeout @ opt_str 9 (pt_http_target t) @ opt_str 10 (pt_http_cookie t))))"

definition encode_error :: "string \<Rightarrow> string \<Rightarrow> string \<Rightarrow> py_error + bytes" where
  "encode_error code message request_id =
     envelope_bytes request_id 15 (str_field 1 code @ str_field 2 message)"

subsection \<open>Decoding (wire.py)\<close>

fun read_varint :: "nat \<Rightarrow> nat \<Rightarrow> bytes \<Rightarrow> py_error + nat \<times> bytes" where
  "read_varint shift result [] = Inl (Value_Error ''truncated varint'')"
| "read_varint shift result (b # buf) =
     (let result' = result OR push_bit shift (unat (b AND 127))
      in if b AND 128 = 0 then Inr (result', buf)
         else if 63 < shift + 7 then Inl (Value_Error ''varint too long'')
         else read_varint (shift + 7) result' buf)"

datatype wire_value = WInt nat | WBytes bytes

type_synonym fields = "nat \<Rightarrow> wire_value list"

definition add_field :: "nat \<Rightarrow> wire_value \<Rightarrow> fields \<Rightarrow> fields" where
  "add_field field v fs = fs(field := fs field @ [v])"

lemma read_varint_shorter: "read_varint shift result buf = Inr (n, rest) \<Longrightarrow> length rest < length buf"
  by (induction shift result buf rule: read_varint.induct) (auto simp: Let_def less_Suc_eq split: if_splits)

function parse_loop :: "fields \<Rightarrow> bytes \<Rightarrow> py_error + fields" where
  "parse_loop fs buf =
     (if buf = [] then Inr fs
      else (case read_varint 0 0 buf of
          Inl e \<Rightarrow> Inl e
        | Inr (key, buf1) \<Rightarrow>
            let field = drop_bit 3 key; wire = key AND 7
            in if wire = 0 then
                 (case read_varint 0 0 buf1 of
                    Inl e \<Rightarrow> Inl e
                  | Inr (v, buf2) \<Rightarrow> parse_loop (add_field field (WInt v) fs) buf2)
               else if wire = 2 then
                 (case read_varint 0 0 buf1 of
                    Inl e \<Rightarrow> Inl e
                  | Inr (len, buf2) \<Rightarrow>
                      parse_loop (add_field field (WBytes (take len buf2)) fs) (drop len buf2))
               else Inl (Value_Error (''unsupported wire type '' @ show_nat wire))))"
  by pat_completeness auto

termination
  by (relation "measure (\<lambda>(_, buf). length buf)") (auto dest!: read_varint_shorter)

declare parse_loop.simps [simp del]

definition parse_fields :: "bytes \<Rightarrow> py_error + fields" where
  "parse_fields buf = parse_loop (\<lambda>_. []) buf"

definition first_bytes :: "nat \<Rightarrow> fields \<Rightarrow> bytes option" where
  "first_bytes field fs = (case fs field of WBytes b # _ \<Rightarrow> Some b | _ \<Rightarrow> None)"

fun first_kind :: "nat list \<Rightarrow> fields \<Rightarrow> (nat \<times> bytes) option" where
  "first_kind [] fs = None"
| "first_kind (t # ts) fs =
     (case first_bytes t fs of Some b \<Rightarrow> Some (t, b) | None \<Rightarrow> first_kind ts fs)"

definition decode_envelope_payload ::
    "(bytes \<Rightarrow> string) \<Rightarrow> bytes \<Rightarrow> py_error + string \<times> string \<times> fields" where
  "decode_envelope_payload utf8_decode payload =
     res_bind (parse_fields payload) (\<lambda>fs.
       let request_id = (case first_bytes 2 fs of None \<Rightarrow> [] | Some raw \<Rightarrow> utf8_decode raw)
       in (case first_kind [10, 11, 12, 13, 14, 15, 16] fs of
             Some (t, inner) \<Rightarrow> res_bind (parse_fields inner) (\<lambda>fs'. Inr (request_id, show_nat t, fs'))
           | None \<Rightarrow> Inr (request_id, ''0'', (\<lambda>_. []))))"

definition field_str :: "(bytes \<Rightarrow> string) \<Rightarrow> fields \<Rightarrow> nat \<Rightarrow> string" where
  "field_str utf8_decode fs field =
     (case fs field of
        [] \<Rightarrow> []
      | WBytes b # _ \<Rightarrow> utf8_decode b
      | WInt n # _ \<Rightarrow> show_nat n)"

definition field_int :: "fields \<Rightarrow> nat \<Rightarrow> nat option" where
  "field_int fs field = (case fs field of WInt n # _ \<Rightarrow> Some n | _ \<Rightarrow> None)"

definition decode_intent_result :: "(bytes \<Rightarrow> string) \<Rightarrow> bytes \<Rightarrow> py_error + py_intent_result" where
  "decode_intent_result utf8_decode payload =
     res_bind (decode_envelope_payload utf8_decode payload) (\<lambda>(request_id, t, inner).
       if t \<noteq> ''13'' then
         Inl (Value_Error (''expected IntentResult (tag 13), got tag '' @ t))
       else
         let digest = field_str utf8_decode inner 4
         in Inr \<lparr>pr_decision = field_str utf8_decode inner 1, pr_reason = field_str utf8_decode inner 2,
                 pr_exit_status = field_int inner 3,
                 pr_stdout_digest = (if digest = [] then None else Some digest),
                 pr_request_id = request_id\<rparr>)"

subsection \<open>Lemmas\<close>

lemma or_shift:
  assumes "(r :: nat) < 2 ^ k"
  shows "r OR push_bit k x = r + x * 2 ^ k"
proof -
  have low: "take_bit k r = r" using assms by (simp add: take_bit_nat_eq_self)
  have "r AND push_bit k x = 0"
  proof (rule bit_eqI)
    fix n
    show "bit (r AND push_bit k x) n \<longleftrightarrow> bit 0 n"
      using bit_take_bit_iff[of k r n] low by (auto simp: bit_simps)
  qed
  then show ?thesis by (simp add: disjunctive_add_eq_or push_bit_eq_mult)
qed

lemma byte_and_127: "unat ((w :: u8) AND 127) = unat w mod 128"
proof -
  have "w AND 127 = take_bit 7 w" by (simp add: take_bit_eq_mask mask_eq_exp_minus_1)
  then show ?thesis by (simp add: take_bit_eq_mod unat_mod)
qed

lemma byte_and_128: "(w :: u8) AND 128 = 0 \<longleftrightarrow> unat w < 128"
proof -
  have "w AND 128 = 0 \<longleftrightarrow> w AND 2 ^ 7 = 0" by simp
  also have "\<dots> \<longleftrightarrow> \<not> bit w 7" by (rule and_exp_eq_0_iff_not_bit)
  also have "\<dots> \<longleftrightarrow> even (unat w div 128)" using bit_unsigned_iff[of w 7, where ?'a = nat] by (simp add: bit_iff_odd)
  also have "\<dots> \<longleftrightarrow> unat w < 128"
  proof -
    have "unat w < 256" using unsigned_less[of w, where ?'a = nat] by simp
    then have "unat w div 128 = 0 \<or> unat w div 128 = 1" by linarith
    then show ?thesis by (auto simp: div_eq_0_iff)
  qed
  finally show ?thesis .
qed

lemma byte_low: "n < 128 \<Longrightarrow> unat ((of_nat n :: u8) AND 127) = n \<and> (of_nat n :: u8) AND 128 = 0"
  by (simp add: byte_and_127 byte_and_128 unsigned_of_nat take_bit_eq_mod)

lemma low_byte: "(n AND 127) OR 128 = n mod 128 + (128 :: nat)"
proof -
  have "n AND 127 = n mod 128"
    using take_bit_eq_mask[of 7 n] by (simp add: mask_eq_exp_minus_1 take_bit_eq_mod)
  then show ?thesis using or_shift[of "n mod 128" 7 1] by simp
qed

lemma byte_high: "unat ((of_nat ((n AND 127) OR 128) :: u8) AND 127) = n mod 128
    \<and> (of_nat ((n AND 127) OR 128) :: u8) AND 128 \<noteq> 0"
proof -
  have "unat (of_nat (n mod 128 + 128) :: u8) = n mod 128 + 128"
    by (simp only: unsigned_of_nat) (simp add: take_bit_eq_mod)
  then show ?thesis unfolding low_byte by (simp add: byte_and_127 byte_and_128 del: of_nat_add)
qed

lemma read_uvarint_from:
  assumes "result < 2 ^ shift" "n < 2 ^ (70 - shift)" "shift \<le> 63" "7 dvd shift"
  shows "read_varint shift result (uvarint n @ rest) = Inr (result + n * 2 ^ shift, rest)"
  using assms
proof (induction n arbitrary: shift result rule: uvarint.induct)
  case (1 n)
  show ?case
  proof (cases "127 < n")
    case False
    then show ?thesis using byte_low[of n] 1(2) or_shift[of result shift n]
      by (subst uvarint.simps) (simp add: Let_def)
  next
    case True
    have shift: "shift \<le> 56"
    proof (rule ccontr)
      assume "\<not> shift \<le> 56"
      with 1(4,5) have "shift = 63" by presburger
      with 1(3) True show False by simp
    qed
    let ?r = "result + n mod 128 * 2 ^ shift"
    have "result OR push_bit shift (n mod 128) = ?r" using or_shift 1(2) by blast
    moreover have "?r < 2 ^ (shift + 7)"
    proof -
      have "n mod 128 * 2 ^ shift \<le> 127 * 2 ^ shift" by (intro mult_right_mono) simp_all
      with 1(2) have "?r < 2 ^ shift + 127 * 2 ^ shift" by linarith
      then show ?thesis by (simp add: power_add)
    qed
    moreover have "drop_bit 7 n < 2 ^ (70 - (shift + 7))"
    proof -
      have "(2 :: nat) ^ (70 - shift) = 2 ^ (70 - (shift + 7)) * 128"
        using shift power_add[of "2 :: nat" "70 - (shift + 7)" 7] by simp
      with 1(3) show ?thesis by (simp add: drop_bit_eq_div less_mult_imp_div_less)
    qed
    ultimately have "read_varint (shift + 7) ?r (uvarint (drop_bit 7 n) @ rest)
        = Inr (?r + drop_bit 7 n * 2 ^ (shift + 7), rest)"
      using 1(1)[OF True, of ?r "shift + 7"] shift 1(5) by simp
    moreover have "?r + drop_bit 7 n * 2 ^ (shift + 7) = result + n * 2 ^ shift"
    proof -
      have "n * 2 ^ shift = (n mod 128 + 128 * (n div 128)) * 2 ^ shift" by simp
      also have "\<dots> = n mod 128 * 2 ^ shift + n div 128 * 2 ^ (shift + 7)"
        by (simp only: distrib_right power_add) simp
      finally show ?thesis by (simp add: drop_bit_eq_div)
    qed
    ultimately show ?thesis
      using byte_high[of n] shift True or_shift[of result shift "n mod 128"] 1(2)
      by (subst uvarint.simps) (simp add: Let_def)
  qed
qed

lemma read_uvarint: "n < 2 ^ 70 \<Longrightarrow> read_varint 0 0 (uvarint n @ rest) = Inr (n, rest)"
  using read_uvarint_from[of 0 0 n rest] by simp

lemma uvarint_not_Nil [simp]: "uvarint n \<noteq> []"
  by (subst uvarint.simps) simp

lemma tag_not_Nil [simp]: "tag field wire \<noteq> []"
  by (simp add: tag_def)

lemma read_tag:
  assumes "field < 2 ^ 29" "wire < 8"
  shows "read_varint 0 0 (tag field wire @ rest) = Inr (field * 8 + wire, rest)"
proof -
  have "push_bit 3 field OR wire = wire OR push_bit 3 field" by (rule or.commute)
  also have "\<dots> = wire + field * 2 ^ 3" using assms(2) by (intro or_shift) simp
  finally have key: "push_bit 3 field OR wire = field * 8 + wire" by simp
  have "field * 8 + wire < 2 ^ 70" using assms by simp
  then show ?thesis by (simp add: tag_def key read_uvarint)
qed

lemma split_key: "wire < 8 \<Longrightarrow> drop_bit 3 (field * 8 + wire) = field \<and> (field * 8 + wire) AND 7 = (wire :: nat)"
  using take_bit_eq_mask[of 3 "field * 8 + wire"]
  by (simp add: drop_bit_eq_div take_bit_eq_mod mask_eq_exp_minus_1)

lemma parse_ld:
  assumes "field < 2 ^ 29" "length payload < 2 ^ 70"
  shows "parse_loop fs (ld field payload @ rest) = parse_loop (add_field field (WBytes payload) fs) rest"
proof -
  have "read_varint 0 0 (ld field payload @ rest) = Inr (field * 8 + 2, uvarint (length payload) @ payload @ rest)"
    using read_tag[OF assms(1), of 2] by (simp add: ld_def)
  moreover have "ld field payload \<noteq> []" by (simp add: ld_def)
  ultimately show ?thesis
    using split_key[of 2 field] read_uvarint[OF assms(2)]
    by (subst parse_loop.simps) (simp add: Let_def)
qed

lemma parse_var:
  assumes "field < 2 ^ 29" "n < 2 ^ 70"
  shows "parse_loop fs (tag field 0 @ uvarint n @ rest) = parse_loop (add_field field (WInt n) fs) rest"
  using read_tag[OF assms(1), of 0] split_key[of 0 field] read_uvarint[OF assms(2)]
  by (subst parse_loop.simps) (simp add: Let_def)

subsection \<open>The wire format\<close>

text \<open>A message as the sequence of its fields, and its bytes.\<close>

fun field_bytes :: "nat \<times> wire_value \<Rightarrow> bytes" where
  "field_bytes (field, WInt n) = tag field 0 @ uvarint n"
| "field_bytes (field, WBytes b) = ld field b"

fun field_ok :: "nat \<times> wire_value \<Rightarrow> bool" where
  "field_ok (field, WInt n) \<longleftrightarrow> field < 2 ^ 29 \<and> n < 2 ^ 64"
| "field_ok (field, WBytes b) \<longleftrightarrow> field < 2 ^ 29 \<and> length b < 2 ^ 32"

definition message_bytes :: "(nat \<times> wire_value) list \<Rightarrow> bytes" where
  "message_bytes fvs = concat (map field_bytes fvs)"

definition values_of :: "(nat \<times> wire_value) list \<Rightarrow> fields" where
  "values_of fvs = (\<lambda>field. map snd (filter (\<lambda>fv. fst fv = field) fvs))"

text \<open>
  An \<^verbatim>\<open>IntentResult\<close> envelope in the protobuf encoding: scalar strings are left out when empty,
  optional fields when absent, and an \<^verbatim>\<open>int32\<close> is the varint of its 64-bit two's complement.
\<close>

definition proto_string :: "nat \<Rightarrow> string \<Rightarrow> (nat \<times> wire_value) list" where
  "proto_string field s = (if s = [] then [] else [(field, WBytes (as_bytes s))])"

definition proto_int32 :: "i32 \<Rightarrow> nat" where
  "proto_int32 v = nat (sint v mod 2 ^ 64)"

definition intent_result_fields :: "intent_result \<Rightarrow> (nat \<times> wire_value) list" where
  "intent_result_fields r =
     proto_string 1 (ir_decision r) @ proto_string 2 (ir_reason r)
     @ (case ir_exit_status r of None \<Rightarrow> [] | Some e \<Rightarrow> [(3, WInt (proto_int32 e))])
     @ (case ir_stdout_digest r of None \<Rightarrow> [] | Some d \<Rightarrow> [(4, WBytes (as_bytes d))])"

definition intent_result_payload :: "string \<Rightarrow> intent_result \<Rightarrow> bytes" where
  "intent_result_payload request_id r =
     message_bytes ((1, WInt 1) # proto_string 2 request_id
                    @ [(13, WBytes (message_bytes (intent_result_fields r)))])"

lemma parse_message_from:
  "list_all field_ok fvs \<Longrightarrow> parse_loop fs (message_bytes fvs) = Inr (\<lambda>f. fs f @ values_of fvs f)"
proof (induction fvs arbitrary: fs)
  case Nil
  show ?case by (subst parse_loop.simps) (simp add: message_bytes_def values_of_def)
next
  case (Cons fv fvs)
  obtain field v where fv: "fv = (field, v)" by fastforce
  have rest: "parse_loop (add_field field v fs) (message_bytes fvs) = Inr (\<lambda>f. fs f @ values_of (fv # fvs) f)"
    using Cons by (auto simp: add_field_def values_of_def fv fun_eq_iff)
  show ?case
  proof (cases v)
    case (WInt n)
    have "parse_loop fs (tag field 0 @ uvarint n @ message_bytes fvs)
        = parse_loop (add_field field (WInt n) fs) (message_bytes fvs)"
      using Cons.prems by (intro parse_var) (simp_all add: fv WInt)
    with rest show ?thesis by (simp add: fv WInt message_bytes_def)
  next
    case (WBytes b)
    have "parse_loop fs (ld field b @ message_bytes fvs)
        = parse_loop (add_field field (WBytes b) fs) (message_bytes fvs)"
      using Cons.prems by (intro parse_ld) (simp_all add: fv WBytes)
    with rest show ?thesis by (simp add: fv WBytes message_bytes_def)
  qed
qed

lemma parse_message: "list_all field_ok fvs \<Longrightarrow> parse_fields (message_bytes fvs) = Inr (values_of fvs)"
  unfolding parse_fields_def using parse_message_from[of fvs "\<lambda>_. []"] by simp

lemma length_ld: "length payload \<le> length (ld field payload)"
  by (simp add: ld_def)

lemma length_message: "(field, WBytes b) \<in> set fvs \<Longrightarrow> length b \<le> length (message_bytes fvs)"
  unfolding message_bytes_def
  by (induction fvs) (use length_ld in \<open>auto intro: le_trans trans_le_add1 trans_le_add2\<close>)

lemma proto_int32_bound: "proto_int32 e < 2 ^ 64"
  unfolding proto_int32_def by (simp add: nat_less_iff)

lemma message_fields_ok:
  assumes "length (message_bytes fvs) < 2 ^ 32"
    and "\<And>f v. (f, v) \<in> set fvs \<Longrightarrow> f < 2 ^ 29" "\<And>f n. (f, WInt n) \<in> set fvs \<Longrightarrow> n < 2 ^ 64"
  shows "list_all field_ok fvs"
proof (unfold list_all_iff, rule ballI)
  fix fv
  assume fv: "fv \<in> set fvs"
  obtain f v where eq: "fv = (f, v)" by fastforce
  show "field_ok fv"
  proof (cases v)
    case (WInt n)
    with fv eq assms(2,3) show ?thesis by simp
  next
    case (WBytes b)
    with fv eq have "length b \<le> length (message_bytes fvs)" by (simp add: length_message)
    with fv eq assms(1,2) WBytes show ?thesis by (metis field_ok.simps(2) le_less_trans)
  qed
qed

lemma intent_result_fields_ok:
  assumes "length (message_bytes (intent_result_fields r)) < 2 ^ 32"
  shows "list_all field_ok (intent_result_fields r)"
  using assms
  by (rule message_fields_ok)
    (auto simp: intent_result_fields_def proto_string_def proto_int32_bound[simplified]
      split: option.splits if_splits)

lemma values_of_simps:
  "values_of [] f = []"
  "values_of ((g, v) # fvs) f = (if g = f then v # values_of fvs f else values_of fvs f)"
  "values_of (fvs @ gvs) f = values_of fvs f @ values_of gvs f"
  by (simp_all add: values_of_def)

lemma values_of_proto_string:
  "values_of (proto_string g s) f = (if g = f \<and> s \<noteq> [] then [WBytes (as_bytes s)] else [])"
  by (simp add: proto_string_def values_of_simps)

lemma values_of_intent_result:
  "values_of (intent_result_fields r) 1 = (if ir_decision r = [] then [] else [WBytes (as_bytes (ir_decision r))])"
  "values_of (intent_result_fields r) 2 = (if ir_reason r = [] then [] else [WBytes (as_bytes (ir_reason r))])"
  "values_of (intent_result_fields r) 3 = (case ir_exit_status r of None \<Rightarrow> [] | Some e \<Rightarrow> [WInt (proto_int32 e)])"
  "values_of (intent_result_fields r) 4 = (case ir_stdout_digest r of None \<Rightarrow> [] | Some d \<Rightarrow> [WBytes (as_bytes d)])"
  by (simp_all add: intent_result_fields_def values_of_simps values_of_proto_string split: option.splits)

lemma show_13: "show_nat 13 = ''13''"
  by code_simp

lemma decode_intent_result_payload:
  assumes "length (intent_result_payload request_id r) < 2 ^ 32"
    and utf8: "\<And>s. utf8_decode (as_bytes s) = s"
  shows "decode_intent_result utf8_decode (intent_result_payload request_id r) =
    Inr \<lparr>pr_decision = ir_decision r, pr_reason = ir_reason r,
         pr_exit_status = map_option proto_int32 (ir_exit_status r),
         pr_stdout_digest = (if ir_stdout_digest r = Some [] then None else ir_stdout_digest r),
         pr_request_id = request_id\<rparr>"
proof -
  let ?inner = "message_bytes (intent_result_fields r)"
  let ?fvs = "(1, WInt 1) # proto_string 2 request_id @ [(13, WBytes ?inner)]"
  have "length ?inner \<le> length (intent_result_payload request_id r)"
    unfolding intent_result_payload_def by (rule length_message[of 13]) simp
  with assms(1) have "length ?inner < 2 ^ 32" by linarith
  then have inner: "parse_fields ?inner = Inr (values_of (intent_result_fields r))"
    by (intro parse_message intent_result_fields_ok)
  have "list_all field_ok ?fvs"
    using assms(1) unfolding intent_result_payload_def
    by (rule message_fields_ok) (auto simp: proto_string_def split: if_splits)
  then have outer: "parse_fields (intent_result_payload request_id r) = Inr (values_of ?fvs)"
    unfolding intent_result_payload_def by (rule parse_message)
  have "decode_envelope_payload utf8_decode (intent_result_payload request_id r)
      = Inr (request_id, ''13'', values_of (intent_result_fields r))"
    unfolding decode_envelope_payload_def outer
    by (simp add: first_bytes_def values_of_simps values_of_proto_string inner utf8 show_13)
  then show ?thesis
    unfolding decode_intent_result_def
    by (auto simp: Let_def field_str_def field_int_def values_of_intent_result utf8
        simp del: One_nat_def split: option.splits)
qed

subsection \<open>Properties\<close>

text \<open>The two sides of the protocol agree on frames: a payload that the worker frames is at most the
  supervisor's limit, its frame is the supervisor's frame, and the supervisor reads from it exactly
  that payload; the worker's header check accepts exactly the non-zero lengths within the limit.\<close>

theorem framing_agrees:
  "(encode_frame payload MAX_FRAME = Inr bs \<longleftrightarrow> length payload \<le> unat default_max_frame \<and> bs = frame payload)
   \<and> (payload \<noteq> [] \<and> encode_frame payload MAX_FRAME = Inr bs
       \<longrightarrow> read_envelope dec (s\<lparr>st_in := bs @ rest\<rparr>) default_max_frame
             = (check_envelope (dec payload), s\<lparr>st_in := rest\<rparr>))
   \<and> (decode_header (put_u32 n) MAX_FRAME = Inr len \<longleftrightarrow>
        0 < n \<and> n \<le> default_max_frame \<and> len = unat n)"
proof -
  have max: "unat default_max_frame = MAX_FRAME"
    by (simp add: default_max_frame_def DEFAULT_MAX_FRAME_BYTES_def MAX_FRAME_def)
  have 1: "encode_frame payload MAX_FRAME = Inr bs \<longleftrightarrow> length payload \<le> unat default_max_frame \<and> bs = frame payload"
    unfolding max by (auto simp: encode_frame_def to_bytes_4_def frame_def MAX_FRAME_def)
  have 2: "read_envelope dec (s\<lparr>st_in := frame payload @ rest\<rparr>) default_max_frame
      = (check_envelope (dec payload), s\<lparr>st_in := rest\<rparr>)"
    if "payload \<noteq> []" "length payload \<le> unat default_max_frame"
  proof -
    note len = unat_of_length[OF that(2)]
    have "(of_nat (length payload) :: u32) \<noteq> 0" using len that(1) by (metis length_0_conv unat_0)
    moreover have "\<not> default_max_frame < of_nat (length payload)" using len that(2) by (simp add: word_less_nat_alt)
    ultimately show ?thesis
      using get_put_u32[of "of_nat (length payload)" "[]"] len
      by (simp add: read_envelope_def frame_def Let_def)
  qed
  have 3: "decode_header (put_u32 n) MAX_FRAME = Inr len \<longleftrightarrow> 0 < n \<and> n \<le> default_max_frame \<and> len = unat n"
    using get_put_u32[of n "[]"] max
    by (auto simp: decode_header_def Let_def word_le_nat_alt word_gt_0 unat_eq_0)
  from 1 2 3 show ?thesis by blast
qed

theorem framing_agrees_witness:
  "read_envelope demo_decode (fresh_stream (frame [1, 2, 3])) default_max_frame
     = (check_envelope (demo_decode [1, 2, 3]), fresh_stream [])"
proof -
  have "encode_frame [1, 2, 3] MAX_FRAME = Inr (frame [1, 2, 3])"
    by (simp add: encode_frame_def to_bytes_4_def frame_def MAX_FRAME_def)
  then show ?thesis
    using framing_agrees[of "[1, 2, 3]" "frame [1, 2, 3]" demo_decode "[]" "fresh_stream []" 1 1]
    by (simp add: fresh_stream_def)
qed

text \<open>The worker's decoder reads back every well-formed message: for any sequence of fields with
  protobuf's bounds it returns, per field number, exactly the values written, in order.\<close>

theorem parse_fields_roundtrip:
  "list_all field_ok fvs \<Longrightarrow>
     parse_fields (message_bytes fvs) = Inr (\<lambda>field. map snd (filter (\<lambda>fv. fst fv = field) fvs))"
  using parse_message[of fvs] by (simp add: values_of_def)

theorem parse_fields_roundtrip_witness:
  "\<exists>fs. parse_fields (message_bytes [(1, WInt 300), (2, WBytes [7]), (1, WInt 5)]) = Inr fs
     \<and> fs 1 = [WInt 300, WInt 5]"
  using parse_fields_roundtrip[of "[(1, WInt 300), (2, WBytes [7]), (1, WInt 5)]"] by simp

text \<open>C33. A reply from the supervisor to the worker, end to end: the frame the supervisor writes for an
  intent result passes the worker's header check and decodes to the same decision, reason, request
  and digest. The exit status arrives as the 64-bit two's complement of the status sent, which for a
  negative status is a number of at least \<open>2\<^sup>6\<^sup>3\<close>.\<close>

theorem intent_result_end_to_end:
  assumes "prost_encode env = Some payload" "payload = intent_result_payload request_id r"
    and "length payload \<le> unat default_max_frame" "\<And>s. utf8_decode (as_bytes s) = s"
  shows "write_envelope prost_encode (fresh_stream []) env default_max_frame
      = (Inr (), (fresh_stream [])\<lparr>st_out := put_u32 (of_nat (length payload)) @ payload\<rparr>)
    \<and> decode_header (put_u32 (of_nat (length payload))) MAX_FRAME = Inr (length payload)
    \<and> decode_intent_result utf8_decode payload =
        Inr \<lparr>pr_decision = ir_decision r, pr_reason = ir_reason r,
             pr_exit_status = map_option (\<lambda>e. nat (if sint e < 0 then 2 ^ 64 + sint e else sint e)) (ir_exit_status r),
             pr_stdout_digest = (if ir_stdout_digest r = Some [] then None else ir_stdout_digest r),
             pr_request_id = request_id\<rparr>"
proof -
  have max: "unat default_max_frame = MAX_FRAME"
    by (simp add: default_max_frame_def DEFAULT_MAX_FRAME_BYTES_def MAX_FRAME_def)
  note len = unat_of_length[OF assms(3)]
  have small: "length payload < 2 ^ 32" using assms(3) max by (simp add: MAX_FRAME_def)
  have "tag 1 0 \<noteq> []" by simp
  then have "payload \<noteq> []" by (auto simp: assms(2) intent_result_payload_def message_bytes_def)
  then have header: "decode_header (put_u32 (of_nat (length payload))) MAX_FRAME = Inr (length payload)"
    using get_put_u32[of "of_nat (length payload)" "[]"] len assms(3) max
    by (simp add: decode_header_def Let_def)
  have status: "proto_int32 e = nat (if sint e < 0 then 2 ^ 64 + sint e else sint e)" for e
  proof -
    have "- (2 ^ 31) \<le> sint e" "sint e < 2 ^ 31"
      using sint_greater_eq[of e] sint_less[of e] by simp_all
    moreover have "sint e mod 2 ^ 64 = (2 ^ 64 + sint e) mod 2 ^ 64" by simp
    ultimately show ?thesis
      unfolding proto_int32_def using mod_pos_pos_trivial[of "sint e" "2 ^ 64"]
        mod_pos_pos_trivial[of "2 ^ 64 + sint e" "2 ^ 64"] by auto
  qed
  have "write_envelope prost_encode (fresh_stream []) env default_max_frame
      = (Inr (), (fresh_stream [])\<lparr>st_out := put_u32 (of_nat (length payload)) @ payload\<rparr>)"
    using assms(1,3) len
    by (simp add: write_envelope_def Let_def word_less_nat_alt write_all_room fresh_stream_def)
  moreover note header
  moreover have "decode_intent_result utf8_decode payload =
        Inr \<lparr>pr_decision = ir_decision r, pr_reason = ir_reason r,
             pr_exit_status = map_option (\<lambda>e. nat (if sint e < 0 then 2 ^ 64 + sint e else sint e)) (ir_exit_status r),
             pr_stdout_digest = (if ir_stdout_digest r = Some [] then None else ir_stdout_digest r),
             pr_request_id = request_id\<rparr>"
    using decode_intent_result_payload[of request_id r utf8_decode] small assms(2,4)
    by (simp add: status[abs_def])
  ultimately show ?thesis by blast
qed

definition demo_result :: intent_result where
  "demo_result = \<lparr>ir_decision = ''ALLOW'', ir_reason = ''ok'', ir_exit_status = Some (- 1), ir_stdout_digest = Some ''ab''\<rparr>"

theorem intent_result_end_to_end_witness:
  "decode_intent_result utf8_latin1 (intent_result_payload ''r1'' demo_result) =
     Inr \<lparr>pr_decision = ''ALLOW'', pr_reason = ''ok'', pr_exit_status = Some 18446744073709551615,
          pr_stdout_digest = Some ''ab'', pr_request_id = ''r1''\<rparr>"
proof -
  have "uvarint (proto_int32 (- 1)) = [255, 255, 255, 255, 255, 255, 255, 255, 255, 1]"
    by (simp add: proto_int32_def uvarint.simps)
  then have "length (intent_result_payload ''r1'' demo_result) < 100"
    by (simp add: intent_result_payload_def message_bytes_def intent_result_fields_def demo_result_def
        proto_string_def ld_def tag_def as_bytes_def utf8_char_def uvarint.simps)
  moreover have "100 \<le> unat default_max_frame" by (simp add: default_max_frame_def DEFAULT_MAX_FRAME_BYTES_def)
  ultimately have "length (intent_result_payload ''r1'' demo_result) \<le> unat default_max_frame" by linarith
  from intent_result_end_to_end[of "\<lambda>_. Some (intent_result_payload ''r1'' demo_result)" demo_envelope
      "intent_result_payload ''r1'' demo_result" "''r1''" demo_result utf8_latin1, OF refl refl this utf8_latin1_as_bytes]
  show ?thesis by (simp add: demo_result_def)
qed

text \<open>A length-delimited field that runs past the end of the buffer is not refused: the worker's
  decoder takes the bytes that are there for the whole field.\<close>

theorem truncated_field_accepted:
  assumes "field < 2 ^ 29" "length payload < n" "n < 2 ^ 64"
  shows "parse_fields (tag field 2 @ uvarint n @ payload) = Inr ((\<lambda>_. [])(field := [WBytes payload]))"
proof -
  have "parse_loop fs [] = Inr fs" for fs by (subst parse_loop.simps) simp
  then show ?thesis
    unfolding parse_fields_def
    using read_tag[OF assms(1), of 2] split_key[of 2 field] read_uvarint[of n payload] assms(2,3)
    by (subst parse_loop.simps) (simp add: Let_def add_field_def)
qed

theorem truncated_field_accepted_witness:
  "parse_fields (tag 1 2 @ uvarint 100 @ [65]) = Inr ((\<lambda>_. [])(1 := [WBytes [65]]))"
  using truncated_field_accepted[of 1 "[65]" 100] by simp

end
