(* ===== verification/Path_Scope.thy ===== *)
theory Path_Scope
  imports Rust_Str
begin

text \<open>
  Crate \<^verbatim>\<open>aros-policy\<close>, \<^verbatim>\<open>path_scope.rs\<close>: the lexical gate on filesystem paths. The
  operations work on strings, as the source does. The specification works on lists of path
  components: a path is in scope when the components of an authorized root are a prefix of its own.
\<close>

subsection \<open>Operations\<close>

text \<open>The loop over \<^verbatim>\<open>replaced.split('/')\<close>; \<open>out\<close> is the vector being pushed to.\<close>

fun collect_parts :: "string list \<Rightarrow> string list \<Rightarrow> string list option" where
  "collect_parts out [] = Some out"
| "collect_parts out (part # rest) =
     (if part = [] \<or> part = ''.'' then collect_parts out rest
      else if part = ''..'' then None
      else collect_parts (out @ [part]) rest)"

definition strip_verbatim :: "string \<Rightarrow> string" where
  "strip_verbatim path =
     (case strip_prefix [backslash, backslash, CHR ''?'', backslash] path of
        Some r \<Rightarrow> r
      | None \<Rightarrow> (case strip_prefix ''//?/'' path of Some r \<Rightarrow> r | None \<Rightarrow> path))"

definition normalize_path :: "string \<Rightarrow> string option" where
  "normalize_path path =
     (if path = [] \<or> nul \<in> set path then None
      else
        let replaced = replace_char backslash ''/'' (strip_verbatim path)
        in case collect_parts [] (split_on (CHR ''/'') replaced) of
             None \<Rightarrow> None
           | Some out \<Rightarrow> if out = [] then Some ''/'' else Some (''/'' @ join_with ''/'' out))"

definition forbidden_needles :: "string list" where
  "forbidden_needles =
     [''/mnt/c'', ''docker.sock'', ''podman.sock'', ''/.ssh/'', ''id_rsa'', ''id_ed25519'',
      ''.git-credentials'', ''.aws/credentials'', ''google/chrome/user data'',
      ''mozilla/firefox'']"

definition is_forbidden_host_resource :: "string \<Rightarrow> bool" where
  "is_forbidden_host_resource path =
     (let normalized = to_ascii_lowercase (replace_char backslash ''/'' path)
      in list_ex (str_contains normalized) forbidden_needles)"

definition root_covers :: "string \<Rightarrow> string \<Rightarrow> bool" where
  "root_covers normalized root =
     (case normalize_path root of
        None \<Rightarrow> False
      | Some root_normalized \<Rightarrow>
          if normalized = root_normalized then True
          else if root_normalized = ''/'' then starts_with normalized ''/''
          else starts_with normalized root_normalized
               \<and> length root_normalized < length normalized
               \<and> normalized ! length root_normalized = CHR ''/'')"

definition path_allowed :: "string \<Rightarrow> string list \<Rightarrow> bool" where
  "path_allowed path allowed_roots =
     (if is_forbidden_host_resource path then False
      else case normalize_path path of
             None \<Rightarrow> False
           | Some normalized \<Rightarrow> list_ex (root_covers normalized) allowed_roots)"

subsection \<open>Specification: component lists\<close>

definition raw_parts :: "string \<Rightarrow> string list" where
  "raw_parts path = split_on (CHR ''/'') (replace_char backslash ''/'' (strip_verbatim path))"

definition path_components :: "string \<Rightarrow> string list option" where
  "path_components path =
     (if path = [] \<or> nul \<in> set path \<or> ''..'' \<in> set (raw_parts path) then None
      else Some (filter (\<lambda>p. p \<noteq> [] \<and> p \<noteq> ''.'') (raw_parts path)))"

definition render :: "string list \<Rightarrow> string" where
  "render cs = (if cs = [] then ''/'' else ''/'' @ join_with ''/'' cs)"

definition plain_component :: "string \<Rightarrow> bool" where
  "plain_component c = (c \<noteq> [] \<and> c \<noteq> ''.'' \<and> c \<noteq> ''..'' \<and> CHR ''/'' \<notin> set c)"

subsection \<open>Refinement\<close>

lemma collect_parts_eq:
  "collect_parts out ps =
     (if ''..'' \<in> set ps then None else Some (out @ filter (\<lambda>p. p \<noteq> [] \<and> p \<noteq> ''.'') ps))"
  by (induction ps arbitrary: out) auto

lemma normalize_path_eq: "normalize_path path = map_option render (path_components path)"
  by (auto simp: normalize_path_def path_components_def raw_parts_def collect_parts_eq render_def
      Let_def)

lemma path_components_plain:
  assumes "path_components path = Some cs" and "c \<in> set cs"
  shows "plain_component c"
proof -
  from assms have "c \<in> set (raw_parts path)" "c \<noteq> []" "c \<noteq> ''.''" "c \<noteq> ''..''"
    by (auto simp: path_components_def split: if_splits)
  moreover from this(1) have "CHR ''/'' \<notin> set c"
    unfolding raw_parts_def by (rule split_on_pieces)
  ultimately show ?thesis by (simp add: plain_component_def)
qed

lemma render_hd: "starts_with (render cs) ''/''"
  by (auto simp: render_def)

lemma render_inj:
  assumes "\<forall>c \<in> set cs. plain_component c" "\<forall>c \<in> set ds. plain_component c"
    and "render cs = render ds"
  shows "cs = ds"
proof -
  have ne: "join_with ''/'' xs \<noteq> []" if "xs \<noteq> []" "\<forall>c \<in> set xs. plain_component c" for xs
    using that by (cases xs; cases "tl xs") (auto simp: plain_component_def)
  show ?thesis
  proof (cases "cs = [] \<or> ds = []")
    case True
    with assms ne show ?thesis by (fastforce simp: render_def split: if_splits)
  next
    case False
    with assms(3) have "join_with ''/'' cs = join_with ''/'' ds" by (simp add: render_def)
    with False assms(1,2) show ?thesis
      by (intro join_with_inj[of cs ds "CHR ''/''"]) (auto simp: plain_component_def)
  qed
qed

text \<open>
  The string test of the source (a prefix that is followed by a slash) is the prefix order on
  component lists. This is what keeps \<^verbatim>\<open>/tmp/target-other\<close> out of \<^verbatim>\<open>/tmp/target\<close>.
\<close>

lemma boundary_imp_prefix:
  assumes cs: "\<forall>c \<in> set cs. plain_component c" and ds: "\<forall>c \<in> set ds. plain_component c"
    and ne: "ds \<noteq> []" and eq: "render cs = render ds @ CHR ''/'' # r"
  shows "prefix ds cs"
proof -
  have cs_ne: "cs \<noteq> []" using eq ne by (auto simp: render_def)
  with eq ne have "join_with ''/'' cs = join_with ''/'' ds @ CHR ''/'' # r" by (simp add: render_def)
  also have "\<dots> = join_with ''/'' (ds @ split_on (CHR ''/'') r)"
    using ne by (simp add: join_with_append join_split)
  finally have "join_with ''/'' cs = join_with ''/'' (ds @ split_on (CHR ''/'') r)" .
  then have "cs = ds @ split_on (CHR ''/'') r"
    using cs ds ne cs_ne
    by (intro join_with_inj[of _ _ "CHR ''/''"]) (auto simp: plain_component_def dest: split_on_pieces)
  then show ?thesis by simp
qed

lemma prefix_imp_boundary:
  assumes "ds \<noteq> []" "ds \<noteq> cs" "prefix ds cs"
  shows "\<exists>r. render cs = render ds @ CHR ''/'' # r"
proof -
  from assms obtain es where es: "cs = ds @ es" "es \<noteq> []" by (auto simp: prefix_def)
  with assms(1) have "render cs = render ds @ CHR ''/'' # join_with ''/'' es"
    by (simp add: render_def join_with_append)
  then show ?thesis by blast
qed

lemma boundary_test:
  "starts_with s p \<and> length p < length s \<and> s ! length p = c \<longleftrightarrow> (\<exists>r. s = p @ c # r)"
proof
  assume "starts_with s p \<and> length p < length s \<and> s ! length p = c"
  then obtain t where t: "s = p @ t" "t \<noteq> []" "hd t = c"
    by (auto simp: str_simps nth_append hd_conv_nth)
  then show "\<exists>r. s = p @ c # r" by (metis list.collapse)
qed (auto simp: str_simps)

lemma root_covers_iff:
  assumes cs: "\<forall>c \<in> set cs. plain_component c"
  shows "root_covers (render cs) root
           \<longleftrightarrow> (\<exists>rs. path_components root = Some rs \<and> prefix rs cs)"
proof (cases "path_components root")
  case None
  then show ?thesis by (simp add: root_covers_def normalize_path_eq)
next
  case (Some rs)
  have rs: "\<forall>c \<in> set rs. plain_component c" using Some path_components_plain by blast
  show ?thesis
  proof (cases "rs = []")
    case True
    then have "render rs = ''/''" by (simp add: render_def)
    with True Some show ?thesis by (auto simp: root_covers_def normalize_path_eq render_hd)
  next
    case False
    have "render [] = ''/''" by (simp add: render_def)
    with False have not_root: "render rs \<noteq> ''/''"
      using render_inj[OF rs, of "[]"] by (metis empty_iff empty_set)
    have "root_covers (render cs) root
            \<longleftrightarrow> render cs = render rs \<or> (\<exists>r. render cs = render rs @ CHR ''/'' # r)"
      using Some not_root by (simp add: root_covers_def normalize_path_eq boundary_test)
    also have "\<dots> \<longleftrightarrow> prefix rs cs"
    proof (cases "rs = cs")
      case neq: False
      then have "render cs \<noteq> render rs" using render_inj[OF cs rs] by metis
      then show ?thesis
        using boundary_imp_prefix[OF cs rs False] prefix_imp_boundary[OF False neq] by metis
    qed simp
    finally show ?thesis using Some by simp
  qed
qed


lemma split_on_subset: "q \<in> set (split_on c s) \<Longrightarrow> set q \<subseteq> set s"
  by (induction s arbitrary: q) (fastforce split: list.splits if_splits)+

lemma path_components_chars:
  assumes "path_components path = Some cs" and "c \<in> set cs"
  shows "backslash \<notin> set c" "nul \<notin> set c"
proof -
  from assms have c: "c \<in> set (raw_parts path)" and n: "nul \<notin> set path"
    by (auto simp: path_components_def split: if_splits)
  have sub: "set c \<subseteq> set (replace_char backslash ''/'' (strip_verbatim path))"
    using c unfolding raw_parts_def by (rule split_on_subset)
  have "set (strip_verbatim path) \<subseteq> set path"
    by (auto simp: strip_verbatim_def str_simps split: option.splits)
  with n have "nul \<notin> set (strip_verbatim path)" by blast
  then have "x \<noteq> backslash \<and> x \<noteq> nul" if "x \<in> set c" for x
    using subsetD[OF sub that] by (auto simp: replace_char_single)
  then show "backslash \<notin> set c" "nul \<notin> set c" by blast+
qed

lemma strip_verbatim_render:
  assumes "\<forall>c \<in> set cs. plain_component c"
  shows "strip_verbatim (render cs) = render cs"
proof (cases cs)
  case Nil
  then show ?thesis by (simp add: strip_verbatim_def render_def)
next
  case (Cons c ds)
  with assms obtain x xs where c: "c = x # xs" "x \<noteq> CHR ''/''"
    by (cases c) (auto simp: plain_component_def)
  obtain ys where "render cs = CHR ''/'' # x # ys"
    using Cons c by (cases ds) (auto simp: render_def)
  with c(2) show ?thesis by (simp add: strip_verbatim_def)
qed

lemma path_components_render:
  assumes cs: "\<forall>c \<in> set cs. plain_component c \<and> backslash \<notin> set c \<and> nul \<notin> set c"
  shows "path_components (render cs) = Some cs"
proof -
  have chars: "set (render cs) \<subseteq> {CHR ''/''} \<union> (\<Union>c \<in> set cs. set c)"
    using set_join_with[of "''/''" cs] by (auto simp: render_def)
  with cs have no: "backslash \<notin> set (render cs)" "nul \<notin> set (render cs)" by auto
  have "map (\<lambda>x. if x = backslash then CHR ''/'' else x) (render cs) = render cs"
    using no(1) by (intro map_idI) auto
  then have "raw_parts (render cs) = split_on (CHR ''/'') (render cs)"
    using cs by (simp add: raw_parts_def strip_verbatim_render replace_char_single)
  also have "\<dots> = (if cs = [] then [[], []] else [] # cs)"
    using cs by (auto simp: render_def split_join plain_component_def)
  finally have raw: "raw_parts (render cs) = (if cs = [] then [[], []] else [] # cs)" .
  have "''..'' \<notin> set (raw_parts (render cs))"
    using cs raw by (auto simp: plain_component_def)
  moreover have "filter (\<lambda>p. p \<noteq> [] \<and> p \<noteq> ''.'') cs = cs"
    using cs by (auto simp: plain_component_def filter_id_conv)
  ultimately show ?thesis
    using raw no(2) by (auto simp: path_components_def render_def)
qed

lemma path_allowed_components:
  "path_allowed path roots \<longleftrightarrow>
     \<not> is_forbidden_host_resource path
     \<and> (\<exists>cs root rs. path_components path = Some cs \<and> root \<in> set roots
          \<and> path_components root = Some rs \<and> prefix rs cs)"
proof (cases "path_components path")
  case None
  then show ?thesis by (simp add: path_allowed_def normalize_path_eq)
next
  case (Some cs)
  then have "\<forall>c \<in> set cs. plain_component c" using path_components_plain by blast
  from root_covers_iff[OF this] Some show ?thesis
    by (auto simp: path_allowed_def normalize_path_eq list_ex_iff)
qed

subsection \<open>Properties\<close>

text \<open>C16. The path gate is component containment: a path is allowed exactly when it does not name a
  forbidden host resource, it is not empty, has no NUL and no \<^verbatim>\<open>..\<close> component, and the
  components of some authorized root are a prefix of its components. In particular a sibling
  directory that merely shares the root's spelling is not in scope.\<close>

theorem path_allowed_iff:
  "path_allowed path roots \<longleftrightarrow>
     \<not> is_forbidden_host_resource path
     \<and> (\<exists>cs root rs. path_components path = Some cs \<and> root \<in> set roots
          \<and> path_components root = Some rs \<and> prefix rs cs)"
  by (rule path_allowed_components)

text \<open>Normalization reaches a fixed point in one step: a normalized path normalizes to itself,
  so the broker may normalize an already normalized path without changing what it names.\<close>

theorem normalize_path_idem:
  assumes "normalize_path path = Some n"
  shows "normalize_path n = Some n"
proof -
  from assms obtain cs where cs: "path_components path = Some cs" "n = render cs"
    by (auto simp: normalize_path_eq)
  then have "path_components n = Some cs"
    using path_components_plain path_components_chars by (auto intro!: path_components_render)
  with cs(2) show ?thesis by (simp add: normalize_path_eq)
qed

lemma normalize_path_idem_witness:
  "normalize_path ''/tmp//target/./a'' = Some ''/tmp/target/a''
   \<and> normalize_path ''/tmp/target/a'' = Some ''/tmp/target/a''"
proof
  show *: "normalize_path ''/tmp//target/./a'' = Some ''/tmp/target/a''" by code_simp
  from * show "normalize_path ''/tmp/target/a'' = Some ''/tmp/target/a''"
    by (rule normalize_path_idem)
qed

lemma path_allowed_examples:
  "path_allowed ''/tmp/target/src/main.rs'' [''/tmp/target'']"
  "\<not> path_allowed ''/tmp/target-other/secret'' [''/tmp/target'']"
  "\<not> path_allowed ''/tmp/target/../etc/passwd'' [''/tmp/target'']"
  by code_simp+

end
