(* ===== verification/Ip_Addr.thy ===== *)
theory Ip_Addr
  imports Rust_Str
begin

text \<open>
  \<^verbatim>\<open>std::net::IpAddr::from_str\<close>, which decides for the network gate whether a host is an
  address or a name. The functions are the recursive-descent parser of the standard library: each
  takes the remaining input and gives the value read and the input left, or \<open>None\<close> without
  consuming anything. The main result is that dotted-decimal notation is canonical: exactly one
  spelling parses to each IPv4 address.
\<close>

datatype ip_addr = V4 u8 u8 u8 u8 | V6 "u16 list"

type_synonym 'a reader = "string \<Rightarrow> ('a \<times> string) option"

subsection \<open>The parser\<close>

definition to_digit :: "nat \<Rightarrow> char \<Rightarrow> nat option" where
  "to_digit radix c =
     (let n = (of_char c :: nat);
          d = (if 48 \<le> n \<and> n \<le> 57 then n - 48
               else if 97 \<le> n \<and> n \<le> 122 then n - 87
               else if 65 \<le> n \<and> n \<le> 90 then n - 55
               else radix)
      in if d < radix then Some d else None)"

text \<open>Reads digits while there are any; fails as soon as there are more than \<open>max_digits\<close>.\<close>

fun read_digits :: "nat \<Rightarrow> nat \<Rightarrow> nat \<Rightarrow> nat \<Rightarrow> string \<Rightarrow> (nat \<times> nat \<times> string) option" where
  "read_digits radix max_digits count acc [] = Some (count, acc, [])"
| "read_digits radix max_digits count acc (c # cs) =
     (case to_digit radix c of
        None \<Rightarrow> Some (count, acc, c # cs)
      | Some d \<Rightarrow> if count + 1 > max_digits then None
                  else read_digits radix max_digits (count + 1) (acc * radix + d) cs)"

definition read_number :: "nat \<Rightarrow> nat \<Rightarrow> bool \<Rightarrow> nat \<Rightarrow> nat reader" where
  "read_number radix max_digits allow_zero_prefix bound s =
     (case read_digits radix max_digits 0 0 s of
        None \<Rightarrow> None
      | Some (count, result, rest) \<Rightarrow>
          if count = 0 then None
          else if \<not> allow_zero_prefix \<and> hd s = CHR ''0'' \<and> count > 1 then None
          else if result < bound then Some (result, rest) else None)"

definition read_given_char :: "char \<Rightarrow> unit reader" where
  "read_given_char c s = (case s of [] \<Rightarrow> None | x # xs \<Rightarrow> if x = c then Some ((), xs) else None)"

definition read_separator :: "char \<Rightarrow> nat \<Rightarrow> 'a reader \<Rightarrow> 'a reader" where
  "read_separator sep i inner s =
     (if i > 0 then (case read_given_char sep s of None \<Rightarrow> None | Some (_, s') \<Rightarrow> inner s')
      else inner s)"

fun read_octets :: "nat \<Rightarrow> nat \<Rightarrow> nat list reader" where
  "read_octets i 0 s = Some ([], s)"
| "read_octets i (Suc n) s =
     (case read_separator (CHR ''.'') i (read_number 10 3 False 256) s of
        None \<Rightarrow> None
      | Some (g, s') \<Rightarrow> (case read_octets (i + 1) n s' of
                           None \<Rightarrow> None | Some (gs, s'') \<Rightarrow> Some (g # gs, s'')))"

definition read_ipv4_addr :: "nat list reader" where
  "read_ipv4_addr s = read_octets 0 4 s"

definition be16 :: "nat \<Rightarrow> nat \<Rightarrow> nat" where
  "be16 hi lo = hi * 256 + lo"

text \<open>
  \<^verbatim>\<open>read_groups\<close> for slots \<open>i\<close> up to \<open>i + n\<close>: the groups read, whether an embedded IPv4
  address ended them, and the input left. It never fails.
\<close>

fun read_groups :: "nat \<Rightarrow> nat \<Rightarrow> string \<Rightarrow> nat list \<times> bool \<times> string" where
  "read_groups i 0 s = ([], False, s)"
| "read_groups i (Suc n) s =
     (case (if n > 0 then read_separator (CHR '':'') i read_ipv4_addr s else None) of
        Some (v4, s') \<Rightarrow> ([be16 (v4 ! 0) (v4 ! 1), be16 (v4 ! 2) (v4 ! 3)], True, s')
      | None \<Rightarrow>
          (case read_separator (CHR '':'') i (read_number 16 4 True 65536) s of
             None \<Rightarrow> ([], False, s)
           | Some (g, s') \<Rightarrow>
               (case read_groups (i + 1) n s' of (gs, v4, s'') \<Rightarrow> (g # gs, v4, s''))))"

definition read_ipv6_addr :: "nat list reader" where
  "read_ipv6_addr s =
     (case read_groups 0 8 s of (head, head_ipv4, s1) \<Rightarrow>
        if length head = 8 then Some (head, s1)
        else if head_ipv4 then None
        else (case read_given_char (CHR '':'') s1 of
               None \<Rightarrow> None
             | Some (_, s2) \<Rightarrow>
                 (case read_given_char (CHR '':'') s2 of
                    None \<Rightarrow> None
                  | Some (_, s3) \<Rightarrow>
                      (case read_groups 0 (8 - (length head + 1)) s3 of (tail, _, s4) \<Rightarrow>
                         Some (head @ replicate (8 - length tail - length head) 0 @ tail, s4)))))"

definition mk_v4 :: "nat list \<Rightarrow> ip_addr" where
  "mk_v4 gs = V4 (of_nat (gs ! 0)) (of_nat (gs ! 1)) (of_nat (gs ! 2)) (of_nat (gs ! 3))"

definition read_ip_addr :: "ip_addr reader" where
  "read_ip_addr s =
     (case read_ipv4_addr s of
        Some (gs, r) \<Rightarrow> Some (mk_v4 gs, r)
      | None \<Rightarrow> map_option (\<lambda>(gs, r). (V6 (map of_nat gs), r)) (read_ipv6_addr s))"

definition ip_from_str :: "string \<Rightarrow> ip_addr option" where
  "ip_from_str s = (case read_ip_addr s of Some (ip, []) \<Rightarrow> Some ip | _ \<Rightarrow> None)"

text \<open>\<^verbatim>\<open>Display\<close> of an IPv4 address.\<close>

definition show_ipv4 :: "u8 \<Rightarrow> u8 \<Rightarrow> u8 \<Rightarrow> u8 \<Rightarrow> string" where
  "show_ipv4 a b c d = join_with ''.'' (map (\<lambda>x. show_nat (unat x)) [a, b, c, d])"


subsection \<open>Decimal numbers are read in canonical form\<close>

lemma to_digit_10: "to_digit 10 c = (if is_ascii_digit c then Some (of_char c - 48) else None)"
  by (auto simp: to_digit_def is_ascii_digit_def Let_def)

lemma read_digits_split:
  assumes "read_digits 10 m k acc s = Some (k', v, r)"
  shows "\<exists>ds. s = ds @ r \<and> k' = k + length ds \<and> parse_digits acc ds = Some v
              \<and> (r = [] \<or> \<not> is_ascii_digit (hd r))"
  using assms
proof (induction s arbitrary: k acc)
  case Nil
  then show ?case by simp
next
  case (Cons c cs)
  show ?case
  proof (cases "is_ascii_digit c")
    case False
    with Cons.prems show ?thesis by (intro exI[of _ "[]"]) (auto simp: to_digit_10)
  next
    case True
    with Cons.prems have "read_digits 10 m (k + 1) (acc * 10 + (of_char c - 48)) cs = Some (k', v, r)"
      by (auto simp: to_digit_10 split: if_splits)
    from Cons.IH[OF this] obtain ds where
      "cs = ds @ r" "k' = k + 1 + length ds" "parse_digits (acc * 10 + (of_char c - 48)) ds = Some v"
      "r = [] \<or> \<not> is_ascii_digit (hd r)"
      by blast
    with True show ?thesis by (intro exI[of _ "c # ds"]) (auto simp: mult.commute)
  qed
qed

lemma read_digits_digits:
  assumes "parse_digits acc ds = Some v" "k + length ds \<le> m" "r = [] \<or> \<not> is_ascii_digit (hd r)"
  shows "read_digits 10 m k acc (ds @ r) = Some (k + length ds, v, r)"
  using assms
proof (induction ds arbitrary: k acc)
  case Nil
  then show ?case by (cases r) (auto simp: to_digit_10)
next
  case (Cons c cs)
  then show ?case by (auto simp: to_digit_10 mult.commute split: if_splits)
qed

lemma digit_char_inv: "is_ascii_digit c \<Longrightarrow> char_of (48 + (of_char c - 48 :: nat)) = c"
  by (auto simp: is_ascii_digit_def Let_def)

lemma digit_lt_10: "is_ascii_digit c \<Longrightarrow> (of_char c - 48 :: nat) < 10"
  by (auto simp: is_ascii_digit_def Let_def)

lemma zero_char: "of_char (CHR ''0'') = (48 :: nat)" "char_of (48 :: nat) = CHR ''0''"
  by code_simp+

lemma hd_show_nat: "hd (show_nat n) = CHR ''0'' \<longleftrightarrow> n = 0"
proof (induction n rule: show_nat.induct)
  case (1 n)
  have eq: "char_of (48 + n) = CHR ''0'' \<longleftrightarrow> n = 0" if "n < 10"
    using digit_char(2)[OF that] zero_char by (metis add.right_neutral add_left_cancel)
  show ?case
  proof (cases "n < 10")
    case True
    then show ?thesis using eq by (subst show_nat.simps) simp
  next
    case False
    with 1 show ?thesis by (subst show_nat.simps) simp
  qed
qed

lemma show_nat_snoc: "0 < n \<Longrightarrow> d < 10 \<Longrightarrow> show_nat (10 * n + d) = show_nat n @ [char_of (48 + d)]"
  by (subst show_nat.simps) simp

lemma show_nat_parse:
  assumes "ds \<noteq> []" "parse_digits 0 ds = Some v" "hd ds \<noteq> CHR ''0'' \<or> length ds = 1"
  shows "ds = show_nat v"
  using assms
proof (induction ds arbitrary: v rule: rev_induct)
  case Nil
  then show ?case by simp
next
  case (snoc c xs)
  from snoc.prems(2) obtain w where w: "parse_digits 0 xs = Some w" "is_ascii_digit c"
    "v = 10 * w + (of_char c - 48)"
    by (auto simp: parse_digits_append split: option.splits if_splits)
  show ?case
  proof (cases "xs = []")
    case True
    with w digit_lt_10[of c] show ?thesis by (subst show_nat.simps) (simp add: digit_char_inv)
  next
    case False
    with snoc.prems have "hd xs \<noteq> CHR ''0''" by (cases xs) auto
    with snoc.IH[OF False w(1)] have xs: "xs = show_nat w" "hd (show_nat w) \<noteq> CHR ''0''" by auto
    then have "0 < w" by (simp add: hd_show_nat)
    with xs w digit_lt_10[of c] show ?thesis by (simp add: show_nat_snoc digit_char_inv)
  qed
qed

lemma length_show_nat: "n < 1000 \<Longrightarrow> length (show_nat n) \<le> 3"
proof -
  assume "n < 1000"
  then have "n div 10 div 10 < 10" by simp
  then show ?thesis
    by (subst show_nat.simps, subst show_nat.simps, subst show_nat.simps) auto
qed

lemma read_number_dec:
  "read_number 10 3 False 256 s = Some (n, r) \<longleftrightarrow>
     n < 256 \<and> s = show_nat n @ r \<and> (r = [] \<or> \<not> is_ascii_digit (hd r))"
proof
  assume "read_number 10 3 False 256 s = Some (n, r)"
  then obtain k where rd: "read_digits 10 3 0 0 s = Some (k, n, r)"
    and k: "k \<noteq> 0" "\<not> (hd s = CHR ''0'' \<and> k > 1)" and n: "n < 256"
    by (auto simp: read_number_def split: option.splits if_splits)
  from read_digits_split[OF rd] obtain ds where ds: "s = ds @ r" "k = length ds"
    "parse_digits 0 ds = Some n" "r = [] \<or> \<not> is_ascii_digit (hd r)" by auto
  from ds k have "ds \<noteq> []" and "hd ds \<noteq> CHR ''0'' \<or> length ds = 1"
    by (cases ds; simp)+
  then have "ds = show_nat n"
    using ds(3) by (intro show_nat_parse)
  with ds n show "n < 256 \<and> s = show_nat n @ r \<and> (r = [] \<or> \<not> is_ascii_digit (hd r))" by simp
next
  assume a: "n < 256 \<and> s = show_nat n @ r \<and> (r = [] \<or> \<not> is_ascii_digit (hd r))"
  then have len: "length (show_nat n) \<le> 3" by (intro length_show_nat) simp
  with a have rd: "read_digits 10 3 0 0 s = Some (length (show_nat n), n, r)"
    using read_digits_digits[of 0 "show_nat n" n 0 3 r] by (simp add: parse_digits_show)
  have "length (show_nat n) = 1" if "hd s = CHR ''0''"
  proof -
    from that a have "n = 0" by (simp add: hd_show_nat)
    then show ?thesis by (subst show_nat.simps) simp
  qed
  with a rd show "read_number 10 3 False 256 s = Some (n, r)"
    by (auto simp: read_number_def)
qed

subsection \<open>IPv4 addresses\<close>

definition stops :: "string \<Rightarrow> bool" where
  "stops r = (r = [] \<or> \<not> is_ascii_digit (hd r))"

lemma stops_dot [simp]: "stops (CHR ''.'' # r)"
  by (simp add: stops_def is_ascii_digit_def)

lemma read_octet_first:
  "read_separator sep 0 (read_number 10 3 False 256) s = Some (n, r) \<longleftrightarrow>
     n < 256 \<and> s = show_nat n @ r \<and> stops r"
  by (simp add: read_separator_def read_number_dec stops_def)

lemma read_octet_next:
  "read_separator sep (Suc i) (read_number 10 3 False 256) s = Some (n, r) \<longleftrightarrow>
     n < 256 \<and> s = sep # show_nat n @ r \<and> stops r"
  by (auto simp: read_separator_def read_given_char_def read_number_dec stops_def
      split: list.splits if_splits)

lemma read_octets_Suc:
  "read_octets i (Suc n) s = Some (gs, r) \<longleftrightarrow>
     (\<exists>g gs' s'. gs = g # gs'
        \<and> read_separator (CHR ''.'') i (read_number 10 3 False 256) s = Some (g, s')
        \<and> read_octets (Suc i) n s' = Some (gs', r))"
  by (auto split: option.splits)

lemma read_ipv4_addr_iff:
  "read_ipv4_addr s = Some (gs, r) \<longleftrightarrow>
     (\<exists>a b c d. gs = [a, b, c, d] \<and> a < 256 \<and> b < 256 \<and> c < 256 \<and> d < 256 \<and> stops r
        \<and> s = show_nat a @ ''.'' @ show_nat b @ ''.'' @ show_nat c @ ''.'' @ show_nat d @ r)"
proof -
  have four: "(4 :: nat) = Suc (Suc (Suc (Suc 0)))" by simp
  show ?thesis
    unfolding read_ipv4_addr_def four
    by (simp add: read_octets_Suc read_octet_first read_octet_next del: read_octets.simps(2))
       fastforce
qed

text \<open>Dotted-decimal notation is canonical: no leading zeros, no other radix, no spare spellings.\<close>

lemma ip_from_str_V4_iff: "ip_from_str s = Some (V4 a b c d) \<longleftrightarrow> s = show_ipv4 a b c d"
proof -
  have lt: "unat (x :: u8) < 256" for x using unsigned_less[of x, where 'a = nat] by simp
  have "ip_from_str s = Some (V4 a b c d)
          \<longleftrightarrow> (\<exists>gs. read_ipv4_addr s = Some (gs, []) \<and> mk_v4 gs = V4 a b c d)"
    by (auto simp: ip_from_str_def read_ip_addr_def split: option.splits list.splits)
  also have "\<dots> \<longleftrightarrow> read_ipv4_addr s = Some ([unat a, unat b, unat c, unat d], [])"
  proof
    assume "\<exists>gs. read_ipv4_addr s = Some (gs, []) \<and> mk_v4 gs = V4 a b c d"
    then obtain gs where gs: "read_ipv4_addr s = Some (gs, [])" "mk_v4 gs = V4 a b c d" by blast
    then have "gs = [unat a, unat b, unat c, unat d]"
      by (auto simp: mk_v4_def read_ipv4_addr_iff unsigned_of_nat take_bit_nat_eq_self)
    with gs show "read_ipv4_addr s = Some ([unat a, unat b, unat c, unat d], [])" by simp
  qed (auto simp: mk_v4_def)
  also have "\<dots> \<longleftrightarrow> s = show_ipv4 a b c d"
    by (auto simp: read_ipv4_addr_iff show_ipv4_def stops_def lt)
  finally show ?thesis .
qed

subsection \<open>The characters of an address\<close>

definition ip_char :: "char \<Rightarrow> bool" where
  "ip_char c = (to_digit 16 c \<noteq> None \<or> c = CHR ''.'' \<or> c = CHR '':'')"

definition eats :: "string \<Rightarrow> string \<Rightarrow> bool" where
  "eats s r = (\<exists>p. s = p @ r \<and> list_all ip_char p)"

lemma eats_refl [simp]: "eats s s"
  by (simp add: eats_def)

lemma eats_trans [trans]: "eats s t \<Longrightarrow> eats t r \<Longrightarrow> eats s r"
  unfolding eats_def by (metis append.assoc list_all_append)

lemma eats_Cons: "ip_char c \<Longrightarrow> eats s r \<Longrightarrow> eats (c # s) r"
  unfolding eats_def by (metis append_Cons list.pred_inject(2))

lemma digit_ip_char: "radix \<le> 16 \<Longrightarrow> to_digit radix c = Some d \<Longrightarrow> ip_char c"
  by (auto simp: to_digit_def ip_char_def Let_def split: if_splits)

lemma read_digits_eats:
  "radix \<le> 16 \<Longrightarrow> read_digits radix m k acc s = Some (k', v, r) \<Longrightarrow> eats s r"
  by (induction s arbitrary: k acc)
     (auto split: option.splits if_splits intro: eats_Cons digit_ip_char)

lemma read_number_eats: "radix \<le> 16 \<Longrightarrow> read_number radix m z b s = Some (v, r) \<Longrightarrow> eats s r"
  by (auto simp: read_number_def split: option.splits if_splits dest: read_digits_eats)

lemma read_given_char_eats: "ip_char c \<Longrightarrow> read_given_char c s = Some (u, r) \<Longrightarrow> eats s r"
  by (auto simp: read_given_char_def split: list.splits if_splits intro: eats_Cons)

lemma read_separator_eats:
  assumes "read_separator sep i inner s = Some (x, r)" "ip_char sep"
    and "\<And>t. inner t = Some (x, r) \<Longrightarrow> eats t r"
  shows "eats s r"
  using assms
  by (auto simp: read_separator_def split: if_splits option.splits
      intro: eats_trans dest!: read_given_char_eats)

lemma separators_ip_char [simp]: "ip_char (CHR ''.'')" "ip_char (CHR '':'')"
  by (simp_all add: ip_char_def)

lemma read_octets_eats: "read_octets i n s = Some (gs, r) \<Longrightarrow> eats s r"
proof (induction i n s arbitrary: gs rule: read_octets.induct)
  case (2 i n s)
  from "2.prems" obtain g gs' s' where
    g: "read_separator (CHR ''.'') i (read_number 10 3 False 256) s = Some (g, s')" and
    rest: "read_octets (i + 1) n s' = Some (gs', r)"
    by (auto split: option.splits)
  have "eats s s'" using g by (rule read_separator_eats) (auto intro: read_number_eats[of 10, simplified])
  also have "eats s' r" using "2.IH"[OF g refl] rest by simp
  finally show ?case .
qed simp

lemma read_ipv4_addr_eats: "read_ipv4_addr s = Some (gs, r) \<Longrightarrow> eats s r"
  by (auto simp: read_ipv4_addr_def dest: read_octets_eats)

lemma read_groups_eats: "read_groups i n s = (gs, v4, r) \<Longrightarrow> eats s r"
proof (induction i n s arbitrary: gs v4 rule: read_groups.induct)
  case (2 i n s)
  let ?v4 = "if n > 0 then read_separator (CHR '':'') i read_ipv4_addr s else None"
  let ?hex = "read_separator (CHR '':'') i (read_number 16 4 True 65536) s"
  show ?case
  proof (cases ?v4)
    case (Some a)
    with "2.prems" obtain q where "read_separator (CHR '':'') i read_ipv4_addr s = Some (q, r)"
      by (cases a) (auto split: if_splits)
    then show ?thesis by (rule read_separator_eats) (auto intro: read_ipv4_addr_eats)
  next
    case none: None
    show ?thesis
    proof (cases ?hex)
      case None
      with none "2.prems" show ?thesis by simp
    next
      case (Some a)
      then obtain g s' where a: "?hex = Some (g, s')" by (cases a) auto
      then have "eats s s'"
        by (rule read_separator_eats) (auto intro: read_number_eats[of 16, simplified])
      also obtain gs' w where "read_groups (i + 1) n s' = (gs', w, r)"
        using "2.prems" none a by (auto split: prod.splits)
      then have "eats s' r" using "2.IH"[OF none a refl] by simp
      finally show ?thesis .
    qed
  qed
qed simp

lemma read_ipv6_addr_eats:
  assumes "read_ipv6_addr s = Some (gs, r)"
  shows "eats s r"
proof -
  obtain hd4 v4 s1 where g: "read_groups 0 8 s = (hd4, v4, s1)" by (metis prod_cases3)
  then have 1: "eats s s1" by (rule read_groups_eats)
  show ?thesis
  proof (cases "length hd4 = 8")
    case True
    with assms g 1 show ?thesis by (simp add: read_ipv6_addr_def)
  next
    case False
    with assms g obtain u w s2 s3 where
      c: "read_given_char (CHR '':'') s1 = Some (u, s2)"
         "read_given_char (CHR '':'') s2 = Some (w, s3)" and
      t: "\<exists>tl4 v. read_groups 0 (8 - (length hd4 + 1)) s3 = (tl4, v, r)"
      by (auto simp: read_ipv6_addr_def split: if_splits option.splits prod.splits)
    note 1
    also have "eats s1 s2" using c(1) by (rule read_given_char_eats[rotated]) simp
    also have "eats s2 s3" using c(2) by (rule read_given_char_eats[rotated]) simp
    also have "eats s3 r" using t read_groups_eats by blast
    finally show ?thesis .
  qed
qed

lemma ip_from_str_chars: "ip_from_str s = Some ip \<Longrightarrow> list_all ip_char s"
proof -
  assume "ip_from_str s = Some ip"
  then have "eats s []"
    by (auto simp: ip_from_str_def read_ip_addr_def split: option.splits list.splits
        dest: read_ipv4_addr_eats read_ipv6_addr_eats)
  then show ?thesis by (simp add: eats_def)
qed

end
