(* ===== verification/Policy.thy ===== *)
theory Policy
  imports Domain Path_Scope Ip_Addr
begin

text \<open>
  Crate \<^verbatim>\<open>aros-policy\<close>: the network gate (\<^verbatim>\<open>network_scope.rs\<close>), the argv and HTTP
  checks (\<^verbatim>\<open>shell.rs\<close>) and the policy decision point (\<^verbatim>\<open>engine.rs\<close>). Membership of an
  address in a CIDR block belongs to crate \<^verbatim>\<open>ipnet\<close>: it is the parameter \<open>contains\<close>. The
  specification \<open>authorized\<close> says what an intent must satisfy; the decision point is shown to
  implement it, and to be monotone in the manifest.
\<close>

subsection \<open>network\_scope.rs\<close>

fun host_is_public_unspecified_or_broadcast :: "ip_addr \<Rightarrow> bool" where
  "host_is_public_unspecified_or_broadcast (V4 a b c d) =
     ((a = 0 \<and> b = 0 \<and> c = 0 \<and> d = 0)
      \<or> (a = 255 \<and> b = 255 \<and> c = 255 \<and> d = 255)
      \<or> (224 \<le> a \<and> a \<le> 239))"
| "host_is_public_unspecified_or_broadcast (V6 segs) =
     (list_all (\<lambda>s. s = 0) segs \<or> (case segs of [] \<Rightarrow> False | s # _ \<Rightarrow> 0xff00 \<le> s))"

definition parse_host_ip :: "string \<Rightarrow> ip_addr option" where
  "parse_host_ip host = ip_from_str (trim_matches (\<lambda>c. c = CHR ''['' \<or> c = CHR '']'') (trim host))"

definition network_allowed ::
    "('net \<Rightarrow> ip_addr \<Rightarrow> bool) \<Rightarrow> network_intent \<Rightarrow> 'net allowed_endpoint list \<Rightarrow> bool" where
  "network_allowed contains intent endpoints =
     (case parse_host_ip (ni_host intent) of
        None \<Rightarrow> False
      | Some ip \<Rightarrow>
          if host_is_public_unspecified_or_broadcast ip then False
          else list_ex (\<lambda>ep. contains (ep_cidr ep) ip
                             \<and> ni_port intent \<in> ep_ports ep
                             \<and> ni_protocol intent \<in> ep_protocols ep) endpoints)"

definition default_denied_examples :: "network_intent list" where
  "default_denied_examples =
     [\<lparr>ni_host = ''8.8.8.8'', ni_port = 53, ni_protocol = Udp\<rparr>,
      \<lparr>ni_host = ''1.1.1.1'', ni_port = 443, ni_protocol = Https\<rparr>,
      \<lparr>ni_host = ''2001:4860:4860::8888'', ni_port = 53, ni_protocol = Udp\<rparr>]"

subsection \<open>shell.rs\<close>

definition METACHARACTERS :: "char list" where
  "METACHARACTERS =
     [CHR '';'', CHR ''|'', CHR ''&'', CHR ''$'', CHR 0x60, newline, carriage_return, CHR ''('',
      CHR '')'', CHR ''<'', CHR ''>'', CHR ''*'', CHR ''?'', CHR ''['', CHR '']'', CHR ''{'',
      CHR ''}'']"

definition argv_contains_shell_metacharacters :: "string list \<Rightarrow> bool" where
  "argv_contains_shell_metacharacters argv =
     list_ex (list_ex (\<lambda>c. List.member METACHARACTERS c)) argv"

text \<open>\<^verbatim>\<open>rsplit(['/', '\\']).next()\<close>: the text after the last separator.\<close>

definition last_segment :: "string \<Rightarrow> string" where
  "last_segment name = rev (takeWhile (\<lambda>c. c \<noteq> CHR ''/'' \<and> c \<noteq> backslash) (rev name))"

definition shell_names :: "string list" where
  "shell_names = [''sh'', ''bash'', ''zsh'', ''dash'', ''csh'', ''tcsh'', ''fish'', ''cmd.exe'',
     ''cmd'', ''powershell'', ''powershell.exe'', ''pwsh'', ''pwsh.exe'']"

definition executable_is_shell :: "string \<Rightarrow> bool" where
  "executable_is_shell name = List.member shell_names (to_ascii_lowercase (last_segment name))"

definition http_request_target_is_safe :: "string \<Rightarrow> bool" where
  "http_request_target_is_safe target =
     (starts_with target ''/'' \<and> target \<noteq> []
      \<and> list_all (\<lambda>c. \<not> is_control c \<and> \<not> is_whitespace c) target)"

definition http_cookie_is_safe :: "string \<Rightarrow> bool" where
  "http_cookie_is_safe cookie =
     (cookie \<noteq> [] \<and> list_all (\<lambda>c. \<not> is_control c \<and> c \<noteq> newline \<and> c \<noteq> carriage_return) cookie)"

subsection \<open>engine.rs\<close>

record sandbox_identity =
  si_id :: sandbox_id
  si_containment_demonstrated :: bool

record policy_verdict =
  pv_decision :: policy_decision
  pv_reason :: string

definition verdict_allow :: "string \<Rightarrow> policy_verdict" where
  "verdict_allow reason = \<lparr>pv_decision = Allow, pv_reason = reason\<rparr>"

definition verdict_deny :: "string \<Rightarrow> policy_verdict" where
  "verdict_deny reason = \<lparr>pv_decision = Deny, pv_reason = reason\<rparr>"

definition verdict_human :: "string \<Rightarrow> policy_verdict" where
  "verdict_human reason = \<lparr>pv_decision = RequiresHuman, pv_reason = reason\<rparr>"

definition is_allow :: "policy_verdict \<Rightarrow> bool" where
  "is_allow v = (pv_decision v = Allow)"

text \<open>
  The body of \<^verbatim>\<open>evaluate\<close> is a sequence of guarded returns. Each guard below is one of them, in
  the source's order; \<open>Some\<close> is the early return.
\<close>

definition network_capability :: "tool_capability \<Rightarrow> bool" where
  "network_capability c = (c = HttpRequest \<or> c = BrowserRequest)"

definition check_containment ::
    "'net authorization_manifest \<Rightarrow> sandbox_identity \<Rightarrow> policy_verdict option" where
  "check_containment m sandbox =
     (if am_require_containment m \<and> \<not> si_containment_demonstrated sandbox
      then Some (verdict_deny ''containment not demonstrated; campaign fails closed (ADR-0004)'')
      else None)"

definition check_capability ::
    "'net authorization_manifest \<Rightarrow> tool_intent \<Rightarrow> policy_verdict option" where
  "check_capability m intent =
     (if ti_capability intent \<notin> am_tool_allowlist m
      then Some (verdict_deny (''capability '' @ capability_as_str (ti_capability intent)
                               @ '' is not on the tool allowlist''))
      else None)"

definition check_arguments :: "tool_intent \<Rightarrow> policy_verdict option" where
  "check_arguments intent =
     (if network_capability (ti_capability intent) then
        if ti_argv intent \<noteq> [] then
          Some (verdict_deny ''http intents must use http_target/http_cookie, not argv'')
        else (case ti_http_target intent of
                None \<Rightarrow> Some (verdict_deny ''http request requires http_target'')
              | Some target \<Rightarrow>
                  if \<not> http_request_target_is_safe target then
                    Some (verdict_deny ''http request target is not a safe absolute path'')
                  else (case ti_http_cookie intent of
                          None \<Rightarrow> None
                        | Some cookie \<Rightarrow>
                            if \<not> http_cookie_is_safe cookie then
                              Some (verdict_deny ''http cookie contains control characters'')
                            else None))
      else if argv_contains_shell_metacharacters (ti_argv intent) then
        Some (verdict_deny ''argv contains shell metacharacters'')
      else None)"

definition check_executable :: "tool_intent \<Rightarrow> policy_verdict option" where
  "check_executable intent =
     (case ti_argv intent of
        [] \<Rightarrow> None
      | exe # _ \<Rightarrow>
          if executable_is_shell exe then
            Some (verdict_deny ''shell executables are not a tool capability'')
          else None)"

definition check_path :: "'net authorization_manifest \<Rightarrow> tool_intent \<Rightarrow> policy_verdict option" where
  "check_path m intent =
     (case ti_path intent of
        None \<Rightarrow> None
      | Some path \<Rightarrow>
          if is_forbidden_host_resource path then
            Some (verdict_deny ''host secret or container socket path is forbidden'')
          else if \<not> path_allowed path (am_allowed_filesystem_roots m) then
            Some (verdict_deny ''path is outside allowed filesystem roots'')
          else None)"

definition check_cwd :: "'net authorization_manifest \<Rightarrow> tool_intent \<Rightarrow> policy_verdict option" where
  "check_cwd m intent =
     (case ti_cwd intent of
        None \<Rightarrow> None
      | Some cwd \<Rightarrow>
          if \<not> path_allowed cwd (am_allowed_filesystem_roots m) then
            Some (verdict_deny ''cwd is outside allowed filesystem roots'')
          else None)"

definition check_network ::
    "('net \<Rightarrow> ip_addr \<Rightarrow> bool) \<Rightarrow> 'net authorization_manifest \<Rightarrow> tool_intent
      \<Rightarrow> policy_verdict option" where
  "check_network contains m intent =
     (case ti_network intent of
        None \<Rightarrow> None
      | Some net \<Rightarrow>
          let ip_ok = (parse_host_ip (ni_host net) \<noteq> None
                       \<and> network_allowed contains net (am_allowed_endpoints m));
              name_ok = (ni_host net \<in> am_allowed_service_names m
                         \<and> network_allowed contains
                              \<lparr>ni_host = ''127.0.0.1'', ni_port = ni_port net,
                               ni_protocol = ni_protocol net\<rparr> (am_allowed_endpoints m))
          in if \<not> ip_ok \<and> \<not> name_ok then
               Some (verdict_deny ''network destination is not in the allowlist'')
             else if parse_host_ip (ni_host net) = None
                     \<and> ni_host net \<notin> am_allowed_service_names m then
               Some (verdict_deny ''hostname is not an allowed service name'')
             else if parse_host_ip (ni_host net) \<noteq> None
                     \<and> \<not> network_allowed contains net (am_allowed_endpoints m) then
               Some (verdict_deny ''ip/port/protocol is not in the allowlist'')
             else None)"

definition check_required :: "tool_intent \<Rightarrow> policy_verdict option" where
  "check_required intent =
     (if network_capability (ti_capability intent) \<and> ti_network intent = None then
        Some (verdict_deny ''network capability requires a network intent'')
      else if (ti_capability intent = ReadFile \<or> ti_capability intent = CollectFile
               \<or> ti_capability intent = SearchText) \<and> ti_path intent = None then
        Some (verdict_deny ''filesystem capability requires a path'')
      else None)"

definition check_destructive ::
    "'net authorization_manifest \<Rightarrow> tool_intent \<Rightarrow> policy_verdict option" where
  "check_destructive m intent =
     (case am_destructive m of
        Forbid \<Rightarrow> None
      | RequireHuman \<Rightarrow>
          if ti_capability intent = ExecuteAllowlistedBinary
             \<or> ti_capability intent = FuzzAdapter then
            Some (verdict_human ''destructive policy requires an explicit CLI invocation'')
          else None
      | AllowInSandbox \<Rightarrow> None)"

fun first_return :: "policy_verdict option list \<Rightarrow> policy_verdict \<Rightarrow> policy_verdict" where
  "first_return [] v = v"
| "first_return (None # cs) v = first_return cs v"
| "first_return (Some r # cs) v = r"

definition evaluate ::
    "('net \<Rightarrow> ip_addr \<Rightarrow> bool) \<Rightarrow> 'net authorization_manifest \<Rightarrow> target_snapshot option
      \<Rightarrow> sandbox_identity \<Rightarrow> tool_intent \<Rightarrow> policy_verdict" where
  "evaluate contains m snapshot sandbox intent =
     first_return
       [check_containment m sandbox,
        check_capability m intent,
        check_arguments intent,
        check_executable intent,
        check_path m intent,
        check_cwd m intent,
        check_network contains m intent,
        check_required intent,
        check_destructive m intent]
       (verdict_allow ''allowlist match'')"

definition v0_1_effective_allow :: "policy_verdict \<Rightarrow> bool \<Rightarrow> bool" where
  "v0_1_effective_allow verdict cli_human_override =
     (case pv_decision verdict of
        Allow \<Rightarrow> True | Deny \<Rightarrow> False | RequiresHuman \<Rightarrow> cli_human_override)"

subsection \<open>Specification\<close>

definition in_scope :: "'net authorization_manifest \<Rightarrow> string \<Rightarrow> bool" where
  "in_scope m path \<longleftrightarrow>
     \<not> is_forbidden_host_resource path
     \<and> (\<exists>cs root rs. path_components path = Some cs \<and> root \<in> set (am_allowed_filesystem_roots m)
          \<and> path_components root = Some rs \<and> prefix rs cs)"

definition endpoint_listed ::
    "('net \<Rightarrow> ip_addr \<Rightarrow> bool) \<Rightarrow> 'net authorization_manifest \<Rightarrow> ip_addr \<Rightarrow> u16 \<Rightarrow> protocol_kind
      \<Rightarrow> bool" where
  "endpoint_listed contains m ip port proto \<longleftrightarrow>
     \<not> host_is_public_unspecified_or_broadcast ip
     \<and> (\<exists>ep. ep \<in> set (am_allowed_endpoints m) \<and> contains (ep_cidr ep) ip
          \<and> port \<in> ep_ports ep \<and> proto \<in> ep_protocols ep)"

text \<open>
  An address must be listed itself; a name must be an allowed service name, and then only buys what
  the loopback address already has.
\<close>

definition destination_ok ::
    "('net \<Rightarrow> ip_addr \<Rightarrow> bool) \<Rightarrow> 'net authorization_manifest \<Rightarrow> network_intent \<Rightarrow> bool" where
  "destination_ok contains m net \<longleftrightarrow>
     (case parse_host_ip (ni_host net) of
        Some ip \<Rightarrow> endpoint_listed contains m ip (ni_port net) (ni_protocol net)
      | None \<Rightarrow> ni_host net \<in> am_allowed_service_names m
                \<and> endpoint_listed contains m (V4 127 0 0 1) (ni_port net) (ni_protocol net))"

definition arguments_ok :: "tool_intent \<Rightarrow> bool" where
  "arguments_ok intent \<longleftrightarrow>
     (if network_capability (ti_capability intent) then
        ti_argv intent = []
        \<and> (\<exists>target. ti_http_target intent = Some target \<and> http_request_target_is_safe target)
        \<and> pred_option http_cookie_is_safe (ti_http_cookie intent)
        \<and> ti_network intent \<noteq> None
      else
        (\<forall>arg \<in> set (ti_argv intent). set arg \<inter> set METACHARACTERS = {})
        \<and> (ti_argv intent = [] \<or> \<not> executable_is_shell (hd (ti_argv intent))))"

definition authorized ::
    "('net \<Rightarrow> ip_addr \<Rightarrow> bool) \<Rightarrow> 'net authorization_manifest \<Rightarrow> sandbox_identity \<Rightarrow> tool_intent
      \<Rightarrow> bool" where
  "authorized contains m sandbox intent \<longleftrightarrow>
     (am_require_containment m \<longrightarrow> si_containment_demonstrated sandbox)
     \<and> ti_capability intent \<in> am_tool_allowlist m
     \<and> arguments_ok intent
     \<and> pred_option (in_scope m) (ti_path intent)
     \<and> pred_option (in_scope m) (ti_cwd intent)
     \<and> pred_option (destination_ok contains m) (ti_network intent)
     \<and> (ti_capability intent \<in> {ReadFile, CollectFile, SearchText} \<longrightarrow> ti_path intent \<noteq> None)"

definition needs_human :: "'net authorization_manifest \<Rightarrow> tool_intent \<Rightarrow> bool" where
  "needs_human m intent \<longleftrightarrow>
     am_destructive m = RequireHuman
     \<and> ti_capability intent \<in> {ExecuteAllowlistedBinary, FuzzAdapter}"

subsection \<open>The decision point implements the specification\<close>

named_theorems check_defs \<open>the guards of evaluate\<close>

declare check_containment_def [check_defs] check_capability_def [check_defs]
  check_arguments_def [check_defs] check_executable_def [check_defs] check_path_def [check_defs]
  check_cwd_def [check_defs] check_network_def [check_defs] check_required_def [check_defs]

lemma first_return_deny:
  assumes "\<And>v. Some v \<in> set ds \<Longrightarrow> pv_decision v = Deny"
  shows "pv_decision (first_return (ds @ cs) w) =
           (if \<forall>c \<in> set ds. c = None then pv_decision (first_return cs w) else Deny)"
  using assms
proof (induction ds)
  case (Cons d ds)
  then show ?case by (cases d) auto
qed simp

lemma checks_deny:
  "check_containment m s = Some v \<Longrightarrow> pv_decision v = Deny"
  "check_capability m i = Some v \<Longrightarrow> pv_decision v = Deny"
  "check_arguments i = Some v \<Longrightarrow> pv_decision v = Deny"
  "check_executable i = Some v \<Longrightarrow> pv_decision v = Deny"
  "check_path m i = Some v \<Longrightarrow> pv_decision v = Deny"
  "check_cwd m i = Some v \<Longrightarrow> pv_decision v = Deny"
  "check_network contains m i = Some v \<Longrightarrow> pv_decision v = Deny"
  "check_required i = Some v \<Longrightarrow> pv_decision v = Deny"
  by (auto simp: check_defs verdict_deny_def Let_def split: if_splits option.splits list.splits)

lemma parse_loopback: "parse_host_ip ''127.0.0.1'' = Some (V4 127 0 0 1)"
  by code_simp

lemma network_allowed_iff:
  "network_allowed contains net (am_allowed_endpoints m) \<longleftrightarrow>
     (\<exists>ip. parse_host_ip (ni_host net) = Some ip
           \<and> endpoint_listed contains m ip (ni_port net) (ni_protocol net))"
  by (auto simp: network_allowed_def endpoint_listed_def list_ex_iff split: option.splits)

lemma check_network_None:
  "check_network contains m i = None \<longleftrightarrow> pred_option (destination_ok contains m) (ti_network i)"
  by (auto simp: check_network_def network_allowed_iff destination_ok_def parse_loopback Let_def
      split: option.splits)

lemma check_path_None: "check_path m i = None \<longleftrightarrow> pred_option (in_scope m) (ti_path i)"
  by (auto simp: check_path_def in_scope_def path_allowed_components split: option.splits)

lemma check_cwd_None: "check_cwd m i = None \<longleftrightarrow> pred_option (in_scope m) (ti_cwd i)"
  by (auto simp: check_cwd_def in_scope_def path_allowed_components split: option.splits)

lemma metacharacters_iff:
  "\<not> argv_contains_shell_metacharacters argv
     \<longleftrightarrow> (\<forall>arg \<in> set argv. set arg \<inter> set METACHARACTERS = {})"
  by (auto simp: argv_contains_shell_metacharacters_def list_ex_iff)

lemma check_arguments_None:
  "check_arguments i = None \<and> check_executable i = None \<and> check_required i = None \<longleftrightarrow>
     arguments_ok i
     \<and> (ti_capability i \<in> {ReadFile, CollectFile, SearchText} \<longrightarrow> ti_path i \<noteq> None)"
  unfolding arguments_ok_def metacharacters_iff[symmetric]
  by (auto simp: check_arguments_def check_executable_def check_required_def
      network_capability_def split: option.splits list.splits if_splits)

lemma checks_None:
  "(\<forall>c \<in> set [check_containment m s, check_capability m i, check_arguments i, check_executable i,
       check_path m i, check_cwd m i, check_network contains m i, check_required i]. c = None)
   \<longleftrightarrow> authorized contains m s i"
  using check_arguments_None[of i]
  by (auto simp: authorized_def check_containment_def check_capability_def check_path_None
      check_cwd_None check_network_None)

lemma evaluate_decision:
  "pv_decision (evaluate contains m snap s i) =
     (if \<not> authorized contains m s i then Deny
      else if needs_human m i then RequiresHuman else Allow)"
proof -
  have *: "evaluate contains m snap s i = first_return
     ([check_containment m s, check_capability m i, check_arguments i, check_executable i,
       check_path m i, check_cwd m i, check_network contains m i, check_required i]
      @ [check_destructive m i]) (verdict_allow ''allowlist match'')"
    by (simp add: evaluate_def)
  have "pv_decision (first_return [check_destructive m i] (verdict_allow ''allowlist match''))
     = (if needs_human m i then RequiresHuman else Allow)"
    by (auto simp: check_destructive_def needs_human_def verdict_allow_def verdict_human_def
        split: destructive_policy.splits)
  then show ?thesis
    unfolding * by (subst first_return_deny) (auto simp: checks_None[symmetric] dest: checks_deny[OF sym])
qed

subsection \<open>Monotonicity\<close>

text \<open>\<open>narrower m m'\<close>: every list of \<open>m\<close> is contained in that of \<open>m'\<close>, and \<open>m\<close> is at least as strict.\<close>

definition narrower ::
    "'net authorization_manifest \<Rightarrow> 'net authorization_manifest \<Rightarrow> bool" where
  "narrower m m' \<longleftrightarrow>
     am_tool_allowlist m \<subseteq> am_tool_allowlist m'
     \<and> set (am_allowed_filesystem_roots m) \<subseteq> set (am_allowed_filesystem_roots m')
     \<and> set (am_allowed_endpoints m) \<subseteq> set (am_allowed_endpoints m')
     \<and> am_allowed_service_names m \<subseteq> am_allowed_service_names m'
     \<and> (am_require_containment m' \<longrightarrow> am_require_containment m)
     \<and> (am_destructive m' = RequireHuman \<longrightarrow> am_destructive m = RequireHuman)"

lemma narrower_in_scope: "narrower m m' \<Longrightarrow> in_scope m p \<Longrightarrow> in_scope m' p"
  unfolding narrower_def in_scope_def by blast

lemma narrower_destination_ok:
  "narrower m m' \<Longrightarrow> destination_ok contains m net \<Longrightarrow> destination_ok contains m' net"
  unfolding narrower_def destination_ok_def endpoint_listed_def
  by (auto split: option.splits)

lemma narrower_authorized:
  assumes n: "narrower m m'" and a: "authorized contains m s i"
  shows "authorized contains m' s i"
proof -
  have "pred_option (in_scope m') (ti_path i)" "pred_option (in_scope m') (ti_cwd i)"
    "pred_option (destination_ok contains m') (ti_network i)"
    using a narrower_in_scope[OF n] narrower_destination_ok[OF n]
    by (auto simp: authorized_def intro: option.pred_mono_strong)
  with a n show ?thesis by (auto simp: authorized_def narrower_def)
qed

lemma default_deny_local_fields:
  "am_require_containment (default_deny_local c t root)"
  "am_allowed_endpoints (default_deny_local c t root) = []"
  "am_allowed_filesystem_roots (default_deny_local c t root) = [root]"
  "am_tool_allowlist (default_deny_local c t root) =
     {ReadFile, ListTree, SearchText, GitInspect, CollectFile, CollectLogs}"
  by (simp_all add: default_deny_local_def)

subsection \<open>Properties\<close>

text \<open>C2. The decision point is exactly its specification. It denies an intent that is not authorized
  by the manifest (containment, tool allowlist, argument safety, path and cwd scope, network
  destination, required path), asks for a human when the manifest does so for a destructive
  capability, and allows everything else. The snapshot and the reason text play no part.\<close>

theorem evaluate_spec:
  "pv_decision (evaluate contains m snap s i) =
     (if authorized contains m s i
      then if needs_human m i then RequiresHuman else Allow
      else Deny)"
  by (simp add: evaluate_decision)



text \<open>A manifest fresh from \<^verbatim>\<open>default_deny_local\<close> reaches nothing but its root: an allowed
  intent ran in demonstrated containment, has one of the six read-only capabilities, no network
  destination, and its path and cwd lie below the root.\<close>

theorem default_deny_local_spec:
  assumes "pv_decision (evaluate contains (default_deny_local c t root) snap s i) = Allow"
  shows "si_containment_demonstrated s \<and> ti_network i = None
    \<and> ti_capability i \<in> {ReadFile, ListTree, SearchText, GitInspect, CollectFile, CollectLogs}
    \<and> pred_option (\<lambda>p. path_allowed p [root]) (ti_path i)
    \<and> pred_option (\<lambda>p. path_allowed p [root]) (ti_cwd i)"
proof -
  let ?m = "default_deny_local c t root"
  from assms have a: "authorized contains ?m s i" by (simp add: evaluate_decision split: if_splits)
  have "\<not> endpoint_listed contains ?m ip port proto" for ip port proto
    by (simp add: endpoint_listed_def default_deny_local_fields)
  then have "\<not> destination_ok contains ?m net" for net
    by (simp add: destination_ok_def split: option.splits)
  moreover have scope: "in_scope ?m = (\<lambda>p. path_allowed p [root])"
    by (intro ext) (simp add: in_scope_def path_allowed_components default_deny_local_fields)
  ultimately show ?thesis
    using a unfolding authorized_def default_deny_local_fields scope
    by (cases "ti_network i") (simp_all add: default_deny_local_fields(1))
qed

lemma default_deny_local_spec_witness:
  "let s = \<lparr>si_id = SandboxId 3, si_containment_demonstrated = True\<rparr>;
       i = (tool_intent_new (RequestId 4) ReadFile)\<lparr>ti_path := Some ''/tmp/target/a''\<rparr>
   in pv_decision (evaluate (\<lambda>(_ :: unit) _. False)
        (default_deny_local (CampaignId 1) (TargetId 2) ''/tmp/target'') None s i) = Allow
      \<and> pred_option (\<lambda>p. path_allowed p [''/tmp/target'']) (ti_path i)"
proof -
  let ?s = "\<lparr>si_id = SandboxId 3, si_containment_demonstrated = True\<rparr>"
  let ?i = "(tool_intent_new (RequestId 4) ReadFile)\<lparr>ti_path := Some ''/tmp/target/a''\<rparr>"
  have *: "pv_decision (evaluate (\<lambda>(_ :: unit) _. False)
        (default_deny_local (CampaignId 1) (TargetId 2) ''/tmp/target'') None ?s ?i) = Allow"
    by code_simp
  from default_deny_local_spec[OF *] * show ?thesis by simp
qed

text \<open>Only a literal address passes the network gate: a host with a character that is neither a
  hexadecimal digit, a dot, a colon, white space nor a square bracket is refused whatever the
  endpoint list, so a host name never reaches the CIDR test.\<close>

theorem network_allowed_literal:
  assumes "c \<in> set (ni_host net)"
    and "\<not> ip_char c" "\<not> is_whitespace c" "c \<noteq> CHR ''[''" "c \<noteq> CHR '']''"
  shows "\<not> network_allowed contains net eps"
proof -
  let ?P = "\<lambda>c. c = CHR ''['' \<or> c = CHR '']''"
  have keep: "c \<in> set (trim_matches P xs)" if "c \<in> set xs" "\<not> P c" for P xs
    using that unfolding trim_matches_def
    by (metis (no_types, lifting) set_rev Un_iff set_append set_takeWhileD takeWhile_dropWhile_id)
  have "c \<in> set (trim_matches ?P (trim (ni_host net)))"
    unfolding trim_def using assms by (intro keep) auto
  then have "parse_host_ip (ni_host net) = None"
    using ip_from_str_chars assms(2) unfolding parse_host_ip_def list_all_iff
    by (metis option.exhaust)
  then show ?thesis by (simp add: network_allowed_def)
qed

lemma network_allowed_literal_witness:
  "\<not> network_allowed (\<lambda>(_ :: unit) _. True)
       \<lparr>ni_host = ''localhost'', ni_port = 80, ni_protocol = Http\<rparr>
       [\<lparr>ep_cidr = (), ep_ports = {80}, ep_protocols = {Http}\<rparr>]"
  by (rule network_allowed_literal[where c = "CHR ''l''"]) (simp | code_simp)+

text \<open>IPv4 addresses are matched by value and have one spelling: on the dotted-decimal text of an
  address the gate tests exactly that address, and no other text without white space and brackets
  reads as it.\<close>

theorem network_allowed_dotted:
  "(network_allowed contains \<lparr>ni_host = show_ipv4 a b c d, ni_port = port, ni_protocol = proto\<rparr> eps
      \<longleftrightarrow> \<not> host_is_public_unspecified_or_broadcast (V4 a b c d)
          \<and> (\<exists>ep. ep \<in> set eps \<and> contains (ep_cidr ep) (V4 a b c d)
               \<and> port \<in> ep_ports ep \<and> proto \<in> ep_protocols ep))
   \<and> (ip_from_str s = Some (V4 a b c d) \<longleftrightarrow> s = show_ipv4 a b c d)"
proof
  have plain: "\<not> is_whitespace x \<and> x \<noteq> CHR ''['' \<and> x \<noteq> CHR '']''"
    if "x \<in> set (show_ipv4 a b c d)" for x
  proof -
    from that have "x = CHR ''.'' \<or> is_ascii_digit x"
      by (auto simp: show_ipv4_def dest: show_nat_digits)
    then show ?thesis by (auto simp: char_class_defs Let_def)
  qed
  then have "trim (show_ipv4 a b c d) = show_ipv4 a b c d"
    "trim_matches (\<lambda>c. c = CHR ''['' \<or> c = CHR '']'') (show_ipv4 a b c d) = show_ipv4 a b c d"
    by (auto intro!: trim_id trim_matches_id)
  then have "parse_host_ip (show_ipv4 a b c d) = ip_from_str (show_ipv4 a b c d)"
    by (simp add: parse_host_ip_def)
  then have "parse_host_ip (show_ipv4 a b c d) = Some (V4 a b c d)" by (simp add: ip_from_str_V4_iff)
  then show "network_allowed contains
      \<lparr>ni_host = show_ipv4 a b c d, ni_port = port, ni_protocol = proto\<rparr> eps
      \<longleftrightarrow> \<not> host_is_public_unspecified_or_broadcast (V4 a b c d)
          \<and> (\<exists>ep. ep \<in> set eps \<and> contains (ep_cidr ep) (V4 a b c d)
               \<and> port \<in> ep_ports ep \<and> proto \<in> ep_protocols ep)"
    by (auto simp: network_allowed_def list_ex_iff)
qed (rule ip_from_str_V4_iff)

end
