(* ===== verification/Cas.thy ===== *)
theory Cas
  imports Domain
begin

text \<open>
  \<^verbatim>\<open>aros-evidence/src/cas.rs\<close>: the content-addressed store. The file system is a map from
  path text to file contents. Every system call of \<^verbatim>\<open>put\<close> may fail, a failed write leaving any
  prefix of the data behind; since an error returns at once, the state after a failure at a call is
  also the state after a crash there. The lemmas show that under every pattern of failures a blob
  path never holds anything but bytes with its digest.
\<close>

subsection \<open>Data\<close>

datatype cas_error = CE_Io string | CE_NotFound string | DigestMismatch | TooLarge u64

type_synonym file_system = "string \<Rightarrow> bytes option"

record cas =
  cas_root :: string
  cas_max_bytes :: u64

text \<open>The outcome of each system call of one \<^verbatim>\<open>put\<close>: \<open>None\<close> is success.\<close>

record put_faults =
  pf_create_dir :: "string option"
  pf_create :: "string option"
  pf_write :: "(nat \<times> string) option"
  pf_sync :: "string option"
  pf_rename :: "string option"

definition no_faults :: put_faults where
  "no_faults = \<lparr>pf_create_dir = None, pf_create = None, pf_write = None, pf_sync = None,
     pf_rename = None\<rparr>"

subsection \<open>Operations\<close>

text \<open>\<^verbatim>\<open>digest.get(0..2)\<close> on the UTF-8 bytes: \<open>None\<close> when too short or inside a character.\<close>

fun get_0_2 :: "string \<Rightarrow> string option" where
  "get_0_2 [] = None"
| "get_0_2 (c # cs) =
     (if is_ascii c then (case cs of [] \<Rightarrow> None | d # _ \<Rightarrow> if is_ascii d then Some [c, d] else None)
      else Some [c])"

text \<open>\<^verbatim>\<open>Path::with_extension\<close>, for a path that does not end in a separator or in dots.\<close>

definition with_extension :: "string \<Rightarrow> string \<Rightarrow> string" where
  "with_extension path ext =
     (let name = rev (takeWhile (\<lambda>c. c \<noteq> CHR ''/'') (rev path));
          dir = take (length path - length name) path;
          before = butlast (rev (dropWhile (\<lambda>c. c \<noteq> CHR ''.'') (rev name)));
          stem = (if CHR ''.'' \<notin> set name \<or> before = [] then name else before)
      in dir @ stem @ ''.'' @ ext)"

text \<open>\<open>create_dir_all\<close> is the outcome of that system call on a path.\<close>

definition cas_open :: "(string \<Rightarrow> string option) \<Rightarrow> string \<Rightarrow> u64 \<Rightarrow> cas_error + cas" where
  "cas_open create_dir_all root max_bytes =
     (case create_dir_all (path_join root ''blake3'') of
        Some e \<Rightarrow> Inl (CE_Io e)
      | None \<Rightarrow> Inr \<lparr>cas_root = root, cas_max_bytes = max_bytes\<rparr>)"

definition blob_path :: "cas \<Rightarrow> string \<Rightarrow> string" where
  "blob_path s digest =
     path_join (path_join (path_join (cas_root s) ''blake3'')
       (case get_0_2 digest of Some p \<Rightarrow> p | None \<Rightarrow> ''00'')) digest"

text \<open>
  \<^verbatim>\<open>put\<close>. The fresh artifact id and the text of the fresh uuid are arguments, the two hash
  functions are parameters.
\<close>

definition cas_put ::
    "(bytes \<Rightarrow> string) \<Rightarrow> (bytes \<Rightarrow> string) \<Rightarrow> put_faults \<Rightarrow> string \<Rightarrow> artifact_id \<Rightarrow> cas \<Rightarrow> bytes
      \<Rightarrow> string \<Rightarrow> file_system \<Rightarrow> (cas_error + evidence_artifact) \<times> file_system" where
  "cas_put blake3_hex sha256_hex io tmp_id aid s bytes media_type fs =
     (if (of_nat (length bytes) :: u64) > cas_max_bytes s then
        (Inl (TooLarge (cas_max_bytes s)), fs)
      else
        let digest = blake3_hex bytes;
            sha = sha256_hex bytes;
            path = blob_path s digest;
            artifact = \<lparr>ea_id = aid, ea_digest_blake3 = digest, ea_digest_sha256 = sha,
                        ea_media_type = media_type, ea_byte_len = of_nat (length bytes)\<rparr>
        in case pf_create_dir io of
             Some e \<Rightarrow> (Inl (CE_Io e), fs)
           | None \<Rightarrow>
               if fs path \<noteq> None then (Inr artifact, fs)
               else
                 let tmp = with_extension path (''tmp-'' @ tmp_id)
                 in case pf_create io of
                      Some e \<Rightarrow> (Inl (CE_Io e), fs)
                    | None \<Rightarrow>
                        (case pf_write io of
                           Some (n, e) \<Rightarrow> (Inl (CE_Io e), fs(tmp \<mapsto> take n bytes))
                         | None \<Rightarrow>
                             (case pf_sync io of
                                Some e \<Rightarrow> (Inl (CE_Io e), fs(tmp \<mapsto> bytes))
                              | None \<Rightarrow>
                                  (case pf_rename io of
                                     Some e \<Rightarrow> (Inl (CE_Io e), fs(tmp \<mapsto> bytes))
                                   | None \<Rightarrow> (Inr artifact, (fs(tmp := None))(path \<mapsto> bytes))))))"

definition cas_get :: "(bytes \<Rightarrow> string) \<Rightarrow> cas \<Rightarrow> file_system \<Rightarrow> string \<Rightarrow> cas_error + bytes" where
  "cas_get blake3_hex s fs digest =
     (case fs (blob_path s digest) of
        None \<Rightarrow> Inl (CE_NotFound digest)
      | Some bytes \<Rightarrow> if blake3_hex bytes \<noteq> digest then Inl DigestMismatch else Inr bytes)"

definition cas_exists :: "cas \<Rightarrow> file_system \<Rightarrow> string \<Rightarrow> bool" where
  "cas_exists s fs digest = (fs (blob_path s digest) \<noteq> None)"

subsection \<open>Specification\<close>

definition hex_digest :: "string \<Rightarrow> bool" where
  "hex_digest d \<longleftrightarrow> length d = 64 \<and> list_all (\<lambda>c. is_ascii_digit c \<or> (CHR ''a'' \<le> c \<and> c \<le> CHR ''f'')) d"

definition cas_ok :: "(bytes \<Rightarrow> string) \<Rightarrow> cas \<Rightarrow> file_system \<Rightarrow> bool" where
  "cas_ok blake3_hex s fs \<longleftrightarrow>
     (\<forall>d b. hex_digest d \<and> fs (blob_path s d) = Some b \<longrightarrow> blake3_hex b = d)"

text \<open>File systems reachable from one without blobs, by any puts under any failures.\<close>

inductive cas_reachable ::
    "(bytes \<Rightarrow> string) \<Rightarrow> (bytes \<Rightarrow> string) \<Rightarrow> cas \<Rightarrow> file_system \<Rightarrow> bool"
  for blake3_hex sha256_hex s where
  cas_start: "(\<And>d. hex_digest d \<Longrightarrow> fs (blob_path s d) = None)
    \<Longrightarrow> cas_reachable blake3_hex sha256_hex s fs"
| cas_step: "cas_reachable blake3_hex sha256_hex s fs
    \<Longrightarrow> cas_put blake3_hex sha256_hex io tmp_id aid s bytes media fs = (r, fs')
    \<Longrightarrow> cas_reachable blake3_hex sha256_hex s fs'"

subsection \<open>Blob paths\<close>

lemma hex_digest_chars:
  assumes "hex_digest d" "c \<in> set d"
  shows "is_ascii c" "c \<noteq> CHR ''/''" "c \<noteq> CHR ''.''"
proof -
  from assms have *: "is_ascii_digit c \<or> (CHR ''a'' \<le> c \<and> c \<le> CHR ''f'')"
    by (auto simp: hex_digest_def list_all_iff)
  then have n: "(48 \<le> (of_char c :: nat) \<and> (of_char c :: nat) \<le> 57)
      \<or> (97 \<le> (of_char c :: nat) \<and> (of_char c :: nat) \<le> 102)"
    by (auto simp: is_ascii_digit_def less_eq_char_def Let_def)
  then show "is_ascii c" by (auto simp: is_ascii_def)
  from n show "c \<noteq> CHR ''/''" "c \<noteq> CHR ''.''" by auto
qed

lemma hex_digest_split:
  assumes "hex_digest d"
  obtains a b r where "d = a # b # r" "is_ascii a" "is_ascii b" "a \<noteq> CHR ''/''"
proof -
  from assms have "length d = 64" by (simp add: hex_digest_def)
  then obtain a b r where "d = a # b # r" by (cases d; cases "tl d") auto
  with hex_digest_chars[OF assms] show ?thesis by (intro that[of a b r]) auto
qed

lemma blob_path_hex:
  assumes "hex_digest d"
  shows "blob_path s d = cas_root s @ path_sep (cas_root s) @ ''blake3/'' @ take 2 d @ ''/'' @ d"
proof (rule hex_digest_split[OF assms])
  fix a b r
  assume "d = a # b # r" "is_ascii a" "is_ascii b" "a \<noteq> CHR ''/''"
  moreover from this have "b \<noteq> CHR ''/''" using hex_digest_chars(2)[OF assms, of b] by simp
  ultimately show ?thesis by (auto simp: blob_path_def path_join_def path_sep_def)
qed

lemma blob_path_inj: "hex_digest d \<Longrightarrow> hex_digest e \<Longrightarrow> blob_path s d = blob_path s e \<longleftrightarrow> d = e"
  by (auto simp: blob_path_hex hex_digest_def)

lemma blob_path_length: "hex_digest d \<Longrightarrow> length (blob_path s d) = length (cas_root s) + length (path_sep (cas_root s)) + 74"
  by (simp add: blob_path_hex hex_digest_def)

lemma with_extension_name:
  assumes "CHR ''/'' \<notin> set name" "CHR ''.'' \<notin> set name"
  shows "with_extension (dir @ ''/'' @ name) ext = dir @ ''/'' @ name @ ''.'' @ ext"
proof -
  have "takeWhile (\<lambda>c. c \<noteq> CHR ''/'') (rev (dir @ ''/'' @ name)) = rev name"
    using assms(1) by (simp add: takeWhile_append2 takeWhile_append)
  with assms(2) show ?thesis by (simp add: with_extension_def Let_def)
qed

lemma tmp_not_blob:
  assumes "hex_digest d" "hex_digest e"
  shows "with_extension (blob_path s d) ext \<noteq> blob_path s e"
proof -
  have "with_extension (blob_path s d) ext = blob_path s d @ ''.'' @ ext"
    using with_extension_name[of d "cas_root s @ path_sep (cas_root s) @ ''blake3/'' @ take 2 d" ext]
      hex_digest_chars[OF assms(1)] by (auto simp: blob_path_hex[OF assms(1)])
  then have "length (with_extension (blob_path s d) ext) > length (blob_path s e)"
    using blob_path_length[OF assms(1), of s] blob_path_length[OF assms(2), of s] by simp
  then show ?thesis by auto
qed

subsection \<open>put\<close>

text \<open>
  Whatever fails, one put leaves every blob as it was, except that the blob of the data itself may
  appear, complete.
\<close>

lemma cas_put_blobs:
  assumes "cas_put blake3_hex sha256_hex io tmp_id aid s bytes media fs = (r, fs')"
    and "hex_digest (blake3_hex bytes)" "hex_digest d"
  shows "fs' (blob_path s d) = fs (blob_path s d)
    \<or> (d = blake3_hex bytes \<and> fs (blob_path s d) = None \<and> fs' (blob_path s d) = Some bytes)"
proof -
  define tmp where "tmp = with_extension (blob_path s (blake3_hex bytes)) (''tmp-'' @ tmp_id)"
  have "blob_path s d \<noteq> tmp" unfolding tmp_def using tmp_not_blob[OF assms(2,3)] by metis
  with assms(1) blob_path_inj[OF assms(2,3), of s] show ?thesis
    unfolding cas_put_def Let_def tmp_def[symmetric]
    by (auto split: if_splits option.splits prod.splits)
qed

lemma cas_put_Inr:
  assumes "cas_put blake3_hex sha256_hex io tmp_id aid s bytes media fs = (Inr a, fs')"
    and "hex_digest (blake3_hex bytes)"
  shows "ea_digest_blake3 a = blake3_hex bytes \<and> fs' (blob_path s (blake3_hex bytes)) \<noteq> None"
  using assms by (auto simp: cas_put_def Let_def split: if_splits option.splits prod.splits)

lemma cas_put_ok:
  assumes "cas_ok blake3_hex s fs" "hex_digest (blake3_hex bytes)"
    and "cas_put blake3_hex sha256_hex io tmp_id aid s bytes media fs = (r, fs')"
  shows "cas_ok blake3_hex s fs'"
  unfolding cas_ok_def
proof (intro allI impI)
  fix d b
  assume "hex_digest d \<and> fs' (blob_path s d) = Some b"
  with cas_put_blobs[OF assms(3,2), of d] assms(1) show "blake3_hex b = d"
    by (auto simp: cas_ok_def)
qed

lemma cas_reachable_ok:
  assumes "cas_reachable blake3_hex sha256_hex s fs" "\<And>b. hex_digest (blake3_hex b)"
  shows "cas_ok blake3_hex s fs"
  using assms
proof (induction rule: cas_reachable.induct)
  case (cas_start fs)
  then show ?case by (auto simp: cas_ok_def)
next
  case (cas_step fs io tmp_id aid bytes media r fs')
  then show ?case using cas_put_ok by metis
qed

subsection \<open>Properties\<close>

text \<open>C20. Crash safety of the store: in every state reachable by puts with arbitrary failures of the
  system calls (hence after a crash at any point), reading a digest gives bytes with that digest or
  reports it missing. A torn or foreign blob is never seen under a digest.\<close>

theorem cas_crash_safe:
  assumes "cas_reachable blake3_hex sha256_hex s fs"
    and "\<And>b. hex_digest (blake3_hex b)" and "hex_digest d"
  shows "cas_get blake3_hex s fs d = Inl (CE_NotFound d)
    \<or> (\<exists>b. cas_get blake3_hex s fs d = Inr b \<and> blake3_hex b = d)"
  using cas_reachable_ok[OF assms(1,2)] assms(3)
  by (auto simp: cas_get_def cas_ok_def split: option.splits)

text \<open>A put that reports success can be read back, unless the store already held different bytes
  with the same digest, and under every pattern of failures a put takes nothing away: what could be
  read before can be read after.\<close>

theorem cas_put_get:
  assumes ok: "cas_ok blake3_hex s fs" and hex: "\<And>b. hex_digest (blake3_hex b)"
    and put: "cas_put blake3_hex sha256_hex io tmp_id aid s bytes media fs = (r, fs')"
    and d: "hex_digest d"
  shows "(r = Inr a \<longrightarrow>
            cas_get blake3_hex s fs' (ea_digest_blake3 a) = Inr bytes
            \<or> (\<exists>c. c \<noteq> bytes \<and> fs (blob_path s (ea_digest_blake3 a)) = Some c
                 \<and> blake3_hex c = blake3_hex bytes))
    \<and> (cas_get blake3_hex s fs d = Inr b \<longrightarrow> cas_get blake3_hex s fs' d = Inr b)"
proof (intro conjI impI)
  assume "r = Inr a"
  with cas_put_Inr[of blake3_hex sha256_hex io tmp_id aid s bytes media fs a fs'] put hex
  have a: "ea_digest_blake3 a = blake3_hex bytes"
    and "fs' (blob_path s (blake3_hex bytes)) \<noteq> None" by auto
  then obtain c where c: "fs' (blob_path s (blake3_hex bytes)) = Some c" by blast
  with cas_put_ok[OF ok hex put] hex have "blake3_hex c = blake3_hex bytes"
    unfolding cas_ok_def by blast
  with a c cas_put_blobs[OF put hex hex, of bytes]
  show "cas_get blake3_hex s fs' (ea_digest_blake3 a) = Inr bytes
      \<or> (\<exists>c. c \<noteq> bytes \<and> fs (blob_path s (ea_digest_blake3 a)) = Some c
           \<and> blake3_hex c = blake3_hex bytes)"
    by (cases "c = bytes") (auto simp: cas_get_def)
next
  assume "cas_get blake3_hex s fs d = Inr b"
  with cas_put_blobs[OF put hex d] show "cas_get blake3_hex s fs' d = Inr b"
    by (auto simp: cas_get_def split: option.splits if_splits)
qed

text \<open>The hypotheses at work: a stand-in for BLAKE3, an empty store, a put without failures.\<close>

definition demo_hex :: "bytes \<Rightarrow> string" where
  "demo_hex b = replicate 63 (CHR ''0'') @ (if b = [1, 2] then ''a'' else ''b'')"

definition demo_cas :: cas where
  "demo_cas = \<lparr>cas_root = ''/ws'', cas_max_bytes = 16\<rparr>"

lemma demo_hex_digest: "hex_digest (demo_hex b)"
  unfolding demo_hex_def by (cases "b = [1, 2]") (simp_all, code_simp+)

lemma demo_put:
  "cas_put demo_hex demo_hex no_faults ''u'' (ArtifactId 1) demo_cas [1, 2] ''text/plain'' Map.empty
     = (Inr \<lparr>ea_id = ArtifactId 1, ea_digest_blake3 = demo_hex [1, 2],
             ea_digest_sha256 = demo_hex [1, 2], ea_media_type = ''text/plain'', ea_byte_len = 2\<rparr>,
        [blob_path demo_cas (demo_hex [1, 2]) \<mapsto> [1, 2]])"
proof -
  have "unat (2 :: u64) \<le> 16" by simp
  then show ?thesis
    by (auto simp: cas_put_def no_faults_def demo_cas_def Let_def)
qed

lemma cas_crash_safe_witness:
  "cas_get demo_hex demo_cas [blob_path demo_cas (demo_hex [1, 2]) \<mapsto> [1, 2]] (demo_hex [1, 2])
     = Inr [1, 2]"
proof -
  have "cas_reachable demo_hex demo_hex demo_cas [blob_path demo_cas (demo_hex [1, 2]) \<mapsto> [1, 2]]"
    by (rule cas_step[OF cas_start demo_put]) simp
  from cas_crash_safe[OF this demo_hex_digest demo_hex_digest[of "[1, 2]"]]
  show ?thesis by (auto simp: cas_get_def)
qed

lemma cas_put_get_witness:
  "cas_get demo_hex demo_cas [blob_path demo_cas (demo_hex [1, 2]) \<mapsto> [1, 2]] (demo_hex [1, 2])
     = Inr [1, 2]"
proof -
  have "cas_ok demo_hex demo_cas Map.empty" by (simp add: cas_ok_def)
  from cas_put_get[OF this demo_hex_digest demo_put demo_hex_digest[of "[1, 2]"],
      THEN conjunct1, rule_format, OF refl]
  show ?thesis by simp
qed

end
