(* ===== verification/Http_Lab.thy ===== *)
theory Http_Lab
  imports Rust_Str
begin

text \<open>
  \<^verbatim>\<open>aros-core/src/http_lab.rs\<close>: the minimal HTTP/1.1 client. Connecting, writing and reading until
  the peer closes is the argument \<open>net\<close>, a function of the destination and the bytes sent.
\<close>

datatype http_error = HE_Io string | HE_Invalid

record http_response =
  hr_status :: u16
  hr_body :: string

abbreviation crlf :: string where "crlf \<equiv> [carriage_return, newline]"

definition parse_response :: "string \<Rightarrow> http_error + http_response" where
  "parse_response raw =
     (let (head, body) = (case find_split (crlf @ crlf) raw of None \<Rightarrow> (raw, []) | Some hb \<Rightarrow> hb);
          status = Option.bind (case str_lines head of [] \<Rightarrow> None | l # _ \<Rightarrow> Some l) (\<lambda>line.
                   Option.bind (case split_whitespace line of _ # v # _ \<Rightarrow> Some v | _ \<Rightarrow> None) (\<lambda>v.
                     parse_uint (2 ^ 16) v))
      in res_bind (ok_or status HE_Invalid) (\<lambda>n.
           Inr \<lparr>hr_status = of_nat n, hr_body = body\<rparr>))"

definition content_headers :: "bytes option \<Rightarrow> string" where
  "content_headers body =
     (case body of
        None \<Rightarrow> []
      | Some payload \<Rightarrow> ''Content-Type: application/json'' @ crlf @ ''Content-Length: ''
                         @ show_nat (length payload) @ crlf)"

definition request_text :: "string \<Rightarrow> u16 \<Rightarrow> string \<Rightarrow> string \<Rightarrow> bytes option \<Rightarrow> string \<Rightarrow> string" where
  "request_text host port meth path body extra_headers =
     meth @ '' '' @ path @ '' HTTP/1.1'' @ crlf
     @ ''Host: '' @ host @ '':'' @ show_nat (unat port) @ crlf
     @ ''Connection: close'' @ crlf
     @ extra_headers @ content_headers body @ crlf"

type_synonym net = "string \<Rightarrow> u16 \<Rightarrow> bytes \<Rightarrow> string + string"

definition http_exchange ::
    "net \<Rightarrow> string \<Rightarrow> u16 \<Rightarrow> string \<Rightarrow> string \<Rightarrow> bytes option \<Rightarrow> string \<Rightarrow> http_error + http_response" where
  "http_exchange net host port meth path body extra_headers =
     (let payload = (case body of None \<Rightarrow> [] | Some p \<Rightarrow> p);
          request = request_text host port meth path body extra_headers
      in res_bind (map_err HE_Io (net host port (as_bytes request @ payload))) parse_response)"

definition cookie_header :: "string option \<Rightarrow> string" where
  "cookie_header cookie = (case cookie of None \<Rightarrow> [] | Some v \<Rightarrow> ''Cookie: '' @ v @ crlf)"

definition http_get :: "net \<Rightarrow> string \<Rightarrow> u16 \<Rightarrow> string \<Rightarrow> string option \<Rightarrow> http_error + http_response" where
  "http_get net host port path cookie = http_exchange net host port ''GET'' path None (cookie_header cookie)"

definition bearer_header :: "string \<Rightarrow> string" where
  "bearer_header token = ''Authorization: Bearer '' @ token @ crlf"

definition http_get_bearer :: "net \<Rightarrow> string \<Rightarrow> u16 \<Rightarrow> string \<Rightarrow> string \<Rightarrow> http_error + http_response" where
  "http_get_bearer net host port path token = http_exchange net host port ''GET'' path None (bearer_header token)"

definition http_post_json :: "net \<Rightarrow> string \<Rightarrow> u16 \<Rightarrow> string \<Rightarrow> string \<Rightarrow> http_error + http_response" where
  "http_post_json net host port path json = http_exchange net host port ''POST'' path (Some (as_bytes json)) []"

definition http_post_json_bearer ::
    "net \<Rightarrow> string \<Rightarrow> u16 \<Rightarrow> string \<Rightarrow> string \<Rightarrow> string \<Rightarrow> http_error + http_response" where
  "http_post_json_bearer net host port path json token =
     http_exchange net host port ''POST'' path (Some (as_bytes json)) (bearer_header token)"

subsection \<open>Lemmas\<close>

text \<open>The lines of a GET request: nothing but the request line, the two fixed headers and the
  cookie, when no part of it holds a line feed.\<close>

lemma split_crlf_lines:
  "(\<And>l. l \<in> set ls \<Longrightarrow> newline \<notin> set l) \<Longrightarrow>
     split_on newline (concat (map (\<lambda>l. l @ crlf) ls)) = map (\<lambda>l. l @ [carriage_return]) ls @ [[]]"
proof (induction ls)
  case (Cons l ls)
  have "split_on newline ((l @ [carriage_return]) @ newline # concat (map (\<lambda>l. l @ crlf) ls))
      = (l @ [carriage_return]) # split_on newline (concat (map (\<lambda>l. l @ crlf) ls))"
    using Cons.prems by (intro split_on_append_sep) auto
  with Cons show ?case by simp
qed simp

lemma show_nat_no_newline: "newline \<notin> set (show_nat n)"
  using show_nat_digits[of newline n] by (auto simp: is_ascii_digit_def)

definition get_lines :: "string \<Rightarrow> u16 \<Rightarrow> string \<Rightarrow> string option \<Rightarrow> string list" where
  "get_lines host port path cookie =
     [''GET '' @ path @ '' HTTP/1.1'', ''Host: '' @ host @ '':'' @ show_nat (unat port), ''Connection: close'']
     @ (case cookie of None \<Rightarrow> [] | Some v \<Rightarrow> [''Cookie: '' @ v]) @ [[]]"

lemma get_request_text:
  "request_text host port ''GET'' path None (cookie_header cookie)
     = concat (map (\<lambda>l. l @ crlf) (get_lines host port path cookie))"
  by (simp add: request_text_def content_headers_def cookie_header_def get_lines_def split: option.splits)

lemma get_request_lines:
  assumes "newline \<notin> set path" "newline \<notin> set host" "pred_option (\<lambda>c. newline \<notin> set c) cookie"
  shows "split_on newline (request_text host port ''GET'' path None (cookie_header cookie)) =
    map (\<lambda>l. l @ [carriage_return]) (get_lines host port path cookie) @ [[]]"
proof -
  have "newline \<notin> set l" if "l \<in> set (get_lines host port path cookie)" for l
    using that assms show_nat_no_newline by (auto simp: get_lines_def split: option.splits)
  then show ?thesis unfolding get_request_text by (rule split_crlf_lines)
qed

end
