(* ===== verification/Broker.thy ===== *)
theory Broker
  imports Policy Ledger Cas Http_Lab
begin

text \<open>
  \<^verbatim>\<open>aros-core/src/broker.rs\<close>: the only code that acts on a tool intent. \<^verbatim>\<open>execute\<close> records the
  request, asks the policy, records the verdict, and only then dispatches; the outputs go to the
  content-addressed store. The host (files, directories, the network) is the record \<open>world\<close>: what each
  standard-library call returns for its argument. The lemmas show that a refused intent has no effect
  but its two ledger entries and does not depend on the host at all, what a receipt proves, and that
  files are read only at canonical paths inside canonical authorized roots.
\<close>

subsection \<open>The host\<close>

datatype file_kind = K_File | K_Dir | K_Symlink | K_Other

record dir_entry =
  de_name :: string
  de_type :: "string + file_kind"

record world =
  w_lstat :: "string \<Rightarrow> string + file_kind"
  w_canonicalize :: "string \<Rightarrow> string + string"
  w_read :: "string \<Rightarrow> string + bytes"
  w_read_to_string :: "string \<Rightarrow> string + string"
  w_read_dir :: "string \<Rightarrow> string + (string + dir_entry) list"
  w_is_file :: "string \<Rightarrow> bool"
  w_is_dir :: "string \<Rightarrow> bool"
  w_net :: net

subsection \<open>State\<close>

datatype 'e broker_error =
    BE_Denied string
  | BE_Io string
  | BE_Cas cas_error
  | BE_Ledger "'e ledger_error"
  | BE_Http http_error

record 'net tool_broker =
  br_campaign_id :: campaign_id
  br_manifest :: "'net authorization_manifest"
  br_manifest_hash :: string
  br_snapshot :: "target_snapshot option"
  br_sandbox :: sandbox_identity
  br_cas :: cas
  br_cli_human_override :: bool

text \<open>What \<^verbatim>\<open>execute\<close> changes: the ledger and the files of the store.\<close>

record broker_state =
  bs_ledger :: event_ledger
  bs_files :: file_system

text \<open>Crates and values outside the model: the ledger's serializer and hash, SHA-256, JSON strings, the
  text of an id, and per call the clock and the outcome of the store's system calls.\<close>

record 'e broker_env =
  be_ledger_env :: "'e ledger_env"
  be_sha256_hex :: "bytes \<Rightarrow> string"
  be_json_string :: "string \<Rightarrow> string option"
  be_sandbox_text :: "sandbox_id \<Rightarrow> string"
  be_clock :: "nat \<Rightarrow> u64"
  be_put :: "nat \<Rightarrow> put_faults \<times> string \<times> artifact_id"

subsection \<open>Files\<close>

definition reject_symlink :: "world \<Rightarrow> string \<Rightarrow> 'e broker_error + unit" where
  "reject_symlink w path =
     res_bind (map_err BE_Io (w_lstat w path)) (\<lambda>k.
       if k = K_Symlink then Inl (BE_Denied ''symlink traversal is forbidden'') else Inr ())"

definition canonical_authorized_path ::
    "world \<Rightarrow> 'net authorization_manifest \<Rightarrow> string \<Rightarrow> 'e broker_error + string" where
  "canonical_authorized_path w m raw =
     (if raw = [] \<or> is_forbidden_host_resource raw then
        Inl (BE_Denied ''filesystem path is forbidden'')
      else
        res_bind (map_err BE_Io (w_lstat w raw)) (\<lambda>k.
        if k = K_Symlink then Inl (BE_Denied ''symlink traversal is forbidden'')
        else res_bind (map_err BE_Io (w_canonicalize w raw)) (\<lambda>canonical.
          if is_forbidden_host_resource canonical then
            Inl (BE_Denied ''canonical filesystem target is forbidden'')
          else
            let canonical_roots =
                  List.map_filter (\<lambda>root. res_ok (w_canonicalize w root)) (am_allowed_filesystem_roots m)
            in if canonical_roots = [] \<or> \<not> path_allowed canonical canonical_roots then
                 Inl (BE_Denied ''canonical filesystem target escapes authorized roots'')
               else Inr canonical)))"

text \<open>The entries of a directory; one unreadable entry fails the whole listing.\<close>

definition collect_entries :: "world \<Rightarrow> string \<Rightarrow> 'e broker_error + dir_entry list" where
  "collect_entries w path =
     res_bind (map_err BE_Io (w_read_dir w path)) (\<lambda>es. map_err BE_Io (res_map (\<lambda>e. e) es))"

text \<open>
  \<^verbatim>\<open>list_tree\<close>. The first argument is \<open>17 - depth\<close>: the source stops at depth 17, where it is 0.
\<close>

definition list_entry ::
    "(string \<Rightarrow> 'e broker_error + string) \<Rightarrow> string \<Rightarrow> string \<Rightarrow> dir_entry \<Rightarrow> 'e broker_error + string" where
  "list_entry list_sub path output entry =
     (let child = path_join path (de_name entry)
      in res_bind (map_err BE_Io (de_type entry)) (\<lambda>file_type.
           if file_type = K_Symlink then Inr output
           else
             let output' = output @ child @ [newline]
             in if file_type = K_Dir then res_bind (list_sub child) (\<lambda>sub. Inr (output' @ sub))
                else Inr output'))"

primrec list_tree :: "nat \<Rightarrow> world \<Rightarrow> string \<Rightarrow> 'e broker_error + string" where
  "list_tree 0 w path = Inr []"
| "list_tree (Suc levels) w path =
     res_bind (reject_symlink w path) (\<lambda>_.
       if w_is_file w path then Inr (path @ [newline])
       else res_bind (collect_entries w path) (\<lambda>es.
         res_fold (list_entry (list_tree levels w) path) [] (sort_key de_name es)))"

definition matching_lines :: "string \<Rightarrow> string \<Rightarrow> string \<Rightarrow> string" where
  "matching_lines path needle text =
     concat (map (\<lambda>(index, line).
         if str_contains line needle
         then path @ '':'' @ show_nat (index + 1) @ '':'' @ line @ [newline] else [])
       (enumerate 0 (str_lines text)))"

primrec search_walk :: "nat \<Rightarrow> world \<Rightarrow> string \<Rightarrow> string \<Rightarrow> string \<Rightarrow> 'e broker_error + string" where
  "search_walk 0 w needle path output = Inr output"
| "search_walk (Suc levels) w needle path output =
     res_bind (reject_symlink w path) (\<lambda>_.
       if w_is_file w path then
         (case w_read_to_string w path of
            Inl _ \<Rightarrow> Inr output
          | Inr text \<Rightarrow> Inr (output @ matching_lines path needle text))
       else if w_is_dir w path then
         res_bind (map_err BE_Io (w_read_dir w path)) (\<lambda>es.
           res_fold (\<lambda>output entry.
               res_bind (map_err BE_Io entry) (\<lambda>entry.
               res_bind (map_err BE_Io (de_type entry)) (\<lambda>file_type.
                 if file_type = K_Symlink then Inr output
                 else search_walk levels w needle (path_join path (de_name entry)) output)))
             output es)
       else Inr output)"

definition search_text :: "world \<Rightarrow> string \<Rightarrow> string \<Rightarrow> 'e broker_error + string" where
  "search_text w path needle = (if needle = [] then Inr [] else search_walk 17 w needle path [])"

subsection \<open>Dispatch\<close>

definition dispatch_read :: "world \<Rightarrow> 'net tool_broker \<Rightarrow> tool_intent \<Rightarrow> 'e broker_error + bytes" where
  "dispatch_read w b intent =
     res_bind (canonical_authorized_path w (br_manifest b) (unwrap_or [] (ti_path intent))) (\<lambda>path.
     res_bind (reject_symlink w path) (\<lambda>_. map_err BE_Io (w_read w path)))"

definition dispatch_list :: "world \<Rightarrow> 'net tool_broker \<Rightarrow> tool_intent \<Rightarrow> 'e broker_error + bytes" where
  "dispatch_list w b intent =
     res_bind (canonical_authorized_path w (br_manifest b) (unwrap_or ''.'' (ti_path intent))) (\<lambda>path.
     res_bind (list_tree 17 w path) (\<lambda>out. Inr (as_bytes out)))"

definition dispatch_search :: "world \<Rightarrow> 'net tool_broker \<Rightarrow> tool_intent \<Rightarrow> 'e broker_error + bytes" where
  "dispatch_search w b intent =
     res_bind (canonical_authorized_path w (br_manifest b) (unwrap_or ''.'' (ti_path intent))) (\<lambda>path.
       let needle = (if 1 < length (ti_argv intent) then ti_argv intent ! 1 else [])
       in res_bind (search_text w path needle) (\<lambda>out. Inr (as_bytes out)))"

definition dispatch_git :: "world \<Rightarrow> 'net tool_broker \<Rightarrow> tool_intent \<Rightarrow> 'e broker_error + bytes" where
  "dispatch_git w b intent =
     res_bind (canonical_authorized_path w (br_manifest b) (unwrap_or ''.'' (ti_path intent))) (\<lambda>path.
       let head = path_join (path_join path ''.git'') ''HEAD''
       in if w_lstat w head = Inr K_Symlink then Inl (BE_Denied ''git HEAD symlink is forbidden'')
          else Inr (case w_read w head of Inl _ \<Rightarrow> as_bytes ''not-a-git-repo'' | Inr bs \<Rightarrow> bs))"

definition dispatch_http ::
    "(string \<Rightarrow> string option) \<Rightarrow> world \<Rightarrow> tool_intent \<Rightarrow> 'e broker_error + bytes" where
  "dispatch_http json_string w intent =
     res_bind (ok_or (ti_network intent) (BE_Denied ''http_request requires network intent'')) (\<lambda>network.
     res_bind (ok_or (Option.bind (ti_http_target intent) (\<lambda>v. if starts_with v ''/'' then Some v else None))
                 (BE_Denied ''http_request requires http_target'')) (\<lambda>path.
     res_bind (map_err BE_Http (http_get (w_net w) (ni_host network) (ni_port network) path
                                  (ti_http_cookie intent))) (\<lambda>response.
       let encoded_body = unwrap_or [CHR 0x22, CHR 0x22] (json_string (hr_body response))
       in Inr (as_bytes (''{'' @ [CHR 0x22] @ ''status'' @ [CHR 0x22] @ '':''
                @ show_nat (unat (hr_status response)) @ '','' @ [CHR 0x22] @ ''body'' @ [CHR 0x22] @ '':''
                @ encoded_body @ ''}'')))))"

definition dispatch ::
    "(string \<Rightarrow> string option) \<Rightarrow> world \<Rightarrow> 'net tool_broker \<Rightarrow> tool_intent
      \<Rightarrow> 'e broker_error + i32 \<times> bytes \<times> bytes" where
  "dispatch json_string w b intent =
     res_bind
       (case ti_capability intent of
          ReadFile \<Rightarrow> dispatch_read w b intent
        | CollectFile \<Rightarrow> dispatch_read w b intent
        | ListTree \<Rightarrow> dispatch_list w b intent
        | SearchText \<Rightarrow> dispatch_search w b intent
        | GitInspect \<Rightarrow> dispatch_git w b intent
        | HttpRequest \<Rightarrow> dispatch_http json_string w intent
        | other \<Rightarrow> Inl (BE_Denied (''capability '' @ capability_as_str other
                                    @ '' not implemented in broker dispatch'')))
       (\<lambda>stdout. Inr (0, stdout, []))"

subsection \<open>Execution\<close>

text \<open>An append to the ledger of the state; an error leaves the state as it was.\<close>

definition log_event ::
    "'e ledger_env \<Rightarrow> u64 \<Rightarrow> research_event \<Rightarrow> broker_state \<Rightarrow> 'e broker_error + broker_state" where
  "log_event env now event st =
     (case append_event env now event [] (bs_ledger st) of
        Inl e \<Rightarrow> Inl (BE_Ledger e)
      | Inr (_, l) \<Rightarrow> Inr (st\<lparr>bs_ledger := l\<rparr>))"

definition store_output ::
    "'e broker_env \<Rightarrow> 'net tool_broker \<Rightarrow> nat \<Rightarrow> bytes \<Rightarrow> broker_state
      \<Rightarrow> ('e broker_error + evidence_artifact) \<times> broker_state" where
  "store_output env b n bytes st =
     (case be_put env n of (io, tmp_id, aid) \<Rightarrow>
        (case cas_put (env_blake3_hex (be_ledger_env env)) (be_sha256_hex env) io tmp_id aid (br_cas b) bytes
                ''application/octet-stream'' (bs_files st) of
           (r, fs) \<Rightarrow> (map_err BE_Cas r, st\<lparr>bs_files := fs\<rparr>)))"

definition execute_allowed ::
    "'e broker_env \<Rightarrow> world \<Rightarrow> 'net tool_broker \<Rightarrow> policy_verdict \<Rightarrow> tool_intent \<Rightarrow> broker_state
      \<Rightarrow> ('e broker_error + execution_receipt) \<times> broker_state" where
  "execute_allowed env w b verdict intent st =
     (case dispatch (be_json_string env) w b intent of
        Inl e \<Rightarrow> (Inl e, st)
      | Inr (exit_status, stdout, stderr) \<Rightarrow>
          (case store_output env b 0 stdout st of
             (Inl e, st1) \<Rightarrow> (Inl e, st1)
           | (Inr stdout_art, st1) \<Rightarrow>
               (case store_output env b 1 stderr st1 of
                  (Inl e, st2) \<Rightarrow> (Inl e, st2)
                | (Inr stderr_art, st2) \<Rightarrow>
                    (Inr \<lparr>er_request_id = ti_request_id intent, er_capability = ti_capability intent,
                          er_decision = pv_decision verdict,
                          er_executable = (case ti_argv intent of [] \<Rightarrow> None | a # _ \<Rightarrow> Some a),
                          er_argv = ti_argv intent, er_cwd = ti_cwd intent,
                          er_sandbox_id = (if si_containment_demonstrated (br_sandbox b)
                            then Some (be_sandbox_text env (si_id (br_sandbox b))) else None),
                          er_started_unix_ms = be_clock env 2, er_finished_unix_ms = be_clock env 3,
                          er_exit_status = Some exit_status,
                          er_stdout_digest = Some (ea_digest_blake3 stdout_art),
                          er_stderr_digest = Some (ea_digest_blake3 stderr_art),
                          er_manifest_hash = br_manifest_hash b, er_deny_reason = None\<rparr>, st2))))"

definition execute ::
    "('net \<Rightarrow> ip_addr \<Rightarrow> bool) \<Rightarrow> 'e broker_env \<Rightarrow> world \<Rightarrow> 'net tool_broker \<Rightarrow> tool_intent \<Rightarrow> broker_state
      \<Rightarrow> ('e broker_error + execution_receipt) \<times> broker_state" where
  "execute contains env w b intent st =
     (case log_event (be_ledger_env env) (be_clock env 0)
             (ToolRequested (br_campaign_id b) (ti_request_id intent) (ti_capability intent)) st of
        Inl e \<Rightarrow> (Inl e, st)
      | Inr st1 \<Rightarrow>
          let verdict = evaluate contains (br_manifest b) (br_snapshot b) (br_sandbox b) intent
          in if \<not> v0_1_effective_allow verdict (br_cli_human_override b) then
               (case log_event (be_ledger_env env) (be_clock env 1)
                       (ToolDenied (br_campaign_id b) (ti_request_id intent) (pv_reason verdict)) st1 of
                  Inl e \<Rightarrow> (Inl e, st1)
                | Inr st2 \<Rightarrow> (Inl (BE_Denied (pv_reason verdict)), st2))
             else
               (case log_event (be_ledger_env env) (be_clock env 1)
                       (ToolAllowed (br_campaign_id b) (ti_request_id intent)) st1 of
                  Inl e \<Rightarrow> (Inl e, st1)
                | Inr st2 \<Rightarrow> execute_allowed env w b verdict intent st2))"

subsection \<open>Lemmas\<close>

definition events :: "event_ledger \<Rightarrow> research_event list" where
  "events l = map (\<lambda>e. ev_event (le_record e)) (entries l)"

lemma log_event_Inr:
  assumes "log_event env now event st = Inr st'"
  shows "events (bs_ledger st') = events (bs_ledger st) @ [event]" "bs_files st' = bs_files st"
    "prefix (entries (bs_ledger st)) (entries (bs_ledger st'))"
    "ledger_verify env (bs_ledger st) = Inr () \<Longrightarrow> ledger_verify env (bs_ledger st') = Inr ()"
proof -
  obtain e l where a: "append_event env now event [] (bs_ledger st) = Inr (e, l)" and st': "st' = st\<lparr>bs_ledger := l\<rparr>"
    using assms by (auto simp: log_event_def split: sum.splits)
  note app = append_event_Inr[OF a]
  show "events (bs_ledger st') = events (bs_ledger st) @ [event]"
    using app(1,3) by (simp add: st' events_def stamped_payload_def)
  show "prefix (entries (bs_ledger st)) (entries (bs_ledger st'))" using app(1) by (simp add: st')
  show "bs_files st' = bs_files st" by (simp add: st')
  show "ledger_verify env (bs_ledger st) = Inr () \<Longrightarrow> ledger_verify env (bs_ledger st') = Inr ()"
    using append_event_verify[OF a] by (simp add: st')
qed

lemma store_output_ledger: "store_output env b n bs st = (r, st') \<Longrightarrow> bs_ledger st' = bs_ledger st"
  by (auto simp: store_output_def split: prod.splits)

lemma store_output_put:
  assumes "store_output env b n bs st = (r, st')"
  obtains io tmp_id aid r' where
    "cas_put (env_blake3_hex (be_ledger_env env)) (be_sha256_hex env) io tmp_id aid (br_cas b) bs
       ''application/octet-stream'' (bs_files st) = (r', bs_files st')" "\<And>a. r = Inr a \<Longrightarrow> r' = Inr a"
  using assms by (auto simp: store_output_def res_simps split: prod.splits)

lemma execute_allowed_ledger:
  "execute_allowed env w b verdict intent st = (r, st') \<Longrightarrow> bs_ledger st' = bs_ledger st"
  unfolding execute_allowed_def
  by (auto split: sum.splits prod.splits dest!: store_output_ledger)

text \<open>The three ways an execution can go.\<close>

lemma execute_cases:
  assumes "execute contains env w b intent st = (r, st')"
  obtains (unlogged) e where "r = Inl (BE_Ledger e)" "st' = st"
  | (stopped) e st1 where "log_event (be_ledger_env env) (be_clock env 0)
        (ToolRequested (br_campaign_id b) (ti_request_id intent) (ti_capability intent)) st = Inr st1"
      "r = Inl (BE_Ledger e)" "st' = st1"
  | (denied) st1 reason where "log_event (be_ledger_env env) (be_clock env 0)
        (ToolRequested (br_campaign_id b) (ti_request_id intent) (ti_capability intent)) st = Inr st1"
      "log_event (be_ledger_env env) (be_clock env 1)
        (ToolDenied (br_campaign_id b) (ti_request_id intent) reason) st1 = Inr st'"
      "reason = pv_reason (evaluate contains (br_manifest b) (br_snapshot b) (br_sandbox b) intent)"
      "\<not> v0_1_effective_allow (evaluate contains (br_manifest b) (br_snapshot b) (br_sandbox b) intent)
           (br_cli_human_override b)"
      "r = Inl (BE_Denied reason)"
  | (allowed) st1 st2 where "log_event (be_ledger_env env) (be_clock env 0)
        (ToolRequested (br_campaign_id b) (ti_request_id intent) (ti_capability intent)) st = Inr st1"
      "log_event (be_ledger_env env) (be_clock env 1)
        (ToolAllowed (br_campaign_id b) (ti_request_id intent)) st1 = Inr st2"
      "v0_1_effective_allow (evaluate contains (br_manifest b) (br_snapshot b) (br_sandbox b) intent)
           (br_cli_human_override b)"
      "execute_allowed env w b (evaluate contains (br_manifest b) (br_snapshot b) (br_sandbox b) intent)
         intent st2 = (r, st')"
proof -
  have ledger: "\<exists>e'. e = BE_Ledger e'" if "log_event le now ev s = Inl e" for le now ev s e
    using that by (auto simp: log_event_def split: sum.splits)
  let ?v = "evaluate contains (br_manifest b) (br_snapshot b) (br_sandbox b) intent"
  let ?req = "log_event (be_ledger_env env) (be_clock env 0)
        (ToolRequested (br_campaign_id b) (ti_request_id intent) (ti_capability intent)) st"
  show thesis
  proof (cases ?req)
    case (Inl e)
    with assms ledger[OF Inl] show thesis by (auto simp: execute_def intro: unlogged)
  next
    case (Inr st1)
    show thesis
    proof (cases "v0_1_effective_allow ?v (br_cli_human_override b)")
      case True
      show thesis
      proof (cases "log_event (be_ledger_env env) (be_clock env 1)
          (ToolAllowed (br_campaign_id b) (ti_request_id intent)) st1")
        case (Inl e)
        with assms Inr True ledger[OF Inl] stopped[OF Inr] show thesis by (auto simp: execute_def Let_def)
      next
        case (Inr st2)
        with assms \<open>?req = Inr st1\<close> True allowed[OF \<open>?req = Inr st1\<close> Inr True] show thesis
          by (simp add: execute_def Let_def)
      qed
    next
      case False
      show thesis
      proof (cases "log_event (be_ledger_env env) (be_clock env 1)
          (ToolDenied (br_campaign_id b) (ti_request_id intent) (pv_reason ?v)) st1")
        case (Inl e)
        with assms Inr False ledger[OF Inl] stopped[OF Inr] show thesis by (auto simp: execute_def Let_def)
      next
        case (Inr st2)
        with assms \<open>?req = Inr st1\<close> False denied[OF \<open>?req = Inr st1\<close> _ refl False] show thesis
          by (simp add: execute_def Let_def)
      qed
    qed
  qed
qed

lemma canonical_authorized_path_Inr:
  "canonical_authorized_path w m raw = Inr p \<longleftrightarrow>
     raw \<noteq> [] \<and> \<not> is_forbidden_host_resource raw \<and> (\<exists>k. w_lstat w raw = Inr k \<and> k \<noteq> K_Symlink)
     \<and> w_canonicalize w raw = Inr p
     \<and> path_allowed p (List.map_filter (\<lambda>root. res_ok (w_canonicalize w root)) (am_allowed_filesystem_roots m))"
proof -
  let ?roots = "List.map_filter (\<lambda>root. res_ok (w_canonicalize w root)) (am_allowed_filesystem_roots m)"
  have roots: "path_allowed p ?roots \<Longrightarrow> ?roots \<noteq> [] \<and> \<not> is_forbidden_host_resource p"
    using path_allowed_components by auto
  show ?thesis
  proof (cases "raw = [] \<or> is_forbidden_host_resource raw")
    case True
    then show ?thesis by (auto simp: canonical_authorized_path_def)
  next
    case False
    then show ?thesis
      using roots unfolding canonical_authorized_path_def
      by (cases "w_lstat w raw"; cases "w_canonicalize w raw") (auto simp: Let_def)
  qed
qed

text \<open>Where a walk can get: from a directory to an entry that is not a symbolic link.\<close>

inductive walk :: "world \<Rightarrow> nat \<Rightarrow> string \<Rightarrow> string \<Rightarrow> bool" for w where
  walk_here: "walk w n path path"
| walk_entry: "w_read_dir w path = Inr es \<Longrightarrow> Inr entry \<in> set es \<Longrightarrow> de_type entry = Inr k \<Longrightarrow> k \<noteq> K_Symlink
    \<Longrightarrow> walk w n (path_join path (de_name entry)) p \<Longrightarrow> walk w (Suc n) path p"

lemma walk_mono: "walk w n path p \<Longrightarrow> walk w (n + k) path p"
  by (induction rule: walk.induct) (auto intro: walk.intros)

lemma collect_entries_Inr:
  "collect_entries w path = Inr es \<Longrightarrow> w_read_dir w path = Inr (map Inr es)"
  unfolding collect_entries_def
  by (auto simp: res_simps res_map_Inr_iff list_all2_conv_all_nth intro!: nth_equalityI)

definition path_lines :: "string list \<Rightarrow> string" where
  "path_lines ps = concat (map (\<lambda>p. p @ [newline]) ps)"

lemma path_lines_simps [simp]: "path_lines [] = []" "path_lines (ps @ qs) = path_lines ps @ path_lines qs"
  "path_lines (p # ps) = p @ newline # path_lines ps"
  by (simp_all add: path_lines_def)

lemma list_entry_paths:
  assumes "list_entry sub path output entry = Inr output'" "output = path_lines ps"
    and "\<And>child out. sub child = Inr out \<Longrightarrow> \<exists>qs. out = path_lines qs \<and> (\<forall>q \<in> set qs. walk w n child q)"
    and "w_read_dir w path = Inr es" "Inr entry \<in> set es"
  shows "\<exists>qs. output' = path_lines (ps @ qs) \<and> (\<forall>q \<in> set qs. walk w (Suc n) path q)"
proof -
  let ?child = "path_join path (de_name entry)"
  obtain k where k: "de_type entry = Inr k" using assms(1) by (auto simp: list_entry_def res_simps Let_def)
  have step: "walk w (Suc n) path p" if "k \<noteq> K_Symlink" "walk w n ?child p" for p
    using assms(4,5) k that by (rule walk_entry)
  consider "k = K_Symlink" | "k = K_Dir" | "k \<noteq> K_Symlink" "k \<noteq> K_Dir" by blast
  then show ?thesis
  proof cases
    case 1
    with assms(1,2) k show ?thesis by (intro exI[of _ "[]"]) (simp add: list_entry_def)
  next
    case 2
    with assms(1) k obtain out where out: "sub ?child = Inr out" "output' = output @ ?child @ [newline] @ out"
      by (auto simp: list_entry_def res_simps Let_def)
    from assms(3)[OF out(1)] obtain qs where "out = path_lines qs" "\<forall>q \<in> set qs. walk w n ?child q" by blast
    with 2 out(2) assms(2) step show ?thesis
      by (intro exI[of _ "?child # qs"]) (auto intro: walk_here)
  next
    case 3
    with assms(1,2) k step show ?thesis
      by (intro exI[of _ "[?child]"]) (auto simp: list_entry_def Let_def intro: walk_here)
  qed
qed

lemma list_tree_paths:
  "list_tree levels w path = (Inr out :: 'e broker_error + string) \<Longrightarrow> \<exists>ps. out = path_lines ps \<and> (\<forall>p \<in> set ps. walk w levels path p)"
proof (induction levels arbitrary: path out)
  case 0
  then show ?case by (intro exI[of _ "[]"]) simp
next
  case (Suc levels)
  let ?P = "\<lambda>out. \<exists>ps. out = path_lines ps \<and> (\<forall>p \<in> set ps. walk w (Suc levels) path p)"
  show ?case
  proof (cases "w_is_file w path")
    case True
    with Suc.prems have "out = path_lines [path]" by (auto simp: res_simps)
    then show ?thesis by (intro exI[of _ "[path]"]) (auto intro: walk_here)
  next
    case False
    with Suc.prems obtain es where es: "w_read_dir w path = Inr (map Inr es)"
      and fold: "res_fold (list_entry (list_tree levels w) path) [] (sort_key de_name es)
        = (Inr out :: 'e broker_error + string)"
      by (auto simp: res_simps dest: collect_entries_Inr)
    show ?thesis
    proof (rule res_fold_invariant[OF fold, where P = ?P])
      show "?P []" by (intro exI[of _ "[]"]) simp
    next
      fix acc entry acc'
      assume "?P acc" and entry: "entry \<in> set (sort_key de_name es)"
        and step: "list_entry (list_tree levels w) path acc entry = (Inr acc' :: 'e broker_error + string)"
      then obtain ps where ps: "acc = path_lines ps" "\<forall>p \<in> set ps. walk w (Suc levels) path p" by blast
      from list_entry_paths[OF step ps(1) Suc.IH es] entry
      obtain qs where "acc' = path_lines (ps @ qs)" "\<forall>q \<in> set qs. walk w (Suc levels) path q" by auto
      with ps(2) show "?P acc'" by (intro exI[of _ "ps @ qs"]) auto
    qed
  qed
qed

lemma effective_allow_iff:
  "v0_1_effective_allow (evaluate contains m snap s i) human \<longleftrightarrow>
     authorized contains m s i \<and> (needs_human m i \<longrightarrow> human)"
  by (auto simp: v0_1_effective_allow_def evaluate_decision split: policy_decision.splits if_splits)

lemma dispatch_shape: "dispatch js w b intent = Inr x \<Longrightarrow> \<exists>stdout. x = (0, stdout, [])"
  unfolding dispatch_def res_bind_eq_Inr by auto

lemma store_outputs:
  assumes "execute_allowed env w b verdict intent st = (Inr receipt :: 'e broker_error + _, st')"
  obtains stdout a1 st1 a2 where "dispatch (be_json_string env) w b intent = (Inr (0, stdout, []) :: 'e broker_error + _)"
    "store_output env b 0 stdout st = (Inr a1, st1)" "store_output env b 1 [] st1 = (Inr a2, st')"
    "er_stdout_digest receipt = Some (ea_digest_blake3 a1)" "er_decision receipt = pv_decision verdict"
    "er_request_id receipt = ti_request_id intent" "er_exit_status receipt = Some 0"
proof -
  from assms obtain x where x: "dispatch (be_json_string env) w b intent = (Inr x :: 'e broker_error + _)"
    unfolding execute_allowed_def by (auto split: sum.splits)
  from dispatch_shape[OF x] obtain stdout where
    d: "dispatch (be_json_string env) w b intent = (Inr (0, stdout, []) :: 'e broker_error + _)" using x by blast
  obtain r1 st1 where 1: "store_output env b 0 stdout st = (r1, st1)" by fastforce
  obtain r2 st2 where 2: "store_output env b 1 [] st1 = (r2, st2)" by fastforce
  from assms d 1 2 obtain a1 a2 where "r1 = Inr a1" "r2 = Inr a2" "st2 = st'"
    "er_stdout_digest receipt = Some (ea_digest_blake3 a1)" "er_decision receipt = pv_decision verdict"
    "er_request_id receipt = ti_request_id intent" "er_exit_status receipt = Some 0"
    unfolding execute_allowed_def by (auto split: sum.splits)
  with d 1 2 show thesis by (intro that[of stdout a1 st1 a2]) auto
qed

lemma stored_bytes:
  assumes "store_output env b 0 stdout st = (Inr a1, st1)" "store_output env b 1 [] st1 = (Inr a2, st')"
    and ok: "cas_ok (env_blake3_hex (be_ledger_env env)) (br_cas b) (bs_files st)"
    and hex: "\<And>bs. hex_digest (env_blake3_hex (be_ledger_env env) bs)"
  shows "ea_digest_blake3 a1 = env_blake3_hex (be_ledger_env env) stdout"
    and "\<exists>c. cas_get (env_blake3_hex (be_ledger_env env)) (br_cas b) (bs_files st') (ea_digest_blake3 a1) = Inr c
      \<and> (c = stdout \<or> bs_files st (blob_path (br_cas b) (ea_digest_blake3 a1)) = Some c)"
proof -
  let ?h = "env_blake3_hex (be_ledger_env env)"
  obtain io t aid r where 1: "cas_put ?h (be_sha256_hex env) io t aid (br_cas b) stdout
      ''application/octet-stream'' (bs_files st) = (r, bs_files st1)" "r = Inr a1"
    using assms(1) by (rule store_output_put) auto
  then have p1: "cas_put ?h (be_sha256_hex env) io t aid (br_cas b) stdout
      ''application/octet-stream'' (bs_files st) = (Inr a1, bs_files st1)" by simp
  obtain io2 t2 aid2 r2 where p2: "cas_put ?h (be_sha256_hex env) io2 t2 aid2 (br_cas b) []
      ''application/octet-stream'' (bs_files st1) = (r2, bs_files st')"
    using assms(2) by (rule store_output_put) auto
  let ?p = "blob_path (br_cas b) (?h stdout)"
  show d: "ea_digest_blake3 a1 = ?h stdout" using cas_put_Inr[OF p1 hex] by simp
  obtain c where c: "bs_files st1 ?p = Some c" using cas_put_Inr[OF p1 hex] by auto
  then have "?h c = ?h stdout" using cas_put_ok[OF ok hex p1] hex by (auto simp: cas_ok_def)
  moreover have "bs_files st' ?p = Some c" using cas_put_blobs[OF p2 hex hex, of stdout] c by auto
  moreover have "c = stdout \<or> bs_files st ?p = Some c" using cas_put_blobs[OF p1 hex hex, of stdout] c by auto
  ultimately show "\<exists>c. cas_get ?h (br_cas b) (bs_files st') (ea_digest_blake3 a1) = Inr c
      \<and> (c = stdout \<or> bs_files st (blob_path (br_cas b) (ea_digest_blake3 a1)) = Some c)"
    by (intro exI[of _ c]) (simp add: d cas_get_def)
qed

lemma store_output_cas:
  assumes "store_output env b n bs st = (r, st')"
    and "cas_ok (env_blake3_hex (be_ledger_env env)) (br_cas b) (bs_files st)"
    and hex: "\<And>bs. hex_digest (env_blake3_hex (be_ledger_env env) bs)"
  shows "cas_ok (env_blake3_hex (be_ledger_env env)) (br_cas b) (bs_files st')"
  using assms(1) by (rule store_output_put) (rule cas_put_ok[OF assms(2) hex])

lemma execute_allowed_cas:
  assumes "execute_allowed env w b verdict intent st = (r, st')"
    and ok: "cas_ok (env_blake3_hex (be_ledger_env env)) (br_cas b) (bs_files st)"
    and hex: "\<And>bs. hex_digest (env_blake3_hex (be_ledger_env env) bs)"
  shows "cas_ok (env_blake3_hex (be_ledger_env env)) (br_cas b) (bs_files st')"
  using assms(1) ok unfolding execute_allowed_def
  by (auto split: sum.splits prod.splits dest: store_output_cas[OF _ _ hex])

lemma store_output_blobs:
  assumes "store_output env b n bs st = (r, st')" "bs_files st (blob_path (br_cas b) d) = Some c"
    and hex: "\<And>bs. hex_digest (env_blake3_hex (be_ledger_env env) bs)" and "hex_digest d"
  shows "bs_files st' (blob_path (br_cas b) d) = Some c"
  using assms(1)
proof (rule store_output_put)
  fix io t aid r'
  assume "cas_put (env_blake3_hex (be_ledger_env env)) (be_sha256_hex env) io t aid (br_cas b) bs
    ''application/octet-stream'' (bs_files st) = (r', bs_files st')"
  from cas_put_blobs[OF this hex assms(4)] assms(2) show ?thesis by auto
qed

lemma execute_blobs:
  assumes "execute contains env w b intent st = (r, st')" "bs_files st (blob_path (br_cas b) d) = Some c"
    and hex: "\<And>bs. hex_digest (env_blake3_hex (be_ledger_env env) bs)" and d: "hex_digest d"
  shows "bs_files st' (blob_path (br_cas b) d) = Some c"
  using assms(1)
proof (cases rule: execute_cases)
  case (allowed st1 st2)
  have "bs_files st2 (blob_path (br_cas b) d) = Some c"
    using log_event_Inr(2)[OF allowed(1)] log_event_Inr(2)[OF allowed(2)] assms(2) by simp
  with allowed(4) show ?thesis unfolding execute_allowed_def
    by (auto split: sum.splits prod.splits dest: store_output_blobs[OF _ _ hex d])
qed (use assms(2) in \<open>auto dest!: log_event_Inr(2)\<close>)

text \<open>What a receipt guarantees.\<close>

lemma execute_receipt:
  assumes "execute contains (env :: 'e broker_env) w b intent st = (Inr receipt, st')"
    and "cas_ok (env_blake3_hex (be_ledger_env env)) (br_cas b) (bs_files st)"
    and "\<And>bs. hex_digest (env_blake3_hex (be_ledger_env env) bs)"
  shows "authorized contains (br_manifest b) (br_sandbox b) intent
    \<and> (needs_human (br_manifest b) intent \<longrightarrow> br_cli_human_override b)
    \<and> er_request_id receipt = ti_request_id intent \<and> er_exit_status receipt = Some 0
    \<and> er_decision receipt = (if needs_human (br_manifest b) intent then RequiresHuman else Allow)
    \<and> events (bs_ledger st') = events (bs_ledger st)
        @ [ToolRequested (br_campaign_id b) (ti_request_id intent) (ti_capability intent),
           ToolAllowed (br_campaign_id b) (ti_request_id intent)]
    \<and> (\<exists>stdout d c. dispatch (be_json_string env) w b intent = (Inr (0, stdout, []) :: 'e broker_error + _)
         \<and> er_stdout_digest receipt = Some d \<and> d = env_blake3_hex (be_ledger_env env) stdout
         \<and> cas_get (env_blake3_hex (be_ledger_env env)) (br_cas b) (bs_files st') d = Inr c
         \<and> (c = stdout \<or> bs_files st (blob_path (br_cas b) d) = Some c))"
  using assms(1)
proof (cases rule: execute_cases)
  case (allowed st1 st2)
  note log = log_event_Inr[OF allowed(1)] log_event_Inr[OF allowed(2)]
  from allowed(4) obtain stdout a1 st3 a2 where d:
    "dispatch (be_json_string env) w b intent = (Inr (0, stdout, []) :: 'e broker_error + _)"
    "store_output env b 0 stdout st2 = (Inr a1, st3)" "store_output env b 1 [] st3 = (Inr a2, st')"
    "er_stdout_digest receipt = Some (ea_digest_blake3 a1)"
    "er_decision receipt = pv_decision (evaluate contains (br_manifest b) (br_snapshot b) (br_sandbox b) intent)"
    "er_request_id receipt = ti_request_id intent" "er_exit_status receipt = Some 0" by (rule store_outputs) blast
  have files: "bs_files st2 = bs_files st" using log by simp
  have "bs_ledger st' = bs_ledger st2" using execute_allowed_ledger[OF allowed(4)] .
  then have evs: "events (bs_ledger st') = events (bs_ledger st)
        @ [ToolRequested (br_campaign_id b) (ti_request_id intent) (ti_capability intent),
           ToolAllowed (br_campaign_id b) (ti_request_id intent)]" using log by simp
  have auth: "authorized contains (br_manifest b) (br_sandbox b) intent
    \<and> (needs_human (br_manifest b) intent \<longrightarrow> br_cli_human_override b)"
    using allowed(3) by (simp add: effective_allow_iff)
  then have "er_decision receipt = (if needs_human (br_manifest b) intent then RequiresHuman else Allow)" using d(5) by (simp add: evaluate_decision)
  moreover from stored_bytes[OF d(2,3) _ assms(3)] assms(2) files
  obtain c where "ea_digest_blake3 a1 = env_blake3_hex (be_ledger_env env) stdout"
    "cas_get (env_blake3_hex (be_ledger_env env)) (br_cas b) (bs_files st') (ea_digest_blake3 a1) = Inr c"
    "c = stdout \<or> bs_files st (blob_path (br_cas b) (ea_digest_blake3 a1)) = Some c" by auto
  ultimately show ?thesis using auth evs d(1,4,6,7) by blast
qed auto

subsection \<open>Instances\<close>

definition demo_ledger_env :: "unit ledger_env" where
  "demo_ledger_env = \<lparr>env_record_value = (\<lambda>r. Inr JNull), env_material_value = (\<lambda>m. Inr JNull),
     env_to_vec = (\<lambda>j. Inr []), env_blake3_hex = demo_hex\<rparr>"

definition demo_broker_env :: "unit broker_env" where
  "demo_broker_env = \<lparr>be_ledger_env = demo_ledger_env, be_sha256_hex = demo_hex, be_json_string = Some,
     be_sandbox_text = (\<lambda>_. ''sandbox''), be_clock = of_nat, be_put = (\<lambda>n. (no_faults, ''u'', ArtifactId 1))\<rparr>"

definition demo_world :: world where
  "demo_world = \<lparr>w_lstat = (\<lambda>_. Inr K_File), w_canonicalize = Inr, w_read = (\<lambda>_. Inr [1, 2]),
     w_read_to_string = (\<lambda>_. Inr ''x''), w_read_dir = (\<lambda>_. Inr []), w_is_file = (\<lambda>_. True),
     w_is_dir = (\<lambda>_. False), w_net = (\<lambda>_ _ _. Inl ''refused'')\<rparr>"

definition demo_broker :: "unit tool_broker" where
  "demo_broker = \<lparr>br_campaign_id = CampaignId 7,
     br_manifest = (default_deny_local (CampaignId 7) (TargetId 1) ''/lab'')\<lparr>am_require_containment := False\<rparr>,
     br_manifest_hash = ''m'', br_snapshot = None,
     br_sandbox = \<lparr>si_id = SandboxId 3, si_containment_demonstrated = False\<rparr>,
     br_cas = demo_cas, br_cli_human_override = False\<rparr>"

definition demo_read_intent :: "string \<Rightarrow> tool_intent" where
  "demo_read_intent path = (tool_intent_new (RequestId 9) ReadFile)\<lparr>ti_path := Some path\<rparr>"

definition demo_state :: broker_state where
  "demo_state = \<lparr>bs_ledger = ledger_new, bs_files = Map.empty\<rparr>"

lemma demo_execute_ok:
  "is_ok (fst (execute (\<lambda>_ _. False) demo_broker_env demo_world demo_broker (demo_read_intent ''/lab/a'') demo_state))"
  by code_simp

lemma demo_not_authorized:
  "\<not> (authorized (\<lambda>_ _. False) (br_manifest demo_broker) (br_sandbox demo_broker) (demo_read_intent ''/etc/x'')
      \<and> (needs_human (br_manifest demo_broker) (demo_read_intent ''/etc/x'') \<longrightarrow> br_cli_human_override demo_broker))"
  unfolding effective_allow_iff[symmetric, where snap = None] by code_simp

lemma demo_cas_ok: "cas_ok (env_blake3_hex (be_ledger_env demo_broker_env)) (br_cas b) (bs_files demo_state)"
  by (simp add: cas_ok_def demo_state_def)

lemma demo_blake3_hex: "hex_digest (env_blake3_hex (be_ledger_env demo_broker_env) bs)"
  by (simp add: demo_broker_env_def demo_ledger_env_def demo_hex_digest)

subsection \<open>Properties\<close>

text \<open>C13. Complete mediation, refusals: an intent the policy does not allow (or that needs a human who
  did not agree) is never executed. Whatever the host looks like the outcome is the same error, the
  stored files are unchanged, and the only trace is a prefix of the two ledger entries that record
  the request and the denial.\<close>

theorem broker_refusal_has_no_effect:
  assumes "\<not> (authorized contains (br_manifest b) (br_sandbox b) intent
      \<and> (needs_human (br_manifest b) intent \<longrightarrow> br_cli_human_override b))"
  shows "execute contains env w b intent st = execute contains env w' b intent st
    \<and> \<not> is_ok (fst (execute contains env w b intent st))
    \<and> bs_files (snd (execute contains env w b intent st)) = bs_files st
    \<and> (\<exists>evs reason. events (bs_ledger (snd (execute contains env w b intent st))) = events (bs_ledger st) @ evs
         \<and> prefix evs [ToolRequested (br_campaign_id b) (ti_request_id intent) (ti_capability intent),
                       ToolDenied (br_campaign_id b) (ti_request_id intent) reason])"
proof -
  have no: "\<not> v0_1_effective_allow (evaluate contains (br_manifest b) (br_snapshot b) (br_sandbox b) intent)
           (br_cli_human_override b)" using assms by (simp add: effective_allow_iff)
  obtain r st' where ex: "execute contains env w b intent st = (r, st')" by fastforce
  have same: "execute contains env w b intent st = execute contains env w' b intent st"
    using no by (simp add: execute_def Let_def split: sum.split)
  from ex have "\<not> is_ok r \<and> bs_files st' = bs_files st
    \<and> (\<exists>evs reason. events (bs_ledger st') = events (bs_ledger st) @ evs
         \<and> prefix evs [ToolRequested (br_campaign_id b) (ti_request_id intent) (ti_capability intent),
                       ToolDenied (br_campaign_id b) (ti_request_id intent) reason])"
  proof (cases rule: execute_cases)
    case (stopped e st1)
    then show ?thesis using log_event_Inr[OF stopped(1)] by auto
  next
    case (denied st1 reason)
    then show ?thesis using log_event_Inr[OF denied(1)] log_event_Inr[OF denied(2)] by auto
  qed (use no in auto)
  with ex same show ?thesis by simp
qed

theorem broker_refusal_has_no_effect_witness:
  "execute (\<lambda>_ _. False) demo_broker_env (demo_world\<lparr>w_read := (\<lambda>_. Inl [])\<rparr>) demo_broker (demo_read_intent ''/etc/x'') demo_state
     = execute (\<lambda>_ _. False) demo_broker_env demo_world demo_broker (demo_read_intent ''/etc/x'') demo_state"
  using broker_refusal_has_no_effect[OF demo_not_authorized, of demo_broker_env
    "demo_world\<lparr>w_read := (\<lambda>_. Inl [])\<rparr>" demo_state demo_world] by blast





text \<open>Every execution, whatever its outcome, keeps the evidence intact: a ledger that verifies still
  verifies and only grows at its end, and every blob of the store still has its digest.\<close>

theorem execute_keeps_evidence:
  assumes "ledger_verify (be_ledger_env env) (bs_ledger st) = Inr ()"
    and "cas_ok (env_blake3_hex (be_ledger_env env)) (br_cas b) (bs_files st)"
    and "\<And>bs. hex_digest (env_blake3_hex (be_ledger_env env) bs)"
    and "execute contains env w b intent st = (r, st')"
  shows "ledger_verify (be_ledger_env env) (bs_ledger st') = Inr ()
    \<and> prefix (entries (bs_ledger st)) (entries (bs_ledger st'))
    \<and> cas_ok (env_blake3_hex (be_ledger_env env)) (br_cas b) (bs_files st')"
  using assms(4)
proof (cases rule: execute_cases)
  case (unlogged e)
  with assms show ?thesis by simp
next
  case (stopped e st1)
  with assms log_event_Inr[OF stopped(1)] show ?thesis by simp
next
  case (denied st1 reason)
  with assms log_event_Inr[OF denied(1)] log_event_Inr[OF denied(2)] show ?thesis
    by (auto intro: prefix_order.trans)
next
  case (allowed st1 st2)
  note log = log_event_Inr[OF allowed(1)] log_event_Inr[OF allowed(2)]
  have "bs_ledger st' = bs_ledger st2" by (rule execute_allowed_ledger[OF allowed(4)])
  moreover have "cas_ok (env_blake3_hex (be_ledger_env env)) (br_cas b) (bs_files st')"
    using execute_allowed_cas[OF allowed(4) _ assms(3)] log assms(2) by simp
  moreover have "prefix (entries (bs_ledger st)) (entries (bs_ledger st2))"
    using log(3) log(7) by (rule prefix_order.trans)
  ultimately show ?thesis using log assms(1) by simp
qed

theorem execute_keeps_evidence_witness:
  "ledger_verify demo_ledger_env (bs_ledger (snd (execute (\<lambda>_ _. False) demo_broker_env demo_world demo_broker
     (demo_read_intent ''/lab/a'') demo_state))) = Inr ()"
proof -
  have "ledger_verify (be_ledger_env demo_broker_env) (bs_ledger demo_state) = Inr ()" by code_simp
  from execute_keeps_evidence[OF this demo_cas_ok demo_blake3_hex, of "\<lambda>_ _. False" demo_world demo_broker
      "demo_read_intent ''/lab/a''", OF prod.collapse[symmetric]]
  show ?thesis by (simp add: demo_broker_env_def[THEN arg_cong, of be_ledger_env, simplified])
qed

text \<open>C24. No header injection: the request sent for an authorized HTTP intent whose host has no white
  space consists of exactly the request line, the host and connection headers, the cookie header when
  there is one, and the empty line; nothing the intent carries can add or split a line.\<close>

theorem http_request_not_injectable:
  assumes "authorized contains m sandbox intent" "ti_capability intent = HttpRequest"
    and "ti_network intent = Some net" "ti_http_target intent = Some target"
    and "list_all (\<lambda>c. \<not> is_whitespace c) (ni_host net)"
  shows "split_on newline (request_text (ni_host net) (ni_port net) ''GET'' target None
           (cookie_header (ti_http_cookie intent)))
    = map (\<lambda>l. l @ [carriage_return]) (get_lines (ni_host net) (ni_port net) target (ti_http_cookie intent)) @ [[]]"
proof (rule get_request_lines)
  have ctl: "is_control newline" "is_whitespace newline" by (simp_all add: is_control_def is_whitespace_def)
  from assms(1,2) have args: "arguments_ok intent" by (simp add: authorized_def)
  with assms(2,4) ctl show "newline \<notin> set target"
    by (auto simp: arguments_ok_def network_capability_def http_request_target_is_safe_def list_all_iff)
  from assms(5) ctl show "newline \<notin> set (ni_host net)" by (auto simp: list_all_iff)
  from args assms(2) ctl show "pred_option (\<lambda>c. newline \<notin> set c) (ti_http_cookie intent)"
    by (cases "ti_http_cookie intent")
      (auto simp: arguments_ok_def network_capability_def http_cookie_is_safe_def list_all_iff)
qed

definition demo_http_intent :: "string \<Rightarrow> tool_intent" where
  "demo_http_intent host = (tool_intent_new (RequestId 9) HttpRequest)\<lparr>ti_http_target := Some ''/users/2'',
     ti_http_cookie := Some ''user=1'',
     ti_network := Some \<lparr>ni_host = host, ni_port = 80, ni_protocol = Http\<rparr>\<rparr>"

definition demo_http_manifest :: "unit authorization_manifest" where
  "demo_http_manifest = (default_deny_local (CampaignId 7) (TargetId 1) ''/lab'')\<lparr>am_require_containment := False,
     am_tool_allowlist := {HttpRequest},
     am_allowed_endpoints := [\<lparr>ep_cidr = (), ep_ports = {80}, ep_protocols = {Http}\<rparr>]\<rparr>"

lemma demo_http_authorized:
  "authorized (\<lambda>_ _. True) demo_http_manifest \<lparr>si_id = SandboxId 3, si_containment_demonstrated = False\<rparr>
     (demo_http_intent ''127.0.0.1'')"
proof -
  have "v0_1_effective_allow (evaluate (\<lambda>_ _. True) demo_http_manifest None
      \<lparr>si_id = SandboxId 3, si_containment_demonstrated = False\<rparr> (demo_http_intent ''127.0.0.1'')) False" by code_simp
  then show ?thesis by (simp add: effective_allow_iff)
qed

theorem http_request_not_injectable_witness:
  "length (split_on newline (request_text ''127.0.0.1'' 80 ''GET'' ''/users/2'' None (cookie_header (Some ''user=1'')))) = 6"
proof -
  have cap: "ti_capability (demo_http_intent ''127.0.0.1'') = HttpRequest"
    and net: "ti_network (demo_http_intent ''127.0.0.1'')
      = Some \<lparr>ni_host = ''127.0.0.1'', ni_port = 80, ni_protocol = Http\<rparr>"
    and target: "ti_http_target (demo_http_intent ''127.0.0.1'') = Some ''/users/2''"
    and cookie: "ti_http_cookie (demo_http_intent ''127.0.0.1'') = Some ''user=1''"
    by (simp_all add: demo_http_intent_def tool_intent_new_def)
  have ws: "list_all (\<lambda>c. \<not> is_whitespace c)
      (ni_host \<lparr>ni_host = ''127.0.0.1'', ni_port = 80, ni_protocol = Http\<rparr>)" by code_simp
  from http_request_not_injectable[OF demo_http_authorized cap net target ws] show ?thesis
    by (simp add: cookie get_lines_def)
qed

text \<open>The gate and the broker read the host differently: the policy parses it after trimming white
  space, the broker sends it as it is. A host with a trailing line break is authorized, and its
  request then has an extra line break inside the host header.\<close>

theorem http_host_is_not_trimmed:
  "pv_decision (evaluate (\<lambda>_ _. True) demo_http_manifest None
       \<lparr>si_id = SandboxId 3, si_containment_demonstrated = False\<rparr> (demo_http_intent (''127.0.0.1'' @ crlf))) = Allow
   \<and> get_lines (''127.0.0.1'' @ crlf) 80 ''/users/2'' None ! 1 = ''Host: 127.0.0.1'' @ crlf @ '':80''"
proof -
  have "show_nat 80 = ''80''" by code_simp
  moreover have "pv_decision (evaluate (\<lambda>_ _. True) demo_http_manifest None
       \<lparr>si_id = SandboxId 3, si_containment_demonstrated = False\<rparr> (demo_http_intent (''127.0.0.1'' @ crlf))) = Allow"
    by code_simp
  ultimately show ?thesis by (simp add: get_lines_def)
qed

end
