(* ===== verification/Lab.thy ===== *)
theory Lab
  imports Broker Store Campaign_Spec Ipc_Session
begin

unbundle bit_operations_syntax

text \<open>
  \<^verbatim>\<open>aros-api/src/auth.rs\<close> and \<^verbatim>\<open>aros-api/src/lab.rs\<close>: the daemon's bearer check, the lab manifest
  built from the environment, the reading of tool requests and the lab runtime that runs them through
  the broker. Environment variables, canonical paths and fresh ids are arguments.
\<close>

subsection \<open>auth.rs\<close>

fun xor_diff :: "u8 \<Rightarrow> (u8 \<times> u8) list \<Rightarrow> u8" where
  "xor_diff diff [] = diff"
| "xor_diff diff ((a, b) # rest) = xor_diff (diff OR (a XOR b)) rest"

definition constant_time_eq :: "bytes \<Rightarrow> bytes \<Rightarrow> bool" where
  "constant_time_eq left right =
     (if length left \<noteq> length right then False else xor_diff 0 (zip left right) = 0)"

text \<open>\<open>authorization\<close> is the first value of the header when it is present and visible text.\<close>

definition bearer_authorized :: "string option \<Rightarrow> string \<Rightarrow> bool" where
  "bearer_authorized authorization expected_token =
     (if expected_token = [] then False
      else (case Option.bind authorization (strip_prefix ''Bearer '') of
              None \<Rightarrow> False
            | Some token \<Rightarrow> constant_time_eq (as_bytes token) (as_bytes expected_token)))"

subsection \<open>Requests (lab.rs)\<close>

record tool_intent_request =
  rq_capability :: string
  rq_argv :: "string list"
  rq_path :: "string option"
  rq_host :: "string option"
  rq_port :: "u32 option"
  rq_protocol :: "string option"
  rq_http_target :: "string option"
  rq_http_cookie :: "string option"
  rq_timeout_ms :: u64

record tool_intent_response =
  rs_decision :: string
  rs_reason :: string
  rs_exit_status :: "i32 option"
  rs_stdout_digest :: "string option"

definition capability_from_str :: "string \<Rightarrow> tool_capability option" where
  "capability_from_str s =
     (if s = ''read_file'' then Some ReadFile
      else if s = ''list_tree'' then Some ListTree
      else if s = ''search_text'' then Some SearchText
      else if s = ''git_inspect'' then Some GitInspect
      else if s = ''run_tests'' then Some RunTests
      else if s = ''run_language_tool'' then Some RunLanguageTool
      else if s = ''http_request'' then Some HttpRequest
      else if s = ''browser_request'' then Some BrowserRequest
      else if s = ''execute_allowlisted_binary'' then Some ExecuteAllowlistedBinary
      else if s = ''collect_logs'' then Some CollectLogs
      else if s = ''collect_file'' then Some CollectFile
      else if s = ''collect_process_state'' then Some CollectProcessState
      else if s = ''fuzz_adapter'' then Some FuzzAdapter
      else if s = ''sanitizer_adapter'' then Some SanitizerAdapter
      else if s = ''static_analysis_adapter'' then Some StaticAnalysisAdapter
      else None)"

definition protocol_from_str :: "string option \<Rightarrow> protocol_kind" where
  "protocol_from_str p =
     (if p = Some ''tcp'' then Tcp else if p = Some ''udp'' then Udp else Http)"

definition u16_try_from :: "u32 \<Rightarrow> u16 option" where
  "u16_try_from p = (if unat p < 2 ^ 16 then Some (ucast p) else None)"

text \<open>The network part of a request: only a host together with a port makes one.\<close>

definition with_network ::
    "string option \<Rightarrow> u32 option \<Rightarrow> string option \<Rightarrow> tool_intent \<Rightarrow> string + tool_intent" where
  "with_network host port protocol intent =
     (case (host, port) of
        (Some h, Some p) \<Rightarrow>
          res_bind (ok_or (u16_try_from p) ''port out of range'') (\<lambda>p16.
            Inr (intent\<lparr>ti_network := Some \<lparr>ni_host = h, ni_port = p16, ni_protocol = protocol_from_str protocol\<rparr>\<rparr>))
      | _ \<Rightarrow> Inr intent)"

definition intent_from_request :: "request_id \<Rightarrow> tool_intent_request \<Rightarrow> string + tool_intent" where
  "intent_from_request rid req =
     res_bind (ok_or (capability_from_str (rq_capability req))
                 (''unknown capability '' @ debug_str (rq_capability req))) (\<lambda>capability.
       with_network (rq_host req) (rq_port req) (rq_protocol req)
         ((tool_intent_new rid capability)\<lparr>ti_argv := rq_argv req, ti_path := rq_path req,
            ti_http_target := rq_http_target req, ti_http_cookie := rq_http_cookie req,
            ti_timeout_ms := (if rq_timeout_ms req = 0 then 30000 else rq_timeout_ms req)\<rparr>))"

definition decision_str :: "policy_decision \<Rightarrow> string" where
  "decision_str d =
     (case d of Allow \<Rightarrow> ''ALLOW'' | Deny \<Rightarrow> ''DENY'' | RequiresHuman \<Rightarrow> ''REQUIRES_HUMAN'')"

subsection \<open>The manifest (lab.rs)\<close>

definition canonicalize_lab_root :: "world \<Rightarrow> string \<Rightarrow> string + string" where
  "canonicalize_lab_root w raw =
     res_bind (map_err (\<lambda>e. ''lab root must exist and be canonicalizable: '' @ e) (w_canonicalize w raw)) (\<lambda>v.
       Inr (case strip_prefix [backslash, backslash, CHR ''?'', backslash] v of
              Some r \<Rightarrow> r
            | None \<Rightarrow> (case strip_prefix ''//?/'' v of Some r \<Rightarrow> r | None \<Rightarrow> v)))"

text \<open>\<open>loopback_cidr\<close> is what \<^verbatim>\<open>IpNet::from_str("127.0.0.1/32")\<close> gives.\<close>

definition lab_manifest_from_root_with_ports ::
    "'net option \<Rightarrow> world \<Rightarrow> campaign_id \<Rightarrow> target_id \<Rightarrow> string \<Rightarrow> bool \<Rightarrow> u16 list
      \<Rightarrow> string + 'net authorization_manifest" where
  "lab_manifest_from_root_with_ports loopback_cidr w cid tid raw require_containment allowed_ports =
     res_bind (canonicalize_lab_root w raw) (\<lambda>root.
       let m = default_deny_local cid tid root;
           m1 = m\<lparr>am_require_containment := require_containment,
                  am_tool_allowlist := am_tool_allowlist m \<union> {ListTree, ReadFile, SearchText, GitInspect}\<rparr>
       in Inr (if allowed_ports = [] then m1
          else
            let m2 = m1\<lparr>am_tool_allowlist := am_tool_allowlist m1 \<union> {HttpRequest}\<rparr>;
                m3 = (case loopback_cidr of
                        None \<Rightarrow> m2
                      | Some cidr \<Rightarrow> m2\<lparr>am_allowed_endpoints := am_allowed_endpoints m2
                          @ [\<lparr>ep_cidr = cidr, ep_ports = set allowed_ports, ep_protocols = {Http, Tcp}\<rparr>]\<rparr>)
            in m3\<lparr>am_allowed_service_names := am_allowed_service_names m3 \<union> {''localhost'', ''127.0.0.1''}\<rparr>))"

definition lab_manifest_from_root ::
    "'net option \<Rightarrow> world \<Rightarrow> campaign_id \<Rightarrow> target_id \<Rightarrow> string \<Rightarrow> bool \<Rightarrow> string + 'net authorization_manifest" where
  "lab_manifest_from_root loopback_cidr w cid tid raw require_containment =
     lab_manifest_from_root_with_ports loopback_cidr w cid tid raw require_containment []"

definition parse_ports :: "string \<Rightarrow> string + u16 list" where
  "parse_ports raw =
     (if trim raw = [] then Inr []
      else res_map (\<lambda>part. map_err (\<lambda>_. ''invalid lab port '' @ debug_str part)
                     (case parse_uint (2 ^ 16) (trim part) of None \<Rightarrow> Inl () | Some n \<Rightarrow> Inr (of_nat n)))
             (split_on (CHR '','') raw))"

definition lab_manifest ::
    "'net option \<Rightarrow> world \<Rightarrow> campaign_id \<Rightarrow> target_id \<Rightarrow> (string \<Rightarrow> string option)
      \<Rightarrow> string + 'net authorization_manifest" where
  "lab_manifest loopback_cidr w cid tid env_var =
     res_bind (ok_or (env_var (env_name ''LAB_ROOT''))
                 ''explicit lab root is required; daemon will not use cwd implicitly'') (\<lambda>root.
       let require_containment =
             (case env_var (env_name ''REQUIRE_CONTAINMENT'') of
                None \<Rightarrow> True
              | Some v \<Rightarrow> \<not> (v = ''0'' \<or> to_ascii_lowercase v = ''false''))
       in res_bind (case env_var (env_name ''LAB_PORTS'') of None \<Rightarrow> Inr [] | Some v \<Rightarrow> parse_ports v) (\<lambda>ports.
            lab_manifest_from_root_with_ports loopback_cidr w cid tid root require_containment ports))"

subsection \<open>The runtime (lab.rs)\<close>

record 'net lab_runtime =
  lab_manifest_of :: "'net authorization_manifest"
  lab_manifest_hash :: string
  lab_sandbox :: sandbox_identity
  lab_cas :: cas
  lab_state :: broker_state

definition cas_error_to_string :: "cas_error \<Rightarrow> string" where
  "cas_error_to_string e =
     (case e of
        CE_Io m \<Rightarrow> ''io error: '' @ m
      | CE_NotFound d \<Rightarrow> ''artifact not found: '' @ d
      | DigestMismatch \<Rightarrow> ''digest mismatch''
      | TooLarge n \<Rightarrow> ''artifact exceeds max size '' @ show_nat (unat n) @ '' bytes'')"

definition broker_error_to_string :: "('e \<Rightarrow> string) \<Rightarrow> 'e broker_error \<Rightarrow> string" where
  "broker_error_to_string show_e e =
     (case e of
        BE_Denied r \<Rightarrow> ''policy denied: '' @ r
      | BE_Io m \<Rightarrow> ''io: '' @ m
      | BE_Cas c \<Rightarrow> ''cas: '' @ cas_error_to_string c
      | BE_Ledger l \<Rightarrow> ''ledger: '' @ ledger_error_to_string show_e l
      | BE_Http h \<Rightarrow> ''http: '' @ (case h of HE_Io m \<Rightarrow> ''io: '' @ m | HE_Invalid \<Rightarrow> ''invalid http response''))"

definition lab_broker :: "'net lab_runtime \<Rightarrow> 'net tool_broker" where
  "lab_broker lab =
     \<lparr>br_campaign_id = am_campaign_id (lab_manifest_of lab), br_manifest = lab_manifest_of lab,
      br_manifest_hash = lab_manifest_hash lab, br_snapshot = None, br_sandbox = lab_sandbox lab,
      br_cas = lab_cas lab, br_cli_human_override = False\<rparr>"

definition deny_response :: "string \<Rightarrow> tool_intent_response" where
  "deny_response reason =
     \<lparr>rs_decision = ''DENY'', rs_reason = reason, rs_exit_status = None, rs_stdout_digest = None\<rparr>"

definition lab_execute ::
    "('net \<Rightarrow> ip_addr \<Rightarrow> bool) \<Rightarrow> ('e \<Rightarrow> string) \<Rightarrow> 'e broker_env \<Rightarrow> world \<Rightarrow> tool_intent \<Rightarrow> 'net lab_runtime
      \<Rightarrow> tool_intent_response \<times> 'net lab_runtime" where
  "lab_execute contains show_e env w intent lab =
     (case execute contains env w (lab_broker lab) intent (lab_state lab) of
        (r, st) \<Rightarrow>
          ((case r of
              Inr receipt \<Rightarrow>
                \<lparr>rs_decision = decision_str (er_decision receipt),
                 rs_reason = ''allowlist match; executed by trusted broker'',
                 rs_exit_status = er_exit_status receipt, rs_stdout_digest = er_stdout_digest receipt\<rparr>
            | Inl (BE_Denied reason) \<Rightarrow> deny_response reason
            | Inl other \<Rightarrow> deny_response (''execution failed: '' @ broker_error_to_string show_e other)),
           lab\<lparr>lab_state := st\<rparr>))"

text \<open>\<open>create_dir_all\<close> is the outcome of that call on a path, \<open>hash\<close> the digest of the manifest's canonical
  JSON or the serializer's error text.\<close>

definition open_with_manifest ::
    "(string \<Rightarrow> string option) \<Rightarrow> ('net authorization_manifest \<Rightarrow> string + string) \<Rightarrow> sandbox_id \<Rightarrow> file_system
      \<Rightarrow> string \<Rightarrow> 'net authorization_manifest \<Rightarrow> string + 'net lab_runtime" where
  "open_with_manifest create_dir_all hash sid files data_root m =
     (case create_dir_all data_root of
        Some e \<Rightarrow> Inl e
      | None \<Rightarrow>
          res_bind (map_err cas_error_to_string
                      (cas_open create_dir_all (path_join data_root ''cas'') (32 * 1024 * 1024))) (\<lambda>cas.
          res_bind (hash m) (\<lambda>manifest_hash.
            Inr \<lparr>lab_manifest_of = m, lab_manifest_hash = manifest_hash,
                 lab_sandbox = \<lparr>si_id = sid, si_containment_demonstrated = False\<rparr>, lab_cas = cas,
                 lab_state = \<lparr>bs_ledger = ledger_new, bs_files = files\<rparr>\<rparr>)))"

definition lab_open ::
    "'net option \<Rightarrow> world \<Rightarrow> campaign_id \<Rightarrow> target_id \<Rightarrow> (string \<Rightarrow> string option)
      \<Rightarrow> (string \<Rightarrow> string option) \<Rightarrow> ('net authorization_manifest \<Rightarrow> string + string) \<Rightarrow> sandbox_id \<Rightarrow> file_system
      \<Rightarrow> string \<Rightarrow> string + 'net lab_runtime" where
  "lab_open loopback_cidr w cid tid env_var create_dir_all hash sid files data_root =
     res_bind (lab_manifest loopback_cidr w cid tid env_var)
       (open_with_manifest create_dir_all hash sid files data_root)"

subsection \<open>Bearer tokens\<close>

lemma xor_zero_iff: "a XOR b = 0 \<longleftrightarrow> a = (b :: u8)"
  by (auto simp: bit_eq_iff bit_xor_iff)

lemma xor_diff_0: "xor_diff diff ps = 0 \<longleftrightarrow> diff = 0 \<and> list_all (\<lambda>(a, b). a = b) ps"
  by (induction diff ps rule: xor_diff.induct) (auto simp: or_eq_0_iff xor_zero_iff)

lemma constant_time_eq_iff: "constant_time_eq left right \<longleftrightarrow> left = right"
  by (auto simp: constant_time_eq_def xor_diff_0 list_all_iff list_eq_iff_zip_eq split: prod.splits)

lemma bearer_iff:
  "bearer_authorized authorization token \<longleftrightarrow> token \<noteq> [] \<and> authorization = Some (''Bearer '' @ token)"
  by (cases authorization)
    (auto simp: bearer_authorized_def constant_time_eq_iff strip_prefix_Some
      simp del: strip_prefix.simps append.simps split: option.splits)

subsection \<open>Requests\<close>

lemma capability_from_str_iff: "capability_from_str s = Some c \<longleftrightarrow> s = capability_as_str c"
proof
  assume "capability_from_str s = Some c"
  then show "s = capability_as_str c" by (auto simp: capability_from_str_def split: if_splits)
next
  assume "s = capability_as_str c"
  then show "capability_from_str s = Some c" by (cases c) (simp_all add: capability_from_str_def)
qed

lemma u16_try_from_iff: "u16_try_from p = Some q \<longleftrightarrow> unat p = unat q"
proof
  assume "u16_try_from p = Some q"
  then show "unat p = unat q"
    by (auto simp: u16_try_from_def unsigned_ucast_eq take_bit_nat_eq_self split: if_splits)
next
  assume p: "unat p = unat q"
  moreover have "unat q < 2 ^ 16" using unsigned_less[of q, where ?'a = nat] by simp
  ultimately have "u16_try_from p = Some (ucast p)" by (simp add: u16_try_from_def)
  moreover have "ucast p = q" using p \<open>unat q < 2 ^ 16\<close>
    by (simp add: word_unat_eq_iff unsigned_ucast_eq take_bit_nat_eq_self)
  ultimately show "u16_try_from p = Some q" by simp
qed

subsection \<open>Runs of the lab\<close>

text \<open>A sequence of executions. Per call the clock, the outcomes of the store's system calls and the host
  may differ; the serializer and the hash are fixed.\<close>

type_synonym lab_call =
  "(nat \<Rightarrow> u64) \<times> (nat \<Rightarrow> put_faults \<times> string \<times> artifact_id) \<times> world \<times> tool_intent"

fun lab_run ::
    "('net \<Rightarrow> ip_addr \<Rightarrow> bool) \<Rightarrow> ('e \<Rightarrow> string) \<Rightarrow> 'e broker_env \<Rightarrow> lab_call list \<Rightarrow> 'net lab_runtime
      \<Rightarrow> tool_intent_response list \<times> 'net lab_runtime" where
  "lab_run contains show_e env [] lab = ([], lab)"
| "lab_run contains show_e env ((clock, put, w, intent) # calls) lab =
     (case lab_execute contains show_e (env\<lparr>be_clock := clock, be_put := put\<rparr>) w intent lab of
        (r, lab1) \<Rightarrow> (case lab_run contains show_e env calls lab1 of (rs, lab2) \<Rightarrow> (r # rs, lab2)))"

text \<open>The evidence of a lab is sound: its ledger verifies and every blob has its digest.\<close>

definition lab_sound :: "'e ledger_env \<Rightarrow> 'net lab_runtime \<Rightarrow> bool" where
  "lab_sound le lab \<longleftrightarrow> ledger_verify le (bs_ledger (lab_state lab)) = Inr ()
     \<and> cas_ok (env_blake3_hex le) (lab_cas lab) (bs_files (lab_state lab))"

text \<open>What a response says about the intent and about the evidence: allowed means authorized, and with
  the output in the store; anything else is a denial without output.\<close>

definition response_ok ::
    "('net \<Rightarrow> ip_addr \<Rightarrow> bool) \<Rightarrow> 'e ledger_env \<Rightarrow> tool_intent \<Rightarrow> tool_intent_response \<Rightarrow> 'net lab_runtime \<Rightarrow> bool" where
  "response_ok contains le intent r lab \<longleftrightarrow>
     (if rs_decision r = ''ALLOW'' then
        authorized contains (lab_manifest_of lab) (lab_sandbox lab) intent
        \<and> rs_exit_status r = Some 0
        \<and> (\<exists>d c. rs_stdout_digest r = Some d \<and> hex_digest d
             \<and> bs_files (lab_state lab) (blob_path (lab_cas lab) d) = Some c \<and> env_blake3_hex le c = d)
      else rs_decision r = ''DENY'' \<and> rs_exit_status r = None \<and> rs_stdout_digest r = None)"

lemma lab_execute_fields:
  assumes "lab_execute contains show_e env w intent lab = (r, lab')"
  shows "lab_manifest_of lab' = lab_manifest_of lab" "lab_sandbox lab' = lab_sandbox lab" "lab_cas lab' = lab_cas lab"
    "lab_state lab' = snd (execute contains env w (lab_broker lab) intent (lab_state lab))"
  using assms by (auto simp: lab_execute_def split: prod.splits)

lemma lab_execute_decision:
  assumes "lab_execute contains (show_e :: 'e \<Rightarrow> string) env w intent lab = (r, lab')"
  shows "(\<exists>receipt. execute contains env w (lab_broker lab) intent (lab_state lab) = (Inr receipt, lab_state lab')
      \<and> rs_decision r = decision_str (er_decision receipt) \<and> rs_stdout_digest r = er_stdout_digest receipt
      \<and> rs_exit_status r = er_exit_status receipt)
    \<or> (\<exists>reason. r = deny_response reason \<and> \<not> is_ok (fst (execute contains env w (lab_broker lab) intent (lab_state lab))))"
proof (cases "execute contains env w (lab_broker lab) intent (lab_state lab)")
  case (Pair x st)
  show ?thesis
  proof (cases x)
    case (Inr receipt)
    with Pair assms show ?thesis by (auto simp: lab_execute_def)
  next
    case (Inl e)
    with Pair assms show ?thesis by (cases e) (auto simp: lab_execute_def is_ok_def)
  qed
qed

lemma lab_execute_ok:
  assumes run: "lab_execute contains (show_e :: 'e \<Rightarrow> string) env w intent lab = (r, lab')"
    and sound: "lab_sound (be_ledger_env env) lab"
    and hex: "\<And>bs. hex_digest (env_blake3_hex (be_ledger_env env) bs)"
  shows "response_ok contains (be_ledger_env env) intent r lab'"
  using lab_execute_decision[OF run]
proof (elim disjE exE conjE)
  fix receipt
  assume e: "execute contains env w (lab_broker lab) intent (lab_state lab) = (Inr receipt, lab_state lab')"
    and r: "rs_decision r = decision_str (er_decision receipt)" "rs_stdout_digest r = er_stdout_digest receipt"
      "rs_exit_status r = er_exit_status receipt"
  note f = lab_execute_fields[OF run]
  have ok: "cas_ok (env_blake3_hex (be_ledger_env env)) (br_cas (lab_broker lab)) (bs_files (lab_state lab))"
    using sound by (simp add: lab_sound_def lab_broker_def)
  from execute_receipt[OF e ok hex] have a: "authorized contains (lab_manifest_of lab) (lab_sandbox lab) intent"
      "\<not> needs_human (lab_manifest_of lab) intent" "er_exit_status receipt = Some 0"
      "er_decision receipt = (if needs_human (lab_manifest_of lab) intent then RequiresHuman else Allow)"
    by (auto simp: lab_broker_def)
  from execute_receipt[OF e ok hex] obtain stdout c where
    d: "er_stdout_digest receipt = Some (env_blake3_hex (be_ledger_env env) stdout)"
      "cas_get (env_blake3_hex (be_ledger_env env)) (lab_cas lab) (bs_files (lab_state lab'))
         (env_blake3_hex (be_ledger_env env) stdout) = Inr c"
    by (auto simp: lab_broker_def)
  with a r f hex show ?thesis
    by (auto simp: response_ok_def decision_str_def cas_get_def split: option.splits if_splits)
next
  fix reason
  assume "r = deny_response reason"
  then show ?thesis by (simp add: response_ok_def deny_response_def)
qed

lemma lab_execute_sound:
  assumes "lab_execute contains show_e env w intent lab = (r, lab')" "lab_sound (be_ledger_env env) lab"
    and hex: "\<And>bs. hex_digest (env_blake3_hex (be_ledger_env env) bs)"
  shows "lab_sound (be_ledger_env env) lab'"
proof -
  have ok: "ledger_verify (be_ledger_env env) (bs_ledger (lab_state lab)) = Inr ()"
    "cas_ok (env_blake3_hex (be_ledger_env env)) (br_cas (lab_broker lab)) (bs_files (lab_state lab))"
    using assms(2) by (simp_all add: lab_sound_def lab_broker_def)
  from execute_keeps_evidence[OF ok hex prod.collapse[symmetric]] lab_execute_fields[OF assms(1)]
  show ?thesis by (simp add: lab_sound_def lab_broker_def)
qed

lemma lab_execute_response_stays:
  assumes "lab_execute contains show_e env w intent lab = (r, lab')" "response_ok contains (be_ledger_env env) i0 r0 lab"
    and hex: "\<And>bs. hex_digest (env_blake3_hex (be_ledger_env env) bs)"
  shows "response_ok contains (be_ledger_env env) i0 r0 lab'"
proof -
  have "bs_files (lab_state lab') (blob_path (lab_cas lab) d) = Some c"
    if "bs_files (lab_state lab) (blob_path (lab_cas lab) d) = Some c" "hex_digest d" for d c
    using execute_blobs[OF prod.collapse[symmetric], of "lab_state lab" "lab_broker lab" d c env contains w intent]
      that hex lab_execute_fields(4)[OF assms(1)] by (simp add: lab_broker_def)
  with assms(2) lab_execute_fields[OF assms(1)] show ?thesis
    by (auto simp: response_ok_def split: if_splits)
qed

lemma lab_run_response_stays:
  assumes "lab_run contains show_e env calls lab = (rs, lab')" "response_ok contains (be_ledger_env env) i0 r0 lab"
    and hex: "\<And>bs. hex_digest (env_blake3_hex (be_ledger_env env) bs)"
  shows "response_ok contains (be_ledger_env env) i0 r0 lab'"
  using assms(1,2)
proof (induction calls arbitrary: lab rs)
  case (Cons call calls)
  obtain clock put w intent where call: "call = (clock, put, w, intent)" by (cases call)
  with Cons.prems(1) obtain r lab1 rs' where
    1: "lab_execute contains show_e (env\<lparr>be_clock := clock, be_put := put\<rparr>) w intent lab = (r, lab1)"
    and 2: "lab_run contains show_e env calls lab1 = (rs', lab')"
    by (auto split: prod.splits)
  have "response_ok contains (be_ledger_env env) i0 r0 lab1"
    using lab_execute_response_stays[OF 1] Cons.prems(2) hex by simp
  with Cons.IH[OF 2] show ?case by simp
qed simp

lemma lab_run_ok:
  assumes "lab_run contains show_e env calls lab = (rs, lab')" "lab_sound (be_ledger_env env) lab"
    and hex: "\<And>bs. hex_digest (env_blake3_hex (be_ledger_env env) bs)"
  shows "lab_sound (be_ledger_env env) lab'
    \<and> list_all2 (\<lambda>(_, _, _, intent) r. response_ok contains (be_ledger_env env) intent r lab') calls rs"
  using assms(1,2)
proof (induction calls arbitrary: lab rs)
  case (Cons call calls)
  obtain clock put w intent where call: "call = (clock, put, w, intent)" by (cases call)
  with Cons.prems(1) obtain r lab1 rs' where
    1: "lab_execute contains show_e (env\<lparr>be_clock := clock, be_put := put\<rparr>) w intent lab = (r, lab1)"
    and 2: "lab_run contains show_e env calls lab1 = (rs', lab')" and rs: "rs = r # rs'"
    by (auto split: prod.splits)
  have "lab_sound (be_ledger_env env) lab1" "response_ok contains (be_ledger_env env) intent r lab1"
    using lab_execute_sound[OF 1] lab_execute_ok[OF 1] Cons.prems(2) hex by simp_all
  then show ?case
    using Cons.IH[OF 2] lab_run_response_stays[OF 2 _ hex] by (simp add: call rs)
qed simp

subsection \<open>Opening the lab\<close>

lemma lab_manifest_from_root_Inr:
  assumes "lab_manifest_from_root_with_ports loopback_cidr w cid tid raw rc ports = Inr m"
  obtains root where "canonicalize_lab_root w raw = Inr root" "am_allowed_filesystem_roots m = [root]"
    "am_require_containment m = rc"
    "am_allowed_endpoints m = (case loopback_cidr of
        Some cidr \<Rightarrow> if ports = [] then [] else [\<lparr>ep_cidr = cidr, ep_ports = set ports, ep_protocols = {Http, Tcp}\<rparr>]
      | None \<Rightarrow> [])"
    "am_allowed_service_names m = (if ports = [] then {''fixture-target''} else {''fixture-target'', ''localhost'', ''127.0.0.1''})"
    "am_tool_allowlist m \<subseteq> {ReadFile, ListTree, SearchText, GitInspect, CollectFile, CollectLogs}
       \<union> (if ports = [] then {} else {HttpRequest})"
proof -
  from assms obtain root where "canonicalize_lab_root w raw = Inr root"
    by (auto simp: lab_manifest_from_root_with_ports_def res_simps)
  with assms show thesis
    by (cases "ports = []"; cases loopback_cidr; intro that[of root])
      (auto simp: lab_manifest_from_root_with_ports_def Let_def default_deny_local_def)
qed

lemma lab_open_Inr:
  assumes "lab_open loopback_cidr w cid tid env_var create_dir_all hash sid files data_root = Inr lab"
  obtains root ports where "env_var (env_name ''LAB_ROOT'') = Some root"
    "lab_manifest_from_root_with_ports loopback_cidr w cid tid root
       (case env_var (env_name ''REQUIRE_CONTAINMENT'') of
          None \<Rightarrow> True | Some v \<Rightarrow> \<not> (v = ''0'' \<or> to_ascii_lowercase v = ''false'')) ports = Inr (lab_manifest_of lab)"
    "\<not> si_containment_demonstrated (lab_sandbox lab)" "lab_state lab = \<lparr>bs_ledger = ledger_new, bs_files = files\<rparr>"
  using assms
  by (auto simp: lab_open_def lab_manifest_def open_with_manifest_def res_simps Let_def ok_or_def
      split: option.splits)

lemma lab_run_fields:
  "lab_run contains show_e env calls lab = (rs, lab')
    \<Longrightarrow> lab_manifest_of lab' = lab_manifest_of lab \<and> lab_sandbox lab' = lab_sandbox lab"
proof (induction calls arbitrary: lab rs)
  case (Cons call calls)
  then show ?case by (cases call) (auto split: prod.splits simp: lab_execute_fields)
qed simp

text \<open>An unauthorized intent is denied and touches no file, whatever the host looks like.\<close>

lemma lab_execute_unauthorized:
  assumes "lab_execute contains show_e env w intent lab = (r, lab')"
    and "\<not> authorized contains (lab_manifest_of lab) (lab_sandbox lab) intent"
  shows "rs_decision r = ''DENY'' \<and> bs_files (lab_state lab') = bs_files (lab_state lab)"
proof (cases "execute contains env w (lab_broker lab) intent (lab_state lab)")
  case (Pair x st)
  have "\<not> is_ok x \<and> bs_files st = bs_files (lab_state lab)"
    using Pair
  proof (cases rule: execute_cases)
    case (allowed st1 st2)
    with assms(2) show ?thesis by (simp add: effective_allow_iff lab_broker_def)
  qed (auto dest!: log_event_Inr(2))
  with Pair lab_execute_decision[OF assms(1)] lab_execute_fields(4)[OF assms(1)] show ?thesis
    by (auto simp: deny_response_def)
qed

lemma lab_run_unauthorized:
  assumes "lab_run contains show_e env calls lab = (rs, lab')"
    and "\<And>intent. \<not> authorized contains (lab_manifest_of lab) (lab_sandbox lab) intent"
  shows "length rs = length calls \<and> list_all (\<lambda>r. rs_decision r = ''DENY'') rs
    \<and> bs_files (lab_state lab') = bs_files (lab_state lab)"
  using assms
proof (induction calls arbitrary: lab rs)
  case (Cons call calls)
  obtain clock put w intent where call: "call = (clock, put, w, intent)" by (cases call)
  with Cons.prems(1) obtain r lab1 rs' where
    1: "lab_execute contains show_e (env\<lparr>be_clock := clock, be_put := put\<rparr>) w intent lab = (r, lab1)"
    and 2: "lab_run contains show_e env calls lab1 = (rs', lab')" and rs: "rs = r # rs'"
    by (auto split: prod.splits)
  have "\<not> authorized contains (lab_manifest_of lab1) (lab_sandbox lab1) i" for i
    using Cons.prems(2) lab_execute_fields[OF 1] by simp
  from Cons.IH[OF 2 this] lab_execute_unauthorized[OF 1 Cons.prems(2)] show ?case by (simp add: rs)
qed simp

subsection \<open>Instances\<close>

definition demo_var :: "string option \<Rightarrow> string \<Rightarrow> string option" where
  "demo_var waiver name =
     (if name = ''AROS_LAB_ROOT'' then Some ''/lab'' else if name = ''AROS_REQUIRE_CONTAINMENT'' then waiver else None)"

definition demo_open :: "string option \<Rightarrow> string + unit lab_runtime" where
  "demo_open waiver = lab_open (Some ()) demo_world (CampaignId 7) (TargetId 1) (demo_var waiver)
     (\<lambda>_. None) (\<lambda>_. Inr ''m'') (SandboxId 3) Map.empty ''/data''"

definition demo_lab :: "string option \<Rightarrow> unit lab_runtime" where
  "demo_lab waiver = (case demo_open waiver of Inr lab \<Rightarrow> lab | Inl _ \<Rightarrow> undefined)"

definition demo_call :: lab_call where
  "demo_call = (of_nat, \<lambda>_. (no_faults, ''u'', ArtifactId 1), demo_world, demo_read_intent ''/lab/a'')"

lemma demo_open_ok: "demo_open None = Inr (demo_lab None)" "demo_open (Some ''0'') = Inr (demo_lab (Some ''0''))"
proof -
  have "is_ok (demo_open None)" "is_ok (demo_open (Some ''0''))" by code_simp+
  then show "demo_open None = Inr (demo_lab None)" "demo_open (Some ''0'') = Inr (demo_lab (Some ''0''))"
    by (auto simp: is_ok_iff demo_lab_def)
qed

lemma demo_lab_run_allowed:
  "map rs_decision (fst (lab_run (\<lambda>_ _. False) (\<lambda>_. ''e'') demo_broker_env [demo_call, demo_call] (demo_lab (Some ''0''))))
     = [''ALLOW'', ''ALLOW'']"
  by code_simp

subsection \<open>Properties\<close>

text \<open>C11. Accountability of the lab over its whole life: from a freshly opened lab, after any sequence of
  executions under any host, clock and failing system calls, the ledger verifies; an intent that was
  answered with ALLOW was authorized by the manifest and the bytes behind its digest are still in the
  store at the end of the run and have that digest; every other intent was answered with DENY and no
  digest.\<close>

theorem lab_run_accountable:
  assumes "lab_open loopback_cidr w cid tid env_var create_dir_all hash sid files data_root = Inr lab0"
    and "cas_ok (env_blake3_hex (be_ledger_env env)) (lab_cas lab0) files"
    and "\<And>bs. hex_digest (env_blake3_hex (be_ledger_env env) bs)"
    and "lab_run contains show_e env calls lab0 = (rs, lab)"
  shows "ledger_verify (be_ledger_env env) (bs_ledger (lab_state lab)) = Inr ()
    \<and> list_all2 (\<lambda>(_, _, _, intent) r.
        if rs_decision r = ''ALLOW''
        then authorized contains (lab_manifest_of lab0) (lab_sandbox lab0) intent
          \<and> (\<exists>d c. rs_stdout_digest r = Some d \<and> env_blake3_hex (be_ledger_env env) c = d
               \<and> cas_get (env_blake3_hex (be_ledger_env env)) (lab_cas lab) (bs_files (lab_state lab)) d = Inr c)
        else rs_decision r = ''DENY'' \<and> rs_stdout_digest r = None) calls rs"
proof -
  from assms(1) obtain st0: "lab_state lab0 = \<lparr>bs_ledger = ledger_new, bs_files = files\<rparr>" by (rule lab_open_Inr)
  then have "lab_sound (be_ledger_env env) lab0"
    using assms(2) by (simp add: lab_sound_def ledger_verify_def ledger_new_def)
  from lab_run_ok[OF assms(4) this assms(3)] lab_run_fields[OF assms(4)] show ?thesis
    by (auto simp: lab_sound_def response_ok_def cas_get_def elim!: list_all2_mono split: if_splits)
qed

theorem lab_run_accountable_witness:
  "\<exists>rs lab. lab_run (\<lambda>_ _. False) (\<lambda>_. ''e'') demo_broker_env [demo_call, demo_call] (demo_lab (Some ''0'')) = (rs, lab)
    \<and> map rs_decision rs = [''ALLOW'', ''ALLOW''] \<and> ledger_verify demo_ledger_env (bs_ledger (lab_state lab)) = Inr ()"
proof -
  obtain rs lab where r: "lab_run (\<lambda>_ _. False) (\<lambda>_. ''e'') demo_broker_env [demo_call, demo_call] (demo_lab (Some ''0''))
    = (rs, lab)" by fastforce
  have "cas_ok (env_blake3_hex (be_ledger_env demo_broker_env)) (lab_cas (demo_lab (Some ''0''))) Map.empty"
    by (simp add: cas_ok_def)
  from lab_run_accountable[OF demo_open_ok(2)[unfolded demo_open_def] this demo_blake3_hex r]
  have "ledger_verify (be_ledger_env demo_broker_env) (bs_ledger (lab_state lab)) = Inr ()" by blast
  with r demo_lab_run_allowed show ?thesis by (auto simp: demo_broker_env_def)
qed

text \<open>C26. The lab fails closed by default: unless the operator waives containment explicitly, a lab never
  executes anything. Whatever it is asked and however the host answers, every response is a denial
  and not a single file of the store changes.\<close>

theorem lab_fails_closed:
  assumes "lab_open loopback_cidr w cid tid env_var create_dir_all hash sid files data_root = Inr lab0"
    and "env_var ''AROS_REQUIRE_CONTAINMENT'' = None
      \<or> (\<exists>v. env_var ''AROS_REQUIRE_CONTAINMENT'' = Some v \<and> v \<noteq> ''0'' \<and> to_ascii_lowercase v \<noteq> ''false'')"
    and "lab_run contains show_e env calls lab0 = (rs, lab)"
  shows "length rs = length calls \<and> list_all (\<lambda>r. rs_decision r = ''DENY'') rs \<and> bs_files (lab_state lab) = files"
  using assms(1)
proof (rule lab_open_Inr)
  fix root ports
  assume m: "lab_manifest_from_root_with_ports loopback_cidr w cid tid root
       (case env_var (env_name ''REQUIRE_CONTAINMENT'') of
          None \<Rightarrow> True | Some v \<Rightarrow> \<not> (v = ''0'' \<or> to_ascii_lowercase v = ''false'')) ports = Inr (lab_manifest_of lab0)"
    and s: "\<not> si_containment_demonstrated (lab_sandbox lab0)"
    and st: "lab_state lab0 = \<lparr>bs_ledger = ledger_new, bs_files = files\<rparr>"
  from m have "am_require_containment (lab_manifest_of lab0)"
    by (rule lab_manifest_from_root_Inr) (use assms(2) in \<open>auto simp: env_name_def ENV_PREFIX_def\<close>)
  with s have "\<not> authorized contains (lab_manifest_of lab0) (lab_sandbox lab0) i" for i
    by (simp add: authorized_def)
  from lab_run_unauthorized[OF assms(3) this] st show ?thesis by simp
qed

theorem lab_fails_closed_witness:
  "list_all (\<lambda>r. rs_decision r = ''DENY'')
     (fst (lab_run (\<lambda>_ _. False) (\<lambda>_. ''e'') demo_broker_env [demo_call] (demo_lab None)))"
proof -
  have "demo_var None ''AROS_REQUIRE_CONTAINMENT'' = None" by code_simp
  from lab_fails_closed[OF demo_open_ok(1)[unfolded demo_open_def] _ prod.collapse[symmetric]] this show ?thesis by blast
qed



text \<open>The bearer check: the branch-free comparison decides equality, and a request is let in exactly
  when a non-empty token is configured and the header is that token behind the scheme.\<close>

theorem bearer_authorized_iff:
  "(constant_time_eq left right \<longleftrightarrow> left = right)
   \<and> (bearer_authorized authorization token \<longleftrightarrow> token \<noteq> [] \<and> authorization = Some (''Bearer '' @ token))"
  using constant_time_eq_iff bearer_iff by blast

end
