(* ===== verification/Registry.thy ===== *)
theory Registry
  imports Store
begin

text \<open>
  \<^verbatim>\<open>aros-api/src/registry.rs\<close>: the daemon's persistent registry of campaign outcomes and of the turns of
  the research worker, on the record table of the store. The outcome of opening the database and the
  clock are arguments, the JSON text of a record is a codec.
\<close>

subsection \<open>Data\<close>

definition CAMPAIGN_KIND :: string where
  "CAMPAIGN_KIND = ''fixture_campaign_outcome''"

definition WORKER_TURN_KIND :: string where
  "WORKER_TURN_KIND = ''worker_research_turn''"

record fixture_campaign_response =
  fc_campaign_id :: string
  fc_state :: string
  fc_verified :: bool
  fc_deceptive_rejected :: bool
  fc_evidence_level :: "string option"
  fc_original_digest :: string
  fc_original_digest_after :: string
  fc_original_unmodified :: bool
  fc_claim :: "string option"
  fc_live_reattack_confirmed :: bool
  fc_research_card_id :: "string option"
  fc_verifier_isolated :: bool

record campaign_record =
  cr_response :: fixture_campaign_response
  cr_stored_unix_ms :: u64

record worker_research_turn =
  wt_session_id :: string
  wt_request_id :: string
  wt_capability :: string
  wt_path :: "string option"
  wt_host :: "string option"
  wt_port :: "u32 option"
  wt_decision :: string
  wt_reason :: string
  wt_exit_status :: "i32 option"
  wt_stdout_digest :: "string option"
  wt_stored_unix_ms :: u64

subsection \<open>Operations\<close>

text \<open>\<open>opened\<close> is the error of opening the database, if any.\<close>

definition registry_open ::
    "(string \<Rightarrow> string option) \<Rightarrow> (string \<Rightarrow> store_error option) \<Rightarrow> string \<Rightarrow> string + string" where
  "registry_open create_dir_all store_open data_root =
     (case create_dir_all data_root of
        Some e \<Rightarrow> Inl e
      | None \<Rightarrow>
          let db_path = path_join data_root ''campaigns.db''
          in (case store_open db_path of
                Some e \<Rightarrow> Inl (store_error_to_string e)
              | None \<Rightarrow> Inr db_path))"

definition registry_store :: "store_error option \<Rightarrow> store \<Rightarrow> string + store" where
  "registry_store opened db =
     (case opened of Some e \<Rightarrow> Inl (store_error_to_string e) | None \<Rightarrow> Inr db)"

definition registry_put ::
    "campaign_record codec \<Rightarrow> store_error option \<Rightarrow> u64 \<Rightarrow> fixture_campaign_response \<Rightarrow> store \<Rightarrow> string + store" where
  "registry_put cd opened unix_ms response db =
     res_bind (codec_to_string cd \<lparr>cr_response = response, cr_stored_unix_ms = unix_ms\<rparr>) (\<lambda>payload.
     res_bind (registry_store opened db) (\<lambda>db.
       Inr (put_record CAMPAIGN_KIND (fc_campaign_id response) payload db)))"

definition registry_get :: "campaign_record codec \<Rightarrow> store_error option \<Rightarrow> string \<Rightarrow> store \<Rightarrow> string + campaign_record" where
  "registry_get cd opened campaign_id db =
     res_bind (registry_store opened db) (\<lambda>db.
     res_bind (map_err store_error_to_string (get_record CAMPAIGN_KIND campaign_id db)) (\<lambda>payload.
       codec_from_str cd payload))"

text \<open>\<^verbatim>\<open>sort_by_key\<close> is stable; the newest record comes first.\<close>

definition registry_list :: "campaign_record codec \<Rightarrow> store_error option \<Rightarrow> store \<Rightarrow> string + campaign_record list" where
  "registry_list cd opened db =
     res_bind (registry_store opened db) (\<lambda>db.
     res_bind (res_map (\<lambda>(_, payload). codec_from_str cd payload) (list_records CAMPAIGN_KIND db)) (\<lambda>records.
       Inr (sort_key (\<lambda>r. - int (unat (cr_stored_unix_ms r))) records)))"

definition turn_key :: "worker_research_turn \<Rightarrow> string" where
  "turn_key turn = wt_session_id turn @ '':'' @ wt_request_id turn"

definition put_worker_turn ::
    "worker_research_turn codec \<Rightarrow> store_error option \<Rightarrow> worker_research_turn \<Rightarrow> store \<Rightarrow> string + store" where
  "put_worker_turn cd opened turn db =
     res_bind (codec_to_string cd turn) (\<lambda>payload.
     res_bind (registry_store opened db) (\<lambda>db.
       Inr (put_record WORKER_TURN_KIND (turn_key turn) payload db)))"

definition list_worker_turns ::
    "worker_research_turn codec \<Rightarrow> store_error option \<Rightarrow> store \<Rightarrow> string + worker_research_turn list" where
  "list_worker_turns cd opened db =
     res_bind (registry_store opened db) (\<lambda>db.
     res_bind (res_map (\<lambda>(_, payload). codec_from_str cd payload) (list_records WORKER_TURN_KIND db)) (\<lambda>turns.
       Inr (sort_key (\<lambda>t. unat (wt_stored_unix_ms t)) turns)))"

definition new_worker_turn ::
    "u64 \<Rightarrow> string \<Rightarrow> string \<Rightarrow> string \<Rightarrow> string option \<Rightarrow> string option \<Rightarrow> u32 option \<Rightarrow> string \<Rightarrow> string
      \<Rightarrow> i32 option \<Rightarrow> string option \<Rightarrow> worker_research_turn" where
  "new_worker_turn unix_ms session_id request_id capability path host port decision reason exit_status stdout_digest =
     \<lparr>wt_session_id = session_id, wt_request_id = request_id, wt_capability = capability, wt_path = path,
      wt_host = host, wt_port = port, wt_decision = decision, wt_reason = reason,
      wt_exit_status = exit_status, wt_stdout_digest = stdout_digest, wt_stored_unix_ms = unix_ms\<rparr>"

subsection \<open>Last writes\<close>

text \<open>What remains of a sequence when each element replaces the earlier ones with its key.\<close>

fun last_writes :: "('a \<Rightarrow> 'k) \<Rightarrow> 'a list \<Rightarrow> 'a list" where
  "last_writes key [] = []"
| "last_writes key (x # xs) = (if key x \<in> key ` set xs then last_writes key xs else x # last_writes key xs)"

lemma last_writes_keys: "key ` set (last_writes key xs) = key ` set xs"
  by (induction xs) auto

lemma last_writes_distinct: "distinct (map key (last_writes key xs))"
  by (induction xs) (simp_all add: last_writes_keys)

lemma last_writes_subset: "set (last_writes key xs) \<subseteq> set xs"
  by (induction xs) auto

lemma last_writes_snoc: "last_writes key (xs @ [x]) = filter (\<lambda>y. key y \<noteq> key x) (last_writes key xs) @ [x]"
  by (induction xs) auto

lemma last_writes_iff:
  "t \<in> set (last_writes key ts) \<longleftrightarrow> (\<exists>before after. ts = before @ t # after \<and> key t \<notin> key ` set after)"
proof (induction ts)
  case (Cons x xs)
  have "(\<exists>before after. x # xs = before @ t # after \<and> key t \<notin> key ` set after)
      \<longleftrightarrow> (x = t \<and> key t \<notin> key ` set xs) \<or> (\<exists>before after. xs = before @ t # after \<and> key t \<notin> key ` set after)"
    by (simp add: Cons_eq_append_conv) blast
  with Cons show ?case by auto
qed simp

lemma records_of_kind_put:
  "filter (\<lambda>((k, _), _). k = kind) (st_records (put_record kind i payload db)) =
     filter (\<lambda>((_, j), _). j \<noteq> i) (filter (\<lambda>((k, _), _). k = kind) (st_records db)) @ [((kind, i), payload)]"
  by (auto simp: put_record_def insert_or_replace_def intro!: filter_cong)

text \<open>The rows of the worker turns after a sequence of writes on a registry without turns.\<close>

definition turn_row :: "worker_research_turn codec \<Rightarrow> worker_research_turn \<Rightarrow> (string \<times> string) \<times> string" where
  "turn_row cd t = ((WORKER_TURN_KIND, turn_key t), projr (codec_to_string cd t))"

lemma turn_rows:
  assumes "res_fold (\<lambda>db t. put_worker_turn cd None t db) db ts = Inr db'"
    and "filter (\<lambda>((k, _), _). k = WORKER_TURN_KIND) (st_records db) = []"
  shows "filter (\<lambda>((k, _), _). k = WORKER_TURN_KIND) (st_records db') = map (turn_row cd) (last_writes turn_key ts)
    \<and> (\<forall>t \<in> set ts. is_ok (codec_to_string cd t))"
  using assms
proof (induction ts arbitrary: db' rule: rev_induct)
  case (snoc t ts)
  from snoc.prems(1) obtain db1 where
    1: "res_fold (\<lambda>db t. put_worker_turn cd None t db) db ts = Inr db1" and "put_worker_turn cd None t db1 = Inr db'"
    by (auto simp: res_fold_snoc res_simps)
  then obtain payload where
    p: "codec_to_string cd t = Inr payload" "db' = put_record WORKER_TURN_KIND (turn_key t) payload db1"
    by (auto simp: res_simps put_worker_turn_def registry_store_def)
  have "filter (\<lambda>((_, j), _). j \<noteq> turn_key t) (map (turn_row cd) us) = map (turn_row cd) (filter (\<lambda>u. turn_key u \<noteq> turn_key t) us)"
    for us by (induction us) (auto simp: turn_row_def)
  moreover have "turn_row cd t = ((WORKER_TURN_KIND, turn_key t), payload)" by (simp add: turn_row_def p)
  ultimately show ?case using snoc.IH[OF 1 snoc.prems(2)] p
    by (simp add: records_of_kind_put last_writes_snoc)
qed simp

lemma decode_turn_rows:
  assumes "codec_ok cd" "\<forall>t \<in> set ts. is_ok (codec_to_string cd t)"
  shows "res_map (\<lambda>(_, payload). codec_from_str cd payload) (map (\<lambda>((_, i), p). (i, p)) (map (turn_row cd) ts)) = Inr ts"
  using assms by (induction ts) (auto simp: turn_row_def codec_ok_def is_ok_iff)

lemma sort_key_map: "sort_key g (map f xs) = map f (sort_key (\<lambda>x. g (f x)) xs)"
proof -
  have "insort_key g (f x) (map f ys) = map f (insort_key (\<lambda>x. g (f x)) x ys)" for x ys
    by (induction ys) auto
  then show ?thesis by (induction xs) auto
qed

subsection \<open>Properties\<close>

text \<open>The audit list of the worker's turns: on a registry that held none, after any sequence of
  recorded turns the list is readable, ordered by time, and holds exactly one turn per session and
  request id, the last one recorded. A worker that reuses a request id therefore replaces its earlier
  turn.\<close>

theorem worker_turns_last_write:
  assumes "codec_ok cd" "filter (\<lambda>((k, _), _). k = WORKER_TURN_KIND) (st_records db) = []"
    and "res_fold (\<lambda>db t. put_worker_turn cd None t db) db turns = Inr db'"
  shows "\<exists>listed. list_worker_turns cd None db' = Inr listed
    \<and> sorted (map wt_stored_unix_ms listed) \<and> distinct (map turn_key listed)
    \<and> (\<forall>t. t \<in> set listed \<longleftrightarrow>
         (\<exists>before after. turns = before @ t # after \<and> turn_key t \<notin> turn_key ` set after))"
proof -
  let ?kept = "last_writes turn_key turns"
  note rows = turn_rows[OF assms(3,2)]
  have "\<forall>t \<in> set (sort_key turn_key ?kept). is_ok (codec_to_string cd t)"
    using rows last_writes_subset[of turn_key turns] by auto
  from decode_turn_rows[OF assms(1) this] rows
  have "list_worker_turns cd None db' = Inr (sort_key (\<lambda>t. unat (wt_stored_unix_ms t)) (sort_key turn_key ?kept))"
    by (simp add: list_worker_turns_def registry_store_def list_records_def sort_key_map comp_def turn_row_def)
  moreover have "sorted (map wt_stored_unix_ms (sort_key (\<lambda>t. unat (wt_stored_unix_ms t)) ts))" for ts
    using sorted_sort_key[of "\<lambda>t. unat (wt_stored_unix_ms t)" ts]
    by (simp add: sorted_wrt_map word_le_nat_alt)
  moreover have "distinct (map turn_key (sort_key (\<lambda>t. unat (wt_stored_unix_ms t)) (sort_key turn_key ?kept)))"
    using last_writes_distinct[of turn_key turns] by (simp add: distinct_map)
  ultimately show ?thesis using last_writes_iff[of _ turn_key turns] by (auto simp: set_sort)
qed

definition demo_turn :: "string \<Rightarrow> u64 \<Rightarrow> worker_research_turn" where
  "demo_turn decision ms = new_worker_turn ms ''s'' ''r1'' ''read_file'' None None None decision ''r'' None None"

text \<open>A codec for turns that differ in their decision only.\<close>

definition demo_turn_codec :: "u64 \<Rightarrow> worker_research_turn codec" where
  "demo_turn_codec ms =
     \<lparr>codec_to_string = (\<lambda>t. if t = demo_turn (wt_decision t) ms then Inr (wt_decision t) else Inl ''unsupported''),
      codec_from_str = (\<lambda>s. Inr (demo_turn s ms))\<rparr>"

theorem worker_turns_last_write_witness:
  "\<exists>db'. res_fold (\<lambda>db t. put_worker_turn (demo_turn_codec 5) None t db) store_empty [demo_turn ''DENY'' 5, demo_turn ''ALLOW'' 5]
      = Inr db' \<and> (\<exists>listed. list_worker_turns (demo_turn_codec 5) None db' = Inr listed \<and> demo_turn ''DENY'' 5 \<notin> set listed)"
proof -
  let ?turns = "[demo_turn ''DENY'' 5, demo_turn ''ALLOW'' 5]"
  have "is_ok (res_fold (\<lambda>db t. put_worker_turn (demo_turn_codec 5) None t db) store_empty ?turns)" by code_simp
  then obtain db' where db': "res_fold (\<lambda>db t. put_worker_turn (demo_turn_codec 5) None t db) store_empty ?turns = Inr db'"
    by (auto simp: is_ok_iff)
  have "codec_ok (demo_turn_codec 5)" by (auto simp: codec_ok_def demo_turn_codec_def split: if_splits)
  moreover have "filter (\<lambda>((k, _), _). k = WORKER_TURN_KIND) (st_records store_empty) = []" by (simp add: store_empty_def)
  ultimately obtain listed where l: "list_worker_turns (demo_turn_codec 5) None db' = Inr listed"
    "\<forall>t. t \<in> set listed \<longleftrightarrow> (\<exists>before after. ?turns = before @ t # after \<and> turn_key t \<notin> turn_key ` set after)"
    using worker_turns_last_write[OF _ _ db'] by blast
  have "turn_key (demo_turn ''DENY'' 5) = turn_key (demo_turn ''ALLOW'' 5)" "demo_turn ''DENY'' 5 \<noteq> demo_turn ''ALLOW'' 5"
    by code_simp+
  then have "demo_turn ''DENY'' 5 \<notin> set listed" unfolding l(2)[rule_format] by (auto simp: Cons_eq_append_conv)
  with db' l(1) show ?thesis by blast
qed

end
