(* ===== verification/Daemon.thy ===== *)
theory Daemon
  imports Lab Registry Ipc_Session
begin

text \<open>
  \<^verbatim>\<open>aros-api/src/main.rs\<close>: the daemon. Its state is what the handlers share behind their locks; the loop
  that serves the research worker is a total function on the bytes the worker has sent, and each HTTP
  handler is a function on the state. What happens outside per call (clock, host, fresh ids, the outcome
  of opening the registry, a panicking task) is an argument.
\<close>

subsection \<open>State\<close>

record 'net app_state =
  as_supervisor :: worker_supervisor
  as_intents_handled :: u64
  as_intents_executed :: u64
  as_lab :: "'net lab_runtime"
  as_registry :: store
  as_worker_session_id :: string
  as_daemon_token :: string

text \<open>Crates outside the model: CIDR membership, the display of a serializer error, the protobuf codec and
  the JSON codecs of the registry.\<close>

record ('net, 'e) daemon_env =
  dm_contains :: "'net \<Rightarrow> ip_addr \<Rightarrow> bool"
  dm_show_error :: "'e \<Rightarrow> string"
  dm_encode :: "envelope \<Rightarrow> bytes option"
  dm_decode :: "bytes \<Rightarrow> envelope option"
  dm_broker :: "'e broker_env"
  dm_turn_codec :: "worker_research_turn codec"
  dm_campaign_codec :: "campaign_record codec"

text \<open>What one request meets: the request id drawn for its intent, the call of the lab, the error of a
  task that panicked before it touched the lab, the error of opening the registry, and the time.\<close>

record turn_env =
  tv_request_id :: request_id
  tv_clock :: "nat \<Rightarrow> u64"
  tv_put :: "nat \<Rightarrow> put_faults \<times> string \<times> artifact_id"
  tv_world :: world
  tv_join :: "string option"
  tv_store :: "store_error option"
  tv_unix_ms :: u64

definition http_authorized :: "string option \<Rightarrow> 'net app_state \<Rightarrow> bool" where
  "http_authorized authorization app = bearer_authorized authorization (as_daemon_token app)"

datatype 'a reply = Json 'a | Api_Error nat string

definition unauthorized :: "'a reply" where
  "unauthorized = Api_Error 401 ''missing or invalid bearer token''"

subsection \<open>Intents\<close>

definition intent_from_msg :: "request_id \<Rightarrow> tool_intent_msg \<Rightarrow> string + tool_intent" where
  "intent_from_msg rid message =
     res_bind (ok_or (capability_from_str (tm_capability message))
                 (''unknown capability '' @ debug_str (tm_capability message))) (\<lambda>capability.
       with_network (tm_host message) (tm_port message) (tm_protocol message)
         ((tool_intent_new rid capability)\<lparr>ti_argv := tm_argv message, ti_cwd := tm_cwd message,
            ti_path := tm_path message,
            ti_timeout_ms := (if tm_timeout_ms message = 0 then 30000 else tm_timeout_ms message),
            ti_http_target := tm_http_target message, ti_http_cookie := tm_http_cookie message\<rparr>))"

definition run_lab ::
    "('net, 'e) daemon_env \<Rightarrow> turn_env \<Rightarrow> tool_intent \<Rightarrow> 'net lab_runtime \<Rightarrow> tool_intent_response \<times> 'net lab_runtime" where
  "run_lab D tv intent lab =
     (case tv_join tv of
        Some e \<Rightarrow> (deny_response (''join error: '' @ e), lab)
      | None \<Rightarrow> lab_execute (dm_contains D) (dm_show_error D)
                  ((dm_broker D)\<lparr>be_clock := tv_clock tv, be_put := tv_put tv\<rparr>) (tv_world tv) intent lab)"

definition to_intent_result :: "tool_intent_response \<Rightarrow> intent_result" where
  "to_intent_result r =
     \<lparr>ir_decision = rs_decision r, ir_reason = rs_reason r, ir_exit_status = rs_exit_status r,
      ir_stdout_digest = rs_stdout_digest r\<rparr>"

definition execute_message ::
    "('net, 'e) daemon_env \<Rightarrow> turn_env \<Rightarrow> tool_intent_msg \<Rightarrow> 'net lab_runtime \<Rightarrow> intent_result \<times> 'net lab_runtime" where
  "execute_message D tv message lab =
     (case intent_from_msg (tv_request_id tv) message of
        Inl reason \<Rightarrow> (to_intent_result (deny_response reason), lab)
      | Inr intent \<Rightarrow> (case run_lab D tv intent lab of (r, lab') \<Rightarrow> (to_intent_result r, lab')))"

subsection \<open>The worker loop\<close>

definition record_turn ::
    "('net, 'e) daemon_env \<Rightarrow> turn_env \<Rightarrow> string \<Rightarrow> tool_intent_msg \<Rightarrow> intent_result \<Rightarrow> 'net app_state \<Rightarrow> 'net app_state" where
  "record_turn D tv request_id message result app =
     (case put_worker_turn (dm_turn_codec D) (tv_store tv)
             (new_worker_turn (tv_unix_ms tv) (as_worker_session_id app) request_id (tm_capability message)
                (tm_path message) (tm_host message) (tm_port message) (ir_decision result) (ir_reason result)
                (ir_exit_status result) (ir_stdout_digest result)) (as_registry app) of
        Inl _ \<Rightarrow> app
      | Inr db \<Rightarrow> app\<lparr>as_registry := db\<rparr>)"

definition count_executed :: "string \<Rightarrow> string option \<Rightarrow> 'net app_state \<Rightarrow> 'net app_state" where
  "count_executed decision digest app =
     (if decision = ''ALLOW'' \<and> digest \<noteq> None
      then app\<lparr>as_intents_executed := as_intents_executed app + 1\<rparr> else app)"

definition count_handled :: "'net app_state \<Rightarrow> 'net app_state" where
  "count_handled app = app\<lparr>as_intents_handled := as_intents_handled app + 1\<rparr>"

definition intent_reply :: "string \<Rightarrow> intent_result \<Rightarrow> envelope" where
  "intent_reply request_id result =
     \<lparr>en_protocol_version = PROTOCOL_VERSION, en_request_id = request_id, en_kind = Some (IntentResult result)\<rparr>"

text \<open>One tool intent of the worker: execute, record, count, reply. The state before the reply is
  separate, for the proofs.\<close>

definition answer_intent ::
    "('net, 'e) daemon_env \<Rightarrow> turn_env \<Rightarrow> string \<Rightarrow> tool_intent_msg \<Rightarrow> 'net app_state \<Rightarrow> intent_result \<times> 'net app_state" where
  "answer_intent D tv request_id message app =
     (case execute_message D tv message (as_lab app) of
        (result, lab) \<Rightarrow>
          (result, count_executed (ir_decision result) (ir_stdout_digest result)
                     (record_turn D tv request_id message result (app\<lparr>as_lab := lab\<rparr>))))"

datatype loop_stop = Read_Failed session_error | Write_Failed session_error | Worker_Shutdown string

text \<open>The body of the loop after a read: \<open>Some\<close> is a break.\<close>

definition worker_turn ::
    "('net, 'e) daemon_env \<Rightarrow> turn_env \<Rightarrow> envelope \<Rightarrow> 'net app_state \<Rightarrow> loop_stop option \<times> 'net app_state" where
  "worker_turn D tv env app =
     (case en_kind env of
        Some (ToolIntent message) \<Rightarrow>
          (case answer_intent D tv (en_request_id env) message app of
             (result, app1) \<Rightarrow>
               (case write_next (dm_encode D) (intent_reply (en_request_id env) result) (as_supervisor app1) of
                  (Inl e, sv) \<Rightarrow> (Some (Write_Failed e), app1\<lparr>as_supervisor := sv\<rparr>)
                | (Inr _, sv) \<Rightarrow> (None, count_handled (app1\<lparr>as_supervisor := sv\<rparr>))))
      | Some (Shutdown s) \<Rightarrow> (Some (Worker_Shutdown (sd_reason s)), app)
      | _ \<Rightarrow> (None, app))"

definition unread :: "worker_supervisor \<Rightarrow> nat" where
  "unread sv = (case ws_stream sv of None \<Rightarrow> 0 | Some s \<Rightarrow> length (st_in s))"

lemma read_next_unread: "read_next dec sv = (Inr env, sv') \<Longrightarrow> unread sv' < unread sv"
  by (auto simp: read_next_def unread_def res_simps read_envelope_Inr split: option.splits prod.splits)

lemma write_next_unread: "write_next enc env sv = (r, sv') \<Longrightarrow> unread sv' = unread sv"
  by (auto simp: write_next_def unread_def dest: write_envelope_in split: option.splits prod.splits)

lemma record_turn_fields [simp]:
  "as_supervisor (record_turn D tv i m r app) = as_supervisor app" "as_lab (record_turn D tv i m r app) = as_lab app"
  "as_intents_handled (record_turn D tv i m r app) = as_intents_handled app"
  "as_intents_executed (record_turn D tv i m r app) = as_intents_executed app"
  "as_daemon_token (record_turn D tv i m r app) = as_daemon_token app"
  "as_worker_session_id (record_turn D tv i m r app) = as_worker_session_id app"
  by (simp_all add: record_turn_def split: sum.splits)

lemma count_fields [simp]:
  "as_supervisor (count_executed d g app) = as_supervisor app" "as_lab (count_executed d g app) = as_lab app"
  "as_intents_handled (count_executed d g app) = as_intents_handled app"
  "as_daemon_token (count_executed d g app) = as_daemon_token app"
  "as_worker_session_id (count_executed d g app) = as_worker_session_id app"
  "as_registry (count_executed d g app) = as_registry app"
  "as_supervisor (count_handled app) = as_supervisor app" "as_lab (count_handled app) = as_lab app"
  "as_daemon_token (count_handled app) = as_daemon_token app"
  "as_intents_handled (count_handled app) = as_intents_handled app + 1"
  by (simp_all add: count_executed_def count_handled_def)

lemma answer_intent_fields:
  assumes "answer_intent D tv request_id message app = (result, app')"
  shows "as_supervisor app' = as_supervisor app" "as_daemon_token app' = as_daemon_token app"
    "as_intents_handled app' = as_intents_handled app"
    "execute_message D tv message (as_lab app) = (result, as_lab app')"
  using assms by (auto simp: answer_intent_def split: prod.splits)

lemma worker_turn_unread:
  "worker_turn D tv env app = (stop, app') \<Longrightarrow> unread (as_supervisor app') = unread (as_supervisor app)"
  by (auto simp: worker_turn_def dest!: write_next_unread answer_intent_fields(1)
      split: option.splits kind.splits prod.splits sum.splits)

text \<open>The loop of \<^verbatim>\<open>handle_worker_intents\<close>; \<open>tvs n\<close> is what its \<open>n\<close>-th round meets. It ends because every
  round consumes a frame.\<close>

function handle_worker_intents ::
    "('net, 'e) daemon_env \<Rightarrow> (nat \<Rightarrow> turn_env) \<Rightarrow> nat \<Rightarrow> 'net app_state \<Rightarrow> loop_stop \<times> 'net app_state" where
  "handle_worker_intents D tvs n app =
     (case read_next (dm_decode D) (as_supervisor app) of
        (Inl e, sv) \<Rightarrow> (Read_Failed e, app\<lparr>as_supervisor := sv\<rparr>)
      | (Inr env, sv) \<Rightarrow>
          (case worker_turn D (tvs n) env (app\<lparr>as_supervisor := sv\<rparr>) of
             (Some stop, app') \<Rightarrow> (stop, app')
           | (None, app') \<Rightarrow> handle_worker_intents D tvs (Suc n) app'))"
  by pat_completeness auto

termination
  by (relation "measure (\<lambda>(D, tvs, n, app). unread (as_supervisor app))")
    (auto dest!: read_next_unread[OF sym] worker_turn_unread[OF sym])

declare handle_worker_intents.simps [simp del]

subsection \<open>HTTP handlers\<close>

definition tool_intent_handler ::
    "('net, 'e) daemon_env \<Rightarrow> turn_env \<Rightarrow> string option \<Rightarrow> tool_intent_request \<Rightarrow> 'net app_state
      \<Rightarrow> tool_intent_response reply \<times> 'net app_state" where
  "tool_intent_handler D tv authorization request app =
     (if \<not> http_authorized authorization app then (unauthorized, app)
      else (case intent_from_request (tv_request_id tv) request of
              Inl reason \<Rightarrow> (Json (deny_response reason), app)
            | Inr intent \<Rightarrow>
                (case run_lab D tv intent (as_lab app) of
                   (response, lab) \<Rightarrow>
                     (Json response,
                      count_handled (count_executed (rs_decision response) (rs_stdout_digest response)
                        (app\<lparr>as_lab := lab\<rparr>))))))"

text \<open>\<open>outcome\<close> is what the blocking task gave: the error of a panicking task, or the campaign's result.\<close>

definition fixture_campaign_handler ::
    "('net, 'e) daemon_env \<Rightarrow> turn_env \<Rightarrow> string option \<Rightarrow> string + (string + fixture_campaign_response)
      \<Rightarrow> 'net app_state \<Rightarrow> fixture_campaign_response reply \<times> 'net app_state" where
  "fixture_campaign_handler D tv authorization outcome app =
     (if \<not> http_authorized authorization app then (unauthorized, app)
      else (case outcome of
              Inl e \<Rightarrow> (Api_Error 500 (''join error: '' @ e), app)
            | Inr (Inl e) \<Rightarrow> (Api_Error 422 e, app)
            | Inr (Inr response) \<Rightarrow>
                (Json response,
                 case registry_put (dm_campaign_codec D) (tv_store tv) (tv_unix_ms tv) response (as_registry app) of
                   Inl _ \<Rightarrow> app
                 | Inr db \<Rightarrow> app\<lparr>as_registry := db\<rparr>)))"

definition json_or :: "nat \<Rightarrow> string + 'a \<Rightarrow> 'a reply" where
  "json_or status r = (case r of Inr x \<Rightarrow> Json x | Inl e \<Rightarrow> Api_Error status e)"

definition get_campaign_handler ::
    "('net, 'e) daemon_env \<Rightarrow> turn_env \<Rightarrow> string option \<Rightarrow> string \<Rightarrow> 'net app_state \<Rightarrow> campaign_record reply" where
  "get_campaign_handler D tv authorization i app =
     (if \<not> http_authorized authorization app then unauthorized
      else json_or 404 (registry_get (dm_campaign_codec D) (tv_store tv) i (as_registry app)))"

definition list_campaigns_handler ::
    "('net, 'e) daemon_env \<Rightarrow> turn_env \<Rightarrow> string option \<Rightarrow> 'net app_state \<Rightarrow> campaign_record list reply" where
  "list_campaigns_handler D tv authorization app =
     (if \<not> http_authorized authorization app then unauthorized
      else json_or 500 (registry_list (dm_campaign_codec D) (tv_store tv) (as_registry app)))"

definition list_worker_turns_handler ::
    "('net, 'e) daemon_env \<Rightarrow> turn_env \<Rightarrow> string option \<Rightarrow> 'net app_state \<Rightarrow> worker_research_turn list reply" where
  "list_worker_turns_handler D tv authorization app =
     (if \<not> http_authorized authorization app then unauthorized
      else json_or 500 (list_worker_turns (dm_turn_codec D) (tv_store tv) (as_registry app)))"

record health =
  hl_service :: string
  hl_product :: string
  hl_version :: string
  hl_python_embedded :: bool
  hl_worker_alive :: bool
  hl_ipc :: string
  hl_intents_handled :: u64
  hl_intents_executed :: u64
  hl_cas_root :: string
  hl_lab_root :: string
  hl_campaigns_stored :: u64

definition health_handler :: "('net, 'e) daemon_env \<Rightarrow> turn_env \<Rightarrow> string \<Rightarrow> 'net app_state \<Rightarrow> health" where
  "health_handler D tv version app =
     \<lparr>hl_service = ''arosd'', hl_product = ''AROS'', hl_version = version, hl_python_embedded = False,
      hl_worker_alive = worker_alive (as_supervisor app), hl_ipc = ws_listener_addr (as_supervisor app),
      hl_intents_handled = as_intents_handled app, hl_intents_executed = as_intents_executed app,
      hl_cas_root = cas_root (lab_cas (as_lab app)),
      hl_lab_root = (case am_allowed_filesystem_roots (lab_manifest_of (as_lab app)) of [] \<Rightarrow> [] | r # _ \<Rightarrow> r),
      hl_campaigns_stored =
        (case registry_list (dm_campaign_codec D) (tv_store tv) (as_registry app) of
           Inl _ \<Rightarrow> 0 | Inr records \<Rightarrow> of_nat (length records))\<rparr>"

subsection \<open>Startup\<close>

text \<open>The worker is launched in a container when an image is configured, on the host only under an explicit
  waiver, and otherwise not at all. The result says whether the loop is started.\<close>

definition spawn_research_worker ::
    "('net, 'e) daemon_env \<Rightarrow> (string \<Rightarrow> string option) \<Rightarrow> host_view \<Rightarrow> string \<Rightarrow> session_error + ipc_stream \<Rightarrow> bool
      \<Rightarrow> string \<Rightarrow> 'net app_state \<Rightarrow> bool \<times> 'net app_state" where
  "spawn_research_worker D env_var hv version accepted timed_out pythonpath app =
     (let sv = as_supervisor app;
          allow_uncontained =
            (case env_var (env_name ''ALLOW_UNCONTAINED_WORKER'') of
               None \<Rightarrow> False | Some v \<Rightarrow> v = ''1'' \<or> to_ascii_lowercase v = ''true'');
          launched =
            (case env_var (env_name ''WORKER_CONTAINER_IMAGE'') of
               Some img \<Rightarrow>
                 Some (spawn_python_containerized hv
                         (unwrap_or ''podman'' (env_var (env_name ''PODMAN''))) img sv)
             | None \<Rightarrow>
                 if allow_uncontained then
                   Some (spawn_python_uncontained (hv_spawn hv)
                           (unwrap_or ''python3'' (env_var (env_name ''PYTHON''))) [] pythonpath sv)
                 else None)
      in case launched of
           None \<Rightarrow> (False, app)
         | Some (Inl _, sv1) \<Rightarrow> (False, app\<lparr>as_supervisor := sv1\<rparr>)
         | Some (Inr _, sv1) \<Rightarrow>
             (case accept_hello (dm_encode D) (dm_decode D) version accepted timed_out sv1 of
                (r, sv2) \<Rightarrow> (is_ok r, app\<lparr>as_supervisor := sv2\<rparr>)))"

text \<open>The part of \<^verbatim>\<open>main\<close> that builds the state; a failed \<^verbatim>\<open>expect\<close> or \<^verbatim>\<open>assert\<close> is an error value. \<open>bound\<close> is the
  outcome of binding the worker socket.\<close>

definition start_daemon ::
    "(string \<Rightarrow> string option) \<Rightarrow> (string \<Rightarrow> string + 'net lab_runtime) \<Rightarrow> (string \<Rightarrow> string + string)
      \<Rightarrow> (string \<Rightarrow> session_error + worker_supervisor) \<Rightarrow> store \<Rightarrow> string \<Rightarrow> string + 'net app_state" where
  "start_daemon env_var open_lab open_registry bind db session_id =
     res_bind (ok_or (env_var (env_name ''DAEMON_TOKEN'')) ''daemon bearer token is required'') (\<lambda>daemon_token.
       if length (as_bytes daemon_token) < 32 then
         Inl ''daemon bearer token must contain at least 32 characters''
       else
         let data_root = unwrap_or ''.aros-data'' (env_var (env_name ''DATA_ROOT''))
         in res_bind (map_err (\<lambda>e. ''open fail-closed lab runtime: '' @ debug_str e) (open_lab data_root)) (\<lambda>lab.
            res_bind (map_err (\<lambda>e. ''open campaign registry: '' @ debug_str e) (open_registry data_root)) (\<lambda>_.
            res_bind (map_err (\<lambda>_. ''bind production worker Unix socket'')
                        (bind (path_join data_root ''run/worker.sock''))) (\<lambda>supervisor.
              Inr \<lparr>as_supervisor = supervisor, as_intents_handled = 0, as_intents_executed = 0, as_lab = lab,
                   as_registry = db, as_worker_session_id = session_id, as_daemon_token = daemon_token\<rparr>))))"

subsection \<open>Runs\<close>

text \<open>Every interleaving of the worker loop, one round at a time, with the handlers that change the state
  and with the start of the worker.\<close>

inductive daemon_step :: "('net, 'e) daemon_env \<Rightarrow> 'net app_state \<Rightarrow> 'net app_state \<Rightarrow> bool" for D where
  worker_read: "read_next (dm_decode D) (as_supervisor app) = (r, sv) \<Longrightarrow> daemon_step D app (app\<lparr>as_supervisor := sv\<rparr>)"
| worker_round: "worker_turn D tv env app = (stop, app') \<Longrightarrow> daemon_step D app app'"
| http_intent: "tool_intent_handler D tv authorization request app = (rep, app') \<Longrightarrow> daemon_step D app app'"
| http_campaign: "fixture_campaign_handler D tv authorization outcome app = (rep', app') \<Longrightarrow> daemon_step D app app'"
| worker_start: "spawn_research_worker D env_var hv version accepted timed_out pythonpath app = (b, app')
    \<Longrightarrow> daemon_step D app app'"

inductive_cases daemon_stepE: "daemon_step D app app'"

inductive daemon_run :: "('net, 'e) daemon_env \<Rightarrow> 'net app_state \<Rightarrow> 'net app_state \<Rightarrow> bool" for D app0 where
  started: "daemon_run D app0 app0"
| stepped: "daemon_run D app0 app \<Longrightarrow> daemon_step D app app' \<Longrightarrow> daemon_run D app0 app'"

text \<open>What every run keeps: sound evidence under the manifest, the sandbox and the token it started with.\<close>

definition daemon_inv :: "('net, 'e) daemon_env \<Rightarrow> 'net app_state \<Rightarrow> 'net app_state \<Rightarrow> bool" where
  "daemon_inv D app0 app \<longleftrightarrow> lab_sound (be_ledger_env (dm_broker D)) (as_lab app)
     \<and> lab_manifest_of (as_lab app) = lab_manifest_of (as_lab app0)
     \<and> lab_sandbox (as_lab app) = lab_sandbox (as_lab app0) \<and> lab_cas (as_lab app) = lab_cas (as_lab app0)
     \<and> prefix (entries (bs_ledger (lab_state (as_lab app0)))) (entries (bs_ledger (lab_state (as_lab app))))
     \<and> as_daemon_token app = as_daemon_token app0"

subsection \<open>The loop answers\<close>

lemma read_envelope_cong:
  assumes "st_in s = st_in t"
  shows "fst (read_envelope dec s m) = fst (read_envelope dec t m)
    \<and> st_in (snd (read_envelope dec s m)) = st_in (snd (read_envelope dec t m))"
  using assms by (auto simp: read_envelope_def read_exact_def Let_def split: sum.splits)

lemma receive_cong: "st_in s = st_in t \<Longrightarrow> receive dec m n s = receive dec m n t"
proof (induction n arbitrary: s t)
  case (Suc n)
  obtain r s' r' t' where "read_envelope dec s m = (r, s')" "read_envelope dec t m = (r', t')" by fastforce
  with read_envelope_cong[OF Suc.prems, of dec m] Suc.IH[of s' t'] show ?case by (auto split: sum.splits)
qed simp

lemma receive_Suc:
  assumes "read_envelope dec s m = (Inr env, s0)" "st_in s1 = st_in s0"
  shows "receive dec m (Suc n) s = (env # fst (receive dec m n s1), snd (receive dec m n s1))"
  using assms(1) receive_cong[OF assms(2), of dec m n] by (simp split: prod.splits)

lemma write_all_Inr: "write_all bs s = (Inr u, s') \<Longrightarrow> st_out s' = st_out s @ bs"
  using write_all_out[of bs s] by auto

lemma write_all_extends: "write_all bs s = (r, s') \<Longrightarrow> prefix (st_out s) (st_out s')"
  using write_all_out[of bs s] by auto

lemma write_envelope_Inr:
  assumes "write_envelope enc s env m = (Inr u, s')"
  shows "\<exists>buf. enc env = Some buf \<and> st_out s' = st_out s @ frame buf"
proof -
  from assms obtain buf where buf: "enc env = Some buf" by (auto simp: write_envelope_def split: option.splits)
  obtain r1 s1 r2 s2 where w: "write_all (put_u32 (of_nat (length buf))) s = (r1, s1)" "write_all buf s1 = (r2, s2)"
    by fastforce
  with assms buf obtain u1 u2 where "r1 = Inr u1" "r2 = Inr u2" "s' = s2"
    by (auto simp: write_envelope_def Let_def split: if_splits sum.splits)
  with w buf show ?thesis by (auto simp: frame_def dest!: write_all_Inr)
qed

lemma write_envelope_extends:
  assumes "write_envelope enc s env m = (r, s')"
  shows "prefix (st_out s) (st_out s')"
proof (cases "enc env")
  case (Some buf)
  obtain r1 s1 r2 s2 where w: "write_all (put_u32 (of_nat (length buf))) s = (r1, s1)" "write_all buf s1 = (r2, s2)"
    by fastforce
  from w(1) have 1: "prefix (st_out s) (st_out s1)" by (rule write_all_extends)
  moreover from w(2) have "prefix (st_out s1) (st_out s2)" by (rule write_all_extends)
  ultimately have 2: "prefix (st_out s) (st_out s2)" by (rule prefix_order.trans)
  have "s' = s \<or> s' = s1 \<or> s' = s2"
    using assms Some w by (auto simp: write_envelope_def Let_def split: if_splits sum.splits)
  with 1 2 show ?thesis by auto
qed (use assms in \<open>simp add: write_envelope_def\<close>)

definition is_tool_intent :: "envelope \<Rightarrow> bool" where
  "is_tool_intent env = (case en_kind env of Some (ToolIntent _) \<Rightarrow> True | _ \<Rightarrow> False)"

definition is_shutdown :: "envelope \<Rightarrow> bool" where
  "is_shutdown env = (case en_kind env of Some (Shutdown _) \<Rightarrow> True | _ \<Rightarrow> False)"

text \<open>The ids of the tool intents among some envelopes, in order.\<close>

definition requests :: "envelope list \<Rightarrow> string list" where
  "requests envs = map en_request_id (filter is_tool_intent envs)"

text \<open>The frames of some replies.\<close>

definition reply_frames :: "(envelope \<Rightarrow> bytes option) \<Rightarrow> (string \<times> intent_result) list \<Rightarrow> bytes" where
  "reply_frames enc replies = concat (map (\<lambda>(i, r). frame (the (enc (intent_reply i r)))) replies)"

text \<open>What the loop did from stream \<open>s\<close>: it consumed \<open>envs\<close>, wrote \<open>replies\<close> and stopped for a reason that
  is visible in both.\<close>

definition served ::
    "(envelope \<Rightarrow> bytes option) \<Rightarrow> (bytes \<Rightarrow> envelope option) \<Rightarrow> ipc_stream \<Rightarrow> loop_stop \<Rightarrow> ipc_stream \<Rightarrow> envelope list
      \<Rightarrow> (string \<times> intent_result) list \<Rightarrow> bool" where
  "served enc dec s stop s' envs replies \<longleftrightarrow>
     fst (receive dec default_max_frame (length envs) s) = envs
     \<and> (case stop of
          Read_Failed e \<Rightarrow> (\<exists>ie. e = SX_Ipc ie
              \<and> receive dec default_max_frame (Suc (length envs)) s = (envs, Some ie))
            \<and> map fst replies = requests envs \<and> st_out s' = st_out s @ reply_frames enc replies
        | Worker_Shutdown _ \<Rightarrow> envs \<noteq> [] \<and> is_shutdown (last envs)
            \<and> map fst replies = requests envs \<and> st_out s' = st_out s @ reply_frames enc replies
        | Write_Failed _ \<Rightarrow> (\<exists>i. map fst replies @ [i] = requests envs)
            \<and> prefix (st_out s @ reply_frames enc replies) (st_out s'))"

lemma served_Nil: "read_envelope dec s default_max_frame = (Inl ie, s') \<Longrightarrow> st_out s'' = st_out s
    \<Longrightarrow> served enc dec s (Read_Failed (SX_Ipc ie)) s'' [] []"
  by (simp add: served_def requests_def reply_frames_def)

lemma served_skip:
  assumes "served enc dec s1 stop s' envs replies" "read_envelope dec s default_max_frame = (Inr env, s0)"
    and "\<not> is_tool_intent env" "st_in s1 = st_in s0" "st_out s1 = st_out s"
  shows "served enc dec s stop s' (env # envs) replies"
  using assms
  by (cases stop) (auto simp: served_def requests_def receive_Suc[OF assms(2,4)] simp del: receive.simps)

lemma served_reply:
  assumes "served enc dec s1 stop s' envs replies" "read_envelope dec s default_max_frame = (Inr env, s0)"
    and "is_tool_intent env" "st_in s1 = st_in s0" "enc (intent_reply (en_request_id env) r) = Some buf"
    and "st_out s1 = st_out s @ frame buf"
  shows "served enc dec s stop s' (env # envs) ((en_request_id env, r) # replies)"
  using assms
  by (cases stop)
    (auto simp: served_def requests_def reply_frames_def receive_Suc[OF assms(2,4)] simp del: receive.simps)

lemma read_envelope_out: "st_out (snd (read_envelope dec s m)) = st_out s"
  by (auto simp: read_envelope_def read_exact_def Let_def split: sum.splits)

text \<open>One round of the loop from a stream on which a frame can be read.\<close>

lemma worker_turn_cases:
  assumes turn: "worker_turn D tv env app = (stop, app')" and s: "ws_stream (as_supervisor app) = Some s"
  obtains (replied) r buf s' where "is_tool_intent env" "stop = None" "ws_stream (as_supervisor app') = Some s'"
      "dm_encode D (intent_reply (en_request_id env) r) = Some buf" "st_in s' = st_in s" "st_out s' = st_out s @ frame buf"
      "as_intents_handled app' = as_intents_handled app + 1"
  | (broken) e s' where "is_tool_intent env" "stop = Some (Write_Failed e)" "ws_stream (as_supervisor app') = Some s'"
      "prefix (st_out s) (st_out s')" "as_intents_handled app' = as_intents_handled app"
  | (down) reason where "is_shutdown env" "stop = Some (Worker_Shutdown reason)" "app' = app"
  | (ignored) "\<not> is_tool_intent env" "stop = None" "app' = app"
proof (cases "\<exists>m. en_kind env = Some (ToolIntent m)")
  case True
  then obtain m where m: "en_kind env = Some (ToolIntent m)" by blast
  then have tool: "is_tool_intent env" by (simp add: is_tool_intent_def)
  obtain result app1 where a: "answer_intent D tv (en_request_id env) m app = (result, app1)" by fastforce
  note f = answer_intent_fields[OF a]
  obtain r s' where w: "write_envelope (dm_encode D) s (intent_reply (en_request_id env) result) default_max_frame = (r, s')"
    by fastforce
  then have n: "write_next (dm_encode D) (intent_reply (en_request_id env) result) (as_supervisor app1)
      = (map_err SX_Ipc r, (as_supervisor app)\<lparr>ws_stream := Some s'\<rparr>)" using s f(1) by (simp add: write_next_def)
  show thesis
  proof (cases r)
    case (Inl e)
    with turn m a n f have "stop = Some (Write_Failed (SX_Ipc e))"
      "app' = app1\<lparr>as_supervisor := (as_supervisor app)\<lparr>ws_stream := Some s'\<rparr>\<rparr>" by (auto simp: worker_turn_def)
    with tool f write_envelope_extends[OF w] show thesis by (intro broken[of "SX_Ipc e" s']) auto
  next
    case (Inr u)
    with turn m a n f have "stop = None"
      "app' = count_handled (app1\<lparr>as_supervisor := (as_supervisor app)\<lparr>ws_stream := Some s'\<rparr>\<rparr>)"
      by (auto simp: worker_turn_def)
    moreover obtain buf where "dm_encode D (intent_reply (en_request_id env) result) = Some buf"
      "st_out s' = st_out s @ frame buf" using write_envelope_Inr w Inr by blast
    ultimately show thesis using tool f write_envelope_in[OF w] by (intro replied[of s' result buf]) auto
  qed
next
  case False
  with turn show thesis
    by (auto simp: worker_turn_def is_shutdown_def is_tool_intent_def split: option.splits kind.splits
        intro: down ignored)
qed

lemma read_next_Some:
  "ws_stream sv = Some s \<Longrightarrow> read_envelope dec s default_max_frame = (r, s0)
    \<Longrightarrow> read_next dec sv = (map_err SX_Ipc r, sv\<lparr>ws_stream := Some s0\<rparr>)"
  by (simp add: read_next_def)

lemma handle_serves:
  assumes "handle_worker_intents D tvs n app = (stop, app')" "ws_stream (as_supervisor app) = Some s"
  shows "\<exists>s' envs replies. ws_stream (as_supervisor app') = Some s'
    \<and> served (dm_encode D) (dm_decode D) s stop s' envs replies
    \<and> as_intents_handled app' = as_intents_handled app + of_nat (length replies)"
  using assms
proof (induction D tvs n app arbitrary: s rule: handle_worker_intents.induct)
  case (1 D tvs n app)
  obtain r s0 where read: "read_envelope (dm_decode D) s default_max_frame = (r, s0)" by fastforce
  note next' = read_next_Some[OF 1(3) read]
  have out: "st_out s0 = st_out s" using read_envelope_out[of "dm_decode D" s default_max_frame] read by simp
  let ?sv = "(as_supervisor app)\<lparr>ws_stream := Some s0\<rparr>"
  show ?case
  proof (cases r)
    case (Inl ie)
    with 1(2) next' have "stop = Read_Failed (SX_Ipc ie)" "app' = app\<lparr>as_supervisor := ?sv\<rparr>"
      by (auto simp: handle_worker_intents.simps[of D tvs n app])
    with served_Nil[of "dm_decode D" s ie s0 s0 "dm_encode D"] read Inl out show ?thesis by fastforce
  next
    case (Inr env)
    obtain st app2 where turn: "worker_turn D (tvs n) env (app\<lparr>as_supervisor := ?sv\<rparr>) = (st, app2)" by fastforce
    have readi: "read_envelope (dm_decode D) s default_max_frame = (Inr env, s0)" using read Inr by simp
    have unfolded: "(stop, app') = (case st of Some x \<Rightarrow> (x, app2) | None \<Rightarrow> handle_worker_intents D tvs (Suc n) app2)"
      using 1(2) next' Inr turn by (simp add: handle_worker_intents.simps[of D tvs n app] split: option.splits)
    have IH: "\<exists>s' envs replies. ws_stream (as_supervisor app') = Some s'
        \<and> served (dm_encode D) (dm_decode D) s2 stop s' envs replies
        \<and> as_intents_handled app' = as_intents_handled app2 + of_nat (length replies)"
      if "st = None" "ws_stream (as_supervisor app2) = Some s2" for s2
      using 1(1)[OF next'[symmetric] _ turn[symmetric], of s2] Inr that unfolded by simp
    have "ws_stream (as_supervisor (app\<lparr>as_supervisor := ?sv\<rparr>)) = Some s0" by simp
    with turn show ?thesis
    proof (cases rule: worker_turn_cases)
      case (replied rr buf s2)
      from IH[OF replied(2,3)] obtain s' envs replies where "ws_stream (as_supervisor app') = Some s'"
        "served (dm_encode D) (dm_decode D) s2 stop s' envs replies"
        "as_intents_handled app' = as_intents_handled app2 + of_nat (length replies)" by blast
      moreover from served_reply[OF this(2) readi replied(1,5,4)] replied(6) out
      have "served (dm_encode D) (dm_decode D) s stop s' (env # envs) ((en_request_id env, rr) # replies)" by simp
      ultimately show ?thesis using replied(7)
        by (intro exI[of _ s'] exI[of _ "env # envs"] exI[of _ "(en_request_id env, rr) # replies"]) simp
    next
      case (broken e s2)
      then have "served (dm_encode D) (dm_decode D) s stop s2 [env] []"
        using unfolded out readi by (simp add: served_def requests_def reply_frames_def)
      with broken unfolded show ?thesis by fastforce
    next
      case (down reason)
      then have "served (dm_encode D) (dm_decode D) s stop s0 [env] []"
        using unfolded out readi
        by (auto simp: served_def requests_def reply_frames_def is_shutdown_def is_tool_intent_def
            split: option.splits kind.splits)
      with down unfolded show ?thesis by fastforce
    next
      case ignored
      with IH[of s0] obtain s' envs replies where "ws_stream (as_supervisor app') = Some s'"
        "served (dm_encode D) (dm_decode D) s0 stop s' envs replies"
        "as_intents_handled app' = as_intents_handled app2 + of_nat (length replies)" by auto
      with served_skip[OF this(2) readi ignored(1) refl out] ignored show ?thesis by fastforce
    qed
  qed
qed

subsection \<open>Invariants\<close>

lemma run_lab_facts:
  assumes "run_lab D tv intent lab = (r, lab')"
    and sound: "lab_sound (be_ledger_env (dm_broker D)) lab"
    and hex: "\<And>bs. hex_digest (env_blake3_hex (be_ledger_env (dm_broker D)) bs)"
  shows "lab_sound (be_ledger_env (dm_broker D)) lab' \<and> lab_manifest_of lab' = lab_manifest_of lab
    \<and> lab_sandbox lab' = lab_sandbox lab \<and> lab_cas lab' = lab_cas lab
    \<and> prefix (entries (bs_ledger (lab_state lab))) (entries (bs_ledger (lab_state lab')))"
proof (cases "tv_join tv")
  case (Some e)
  with assms show ?thesis by (auto simp: run_lab_def)
next
  case None
  let ?env = "(dm_broker D)\<lparr>be_clock := tv_clock tv, be_put := tv_put tv\<rparr>"
  from None assms(1) have x: "lab_execute (dm_contains D) (dm_show_error D) ?env (tv_world tv) intent lab = (r, lab')"
    by (simp add: run_lab_def)
  have ok: "ledger_verify (be_ledger_env ?env) (bs_ledger (lab_state lab)) = Inr ()"
    "cas_ok (env_blake3_hex (be_ledger_env ?env)) (br_cas (lab_broker lab)) (bs_files (lab_state lab))"
    "hex_digest (env_blake3_hex (be_ledger_env ?env) bs)" for bs
    using sound hex by (simp_all add: lab_sound_def lab_broker_def)
  note f = lab_execute_fields[OF x]
  from execute_keeps_evidence[OF ok prod.collapse[symmetric]]
  have "prefix (entries (bs_ledger (lab_state lab))) (entries (bs_ledger (lab_state lab')))" by (simp add: f(4))
  moreover have "lab_sound (be_ledger_env (dm_broker D)) lab'" using lab_execute_sound[OF x] sound hex by simp
  ultimately show ?thesis using f by simp
qed

lemma daemon_inv_lab:
  assumes "daemon_inv D app0 app" "run_lab D tv intent (as_lab app) = (r, as_lab app')"
    and "as_daemon_token app' = as_daemon_token app"
    and hex: "\<And>bs. hex_digest (env_blake3_hex (be_ledger_env (dm_broker D)) bs)"
  shows "daemon_inv D app0 app'"
  using assms(1,3) run_lab_facts[OF assms(2) _ hex] prefix_order.trans unfolding daemon_inv_def by metis

lemma daemon_inv_same:
  "daemon_inv D app0 app \<Longrightarrow> as_lab app' = as_lab app \<Longrightarrow> as_daemon_token app' = as_daemon_token app
    \<Longrightarrow> daemon_inv D app0 app'"
  by (simp add: daemon_inv_def)

lemma worker_turn_lab:
  assumes "worker_turn D tv env app = (stop, app')"
  shows "as_daemon_token app' = as_daemon_token app
    \<and> (as_lab app' = as_lab app \<or> (\<exists>intent r. run_lab D tv intent (as_lab app) = (r, as_lab app')))"
proof (cases "\<exists>m. en_kind env = Some (ToolIntent m)")
  case True
  then obtain m where m: "en_kind env = Some (ToolIntent m)" by blast
  obtain result app1 where a: "answer_intent D tv (en_request_id env) m app = (result, app1)" by fastforce
  note f = answer_intent_fields[OF a]
  from assms m a have "as_lab app' = as_lab app1" "as_daemon_token app' = as_daemon_token app1"
    by (auto simp: worker_turn_def split: prod.splits sum.splits)
  moreover have "as_lab app1 = as_lab app \<or> (\<exists>intent r. run_lab D tv intent (as_lab app) = (r, as_lab app1))"
    using f(4) by (auto simp: execute_message_def split: sum.splits prod.splits)
  ultimately show ?thesis using f(2) by simp
qed (use assms in \<open>auto simp: worker_turn_def split: option.splits kind.splits\<close>)

lemma tool_intent_handler_lab:
  assumes "tool_intent_handler D tv authorization request app = (rep, app')"
  shows "as_daemon_token app' = as_daemon_token app
    \<and> (as_lab app' = as_lab app \<or> (\<exists>intent r. run_lab D tv intent (as_lab app) = (r, as_lab app')))"
  using assms by (auto simp: tool_intent_handler_def split: if_splits sum.splits prod.splits)

lemma daemon_inv_step:
  assumes "daemon_step D app app'" "daemon_inv D app0 app"
    and hex: "\<And>bs. hex_digest (env_blake3_hex (be_ledger_env (dm_broker D)) bs)"
  shows "daemon_inv D app0 app'"
  using assms(1)
proof cases
  case (worker_round tv env stop)
  with worker_turn_lab[OF worker_round] assms(2) show ?thesis by (metis daemon_inv_lab daemon_inv_same hex)
next
  case (http_intent tv authorization request rep)
  with tool_intent_handler_lab[OF http_intent] assms(2) show ?thesis by (metis daemon_inv_lab daemon_inv_same hex)
next
  case (http_campaign tv authorization outcome rep)
  then have "as_lab app' = as_lab app" "as_daemon_token app' = as_daemon_token app"
    by (auto simp: fixture_campaign_handler_def split: if_splits sum.splits)
  with assms(2) show ?thesis by (rule daemon_inv_same)
next
  case (worker_start env_var hv version accepted timed_out pythonpath b)
  then have "as_lab app' = as_lab app" "as_daemon_token app' = as_daemon_token app"
    by (auto simp: spawn_research_worker_def Let_def split: option.splits prod.splits sum.splits if_splits)
  with assms(2) show ?thesis by (rule daemon_inv_same)
qed (use assms(2) in \<open>auto simp: daemon_inv_def\<close>)

lemma daemon_run_inv:
  assumes "daemon_run D app0 app" "lab_sound (be_ledger_env (dm_broker D)) (as_lab app0)"
    and hex: "\<And>bs. hex_digest (env_blake3_hex (be_ledger_env (dm_broker D)) bs)"
  shows "daemon_inv D app0 app"
  using assms(1)
proof (induction rule: daemon_run.induct)
  case started
  show ?case using assms(2) by (simp add: daemon_inv_def)
next
  case (stepped app app')
  then show ?case by (metis daemon_inv_step hex)
qed

lemma daemon_run_token: "daemon_run D app0 app \<Longrightarrow> as_daemon_token app = as_daemon_token app0"
proof (induction rule: daemon_run.induct)
  case (stepped app app')
  from stepped.hyps(2) have "as_daemon_token app' = as_daemon_token app"
  proof cases
    case (worker_round tv env stop)
    then show ?thesis using worker_turn_lab by blast
  next
    case (http_intent tv authorization request rep)
    then show ?thesis using tool_intent_handler_lab by blast
  qed (auto simp: fixture_campaign_handler_def spawn_research_worker_def Let_def
      split: if_splits sum.splits option.splits prod.splits)
  with stepped.IH show ?case by simp
qed simp

subsection \<open>Instances\<close>

definition demo_tool_envelope :: envelope where
  "demo_tool_envelope = \<lparr>en_protocol_version = 1, en_request_id = ''r1'', en_kind = Some (ToolIntent
     \<lparr>tm_capability = ''read_file'', tm_argv = [], tm_cwd = None, tm_path = Some ''/lab/a'', tm_host = None,
      tm_port = None, tm_protocol = None, tm_timeout_ms = 0, tm_http_target = None, tm_http_cookie = None\<rparr>)\<rparr>"

definition demo_daemon :: "(unit, unit) daemon_env" where
  "demo_daemon = \<lparr>dm_contains = (\<lambda>_ _. False), dm_show_error = (\<lambda>_. ''e''), dm_encode = (\<lambda>_. Some [2]),
     dm_decode = (\<lambda>bs. if bs = [1] then Some demo_tool_envelope else None), dm_broker = demo_broker_env,
     dm_turn_codec = demo_turn_codec 5,
     dm_campaign_codec = \<lparr>codec_to_string = (\<lambda>_. Inl ''unsupported''), codec_from_str = (\<lambda>_. Inl ''unsupported'')\<rparr>\<rparr>"

definition demo_turn_env :: turn_env where
  "demo_turn_env = \<lparr>tv_request_id = RequestId 9, tv_clock = of_nat, tv_put = (\<lambda>_. (no_faults, ''u'', ArtifactId 1)),
     tv_world = demo_world, tv_join = None, tv_store = None, tv_unix_ms = 5\<rparr>"

definition demo_token :: string where
  "demo_token = replicate 32 (CHR ''t'')"

definition demo_supervised :: "ipc_stream option \<Rightarrow> worker_supervisor" where
  "demo_supervised s = \<lparr>ws_listener_addr = ''/run/w'', ws_expected_token = ''token'', ws_endpoint = EP_Unix ''/run/w'',
     ws_child = None, ws_stream = s\<rparr>"

definition demo_started :: "ipc_stream option \<Rightarrow> string + unit app_state" where
  "demo_started s = start_daemon (\<lambda>n. if n = ''AROS_DAEMON_TOKEN'' then Some demo_token else None)
     (\<lambda>_. demo_open (Some ''0'')) Inr (\<lambda>_. Inr (demo_supervised s)) store_empty ''session''"

definition demo_app :: "ipc_stream option \<Rightarrow> unit app_state" where
  "demo_app s = \<lparr>as_supervisor = demo_supervised s, as_intents_handled = 0, as_intents_executed = 0,
     as_lab = demo_lab (Some ''0''), as_registry = store_empty, as_worker_session_id = ''session'',
     as_daemon_token = demo_token\<rparr>"

lemma demo_started_eq: "demo_started s = Inr (demo_app s)"
proof -
  have "length (as_bytes demo_token) = 32" by code_simp
  then show ?thesis
    by (simp add: demo_started_def start_daemon_def demo_app_def demo_open_ok Let_def env_name_def ENV_PREFIX_def ok_or_def)
qed

lemma demo_sound: "lab_sound (be_ledger_env (dm_broker demo_daemon)) (as_lab (demo_app s))"
proof -
  have "lab_state (demo_lab (Some ''0'')) = \<lparr>bs_ledger = ledger_new, bs_files = Map.empty\<rparr>"
    using demo_open_ok(2) unfolding demo_open_def by (rule lab_open_Inr)
  then show ?thesis by (simp add: lab_sound_def demo_app_def cas_ok_def ledger_verify_def ledger_new_def)
qed

lemma demo_daemon_hex: "hex_digest (env_blake3_hex (be_ledger_env (dm_broker demo_daemon)) bs)"
  using demo_blake3_hex by (simp add: demo_daemon_def)

subsection \<open>Properties\<close>

text \<open>C9. Every tool intent of the worker is answered: the loop that serves a connected worker always
  ends. It consumes a sequence of envelopes and replies to exactly the tool intents among them, one
  reply each, in order, under the request's id and as whole frames. It stops only when nothing more
  can be read, at a shutdown message, or when a reply cannot be written, and then that reply is the
  only one missing. The counter of handled intents grows by the number of replies.\<close>

theorem worker_intents_answered:
  assumes "ws_stream (as_supervisor app) = Some s"
  shows "\<exists>stop app' s' envs replies. handle_worker_intents D tvs n app = (stop, app')
    \<and> ws_stream (as_supervisor app') = Some s'
    \<and> as_intents_handled app' = as_intents_handled app + of_nat (length replies)
    \<and> fst (receive (dm_decode D) default_max_frame (length envs) s) = envs
    \<and> (case stop of
         Read_Failed e \<Rightarrow> (\<exists>ie. e = SX_Ipc ie
             \<and> receive (dm_decode D) default_max_frame (Suc (length envs)) s = (envs, Some ie))
           \<and> map fst replies = requests envs \<and> st_out s' = st_out s @ reply_frames (dm_encode D) replies
       | Worker_Shutdown _ \<Rightarrow> envs \<noteq> [] \<and> is_shutdown (last envs)
           \<and> map fst replies = requests envs \<and> st_out s' = st_out s @ reply_frames (dm_encode D) replies
       | Write_Failed _ \<Rightarrow> (\<exists>i. map fst replies @ [i] = requests envs)
           \<and> prefix (st_out s @ reply_frames (dm_encode D) replies) (st_out s'))"
proof -
  obtain stop app' where h: "handle_worker_intents D tvs n app = (stop, app')" by fastforce
  from handle_serves[OF this assms] obtain s' envs replies where
    "ws_stream (as_supervisor app') = Some s'" "as_intents_handled app' = as_intents_handled app + of_nat (length replies)"
    "served (dm_encode D) (dm_decode D) s stop s' envs replies" by blast
  with h show ?thesis unfolding served_def
    by (intro exI[of _ stop] exI[of _ app'] exI[of _ s'] exI[of _ envs] exI[of _ replies]) simp
qed

theorem worker_intents_answered_witness:
  "\<exists>stop app' s' (replies :: (string \<times> intent_result) list). handle_worker_intents demo_daemon (\<lambda>_. demo_turn_env) 0 (demo_app (Some (fresh_stream (frame [1]))))
      = (stop, app') \<and> ws_stream (as_supervisor app') = Some s'
    \<and> as_intents_handled app' = of_nat (length replies) \<and> as_intents_handled app' = 1"
proof -
  let ?run = "handle_worker_intents demo_daemon (\<lambda>_. demo_turn_env) 0 (demo_app (Some (fresh_stream (frame [1]))))"
  have one: "as_intents_handled (snd ?run) = 1" by code_simp
  have "ws_stream (as_supervisor (demo_app (Some (fresh_stream (frame [1]))))) = Some (fresh_stream (frame [1]))"
    by (simp add: demo_app_def demo_supervised_def)
  from worker_intents_answered[OF this, of demo_daemon "\<lambda>_. demo_turn_env" 0] obtain stop app' s' and replies :: "(string \<times> intent_result) list" where
    "?run = (stop, app')" "ws_stream (as_supervisor app') = Some s'"
    "as_intents_handled app' = as_intents_handled (demo_app (Some (fresh_stream (frame [1])))) + of_nat (length replies)"
    by (elim exE conjE) (rule that)
  moreover have "as_intents_handled (demo_app (Some (fresh_stream (frame [1])))) = 0" by (simp add: demo_app_def)
  ultimately show ?thesis using one by auto
qed

text \<open>C12. The daemon under any interleaving: from a sound start, through any sequence of worker rounds,
  HTTP requests, campaigns and worker starts, the ledger verifies and only grows, every stored blob has
  its digest, and the manifest, the sandbox and the bearer token are those of the start.\<close>

theorem daemon_evidence_invariant:
  assumes "daemon_run D app0 app" "lab_sound (be_ledger_env (dm_broker D)) (as_lab app0)"
    and "\<And>bs. hex_digest (env_blake3_hex (be_ledger_env (dm_broker D)) bs)"
  shows "ledger_verify (be_ledger_env (dm_broker D)) (bs_ledger (lab_state (as_lab app))) = Inr ()
    \<and> prefix (entries (bs_ledger (lab_state (as_lab app0)))) (entries (bs_ledger (lab_state (as_lab app))))
    \<and> cas_ok (env_blake3_hex (be_ledger_env (dm_broker D))) (lab_cas (as_lab app0)) (bs_files (lab_state (as_lab app)))
    \<and> lab_manifest_of (as_lab app) = lab_manifest_of (as_lab app0)
    \<and> lab_sandbox (as_lab app) = lab_sandbox (as_lab app0) \<and> as_daemon_token app = as_daemon_token app0"
  using daemon_run_inv[OF assms] unfolding daemon_inv_def lab_sound_def by metis

theorem daemon_evidence_invariant_witness:
  "\<exists>app. daemon_run demo_daemon (demo_app (Some (fresh_stream []))) app \<and> as_intents_handled app = 1
    \<and> ledger_verify demo_ledger_env (bs_ledger (lab_state (as_lab app))) = Inr ()"
proof -
  let ?app0 = "demo_app (Some (fresh_stream []))"
  obtain stop app where t: "worker_turn demo_daemon demo_turn_env demo_tool_envelope ?app0 = (stop, app)" by fastforce
  have "as_intents_handled (snd (worker_turn demo_daemon demo_turn_env demo_tool_envelope ?app0)) = 1" by code_simp
  moreover have run: "daemon_run demo_daemon ?app0 app"
    using daemon_run.stepped[OF daemon_run.started daemon_step.worker_round[OF t]] .
  ultimately show ?thesis using daemon_evidence_invariant[OF run demo_sound demo_daemon_hex] t
    by (auto simp: demo_daemon_def demo_broker_env_def)
qed

text \<open>C25. The bearer token guards every handler but the health check: a daemon starts only with a token of
  at least 32 bytes, and at any point of its life a request whose header is not exactly that token
  behind the scheme is answered with 401 and changes nothing.\<close>

theorem handlers_require_token:
  assumes "start_daemon env_var open_lab open_registry bind db session_id = Inr app0"
    and "daemon_run D app0 app" and "authorization \<noteq> Some (''Bearer '' @ as_daemon_token app0)"
  shows "32 \<le> length (as_bytes (as_daemon_token app0))
    \<and> tool_intent_handler D tv authorization request app = (Api_Error 401 ''missing or invalid bearer token'', app)
    \<and> fixture_campaign_handler D tv authorization outcome app = (Api_Error 401 ''missing or invalid bearer token'', app)
    \<and> get_campaign_handler D tv authorization i app = Api_Error 401 ''missing or invalid bearer token''
    \<and> list_campaigns_handler D tv authorization app = Api_Error 401 ''missing or invalid bearer token''
    \<and> list_worker_turns_handler D tv authorization app = Api_Error 401 ''missing or invalid bearer token''"
proof -
  have "32 \<le> length (as_bytes (as_daemon_token app0))"
    using assms(1) by (auto simp: start_daemon_def res_simps Let_def split: if_splits)
  moreover have "\<not> http_authorized authorization app"
    using assms(3) daemon_run_token[OF assms(2)] by (simp add: http_authorized_def bearer_iff)
  ultimately show ?thesis
    by (simp add: tool_intent_handler_def fixture_campaign_handler_def get_campaign_handler_def
        list_campaigns_handler_def list_worker_turns_handler_def unauthorized_def)
qed

theorem handlers_require_token_witness:
  "get_campaign_handler demo_daemon demo_turn_env (Some ''Bearer t'') ''c'' (demo_app None)
     = Api_Error 401 ''missing or invalid bearer token''"
proof -
  have "Some ''Bearer t'' \<noteq> Some (''Bearer '' @ as_daemon_token (demo_app None))" by code_simp
  from handlers_require_token[OF demo_started_eq[unfolded demo_started_def] daemon_run.started this] show ?thesis by blast
qed

end
