(* ===== verification/Snapshot.thy ===== *)
theory Snapshot
  imports Domain Rust_Str Canonical
begin

text \<open>
  \<^verbatim>\<open>aros-core/src/snapshot.rs\<close> and \<^verbatim>\<open>copy_exact_tree\<close> of \<^verbatim>\<open>aros-core/src/verifier.rs\<close>: the exact-target digest
  of a directory tree and the copy of a tree that the verifier executes. A directory is the finite tree
  a walk without symbolic links sees, its entries in the order the host lists them; an entry that
  cannot be inspected or read is part of the tree. A path below the root is the list of its names,
  which is also how \<^verbatim>\<open>PathBuf\<close> orders paths.
\<close>

subsection \<open>Trees\<close>

datatype fs_tree =
    File bytes
  | File_Err string
  | Dir "(string \<times> fs_tree) list"
  | Dir_Err string
  | Link
  | Special
  | Stat_Err string

type_synonym entries = "(string \<times> fs_tree) list"

datatype snapshot_error = SN_Io string | NotDir string | SN_Symlink string

definition snapshot_error_to_string :: "snapshot_error \<Rightarrow> string" where
  "snapshot_error_to_string e =
     (case e of
        SN_Io m \<Rightarrow> ''io: '' @ m
      | NotDir p \<Rightarrow> ''target path is not a directory: '' @ p
      | SN_Symlink p \<Rightarrow> ''symlink is not allowed in exact-target snapshot: '' @ p)"

subsection \<open>Operations\<close>

definition skipped_name :: "string \<Rightarrow> bool" where
  "skipped_name name = (name = ''.git'' \<or> name = ''__pycache__'' \<or> name = ''target'')"

definition display_path :: "string \<Rightarrow> string list \<Rightarrow> string" where
  "display_path root names = foldl path_join root names"

text \<open>\<open>collect_files root at es\<close> walks the entries \<open>es\<close> of the directory \<open>at\<close>.\<close>

fun collect_files :: "string \<Rightarrow> string list \<Rightarrow> entries \<Rightarrow> snapshot_error + (string list \<times> fs_tree) list" where
  "collect_files root at [] = Inr []"
| "collect_files root at ((name, t) # es) =
     (if skipped_name name then collect_files root at es
      else (case t of
              Stat_Err e \<Rightarrow> Inl (SN_Io e)
            | Link \<Rightarrow> Inl (SN_Symlink (display_path root (at @ [name])))
            | Dir_Err e \<Rightarrow> Inl (SN_Io e)
            | Dir sub \<Rightarrow>
                res_bind (collect_files root (at @ [name]) sub) (\<lambda>inner.
                res_bind (collect_files root at es) (\<lambda>outer. Inr (inner @ outer)))
            | Special \<Rightarrow> collect_files root at es
            | _ \<Rightarrow> res_bind (collect_files root at es) (\<lambda>outer. Inr ((at @ [name], t) # outer))))"

definition hash_file :: "(bytes \<Rightarrow> string) \<Rightarrow> fs_tree \<Rightarrow> snapshot_error + string" where
  "hash_file blake3_hex t =
     (case t of File bs \<Rightarrow> Inr (blake3_hex bs) | File_Err e \<Rightarrow> Inl (SN_Io e) | _ \<Rightarrow> Inl (SN_Io []))"

definition nul :: char where
  "nul = CHR 0x00"

definition snapshot_line :: "string list \<times> string \<Rightarrow> string" where
  "snapshot_line = (\<lambda>(names, hash). join_with ''/'' names @ [nul] @ hash @ [newline])"

text \<open>The files are hashed in parallel; when several of them cannot be read any one of the errors may be
  reported, here the first.\<close>

definition tree_digest :: "(bytes \<Rightarrow> string) \<Rightarrow> string \<Rightarrow> entries \<Rightarrow> snapshot_error + string" where
  "tree_digest blake3_hex root es =
     res_bind (collect_files root [] es) (\<lambda>files.
     let sorted_files = sort_key fst files
     in res_bind (res_map (\<lambda>(_, t). hash_file blake3_hex t) sorted_files) (\<lambda>hashes.
        Inr (blake3_hex (as_bytes (concat (map snapshot_line (zip (map fst sorted_files) hashes)))))))"

definition read_git_head :: "(bytes \<Rightarrow> string option) \<Rightarrow> entries \<Rightarrow> string option" where
  "read_git_head from_utf8 es =
     (case map_of es ''.git'' of
        Some (Dir git) \<Rightarrow>
          (case map_of git ''HEAD'' of
             Some (File bs) \<Rightarrow> map_option trim (from_utf8 bs)
           | _ \<Rightarrow> None)
      | _ \<Rightarrow> None)"

text \<open>\<open>is_dir\<close> is the answer of \<^verbatim>\<open>Path::is_dir\<close>, which follows links; \<open>t\<close> is the root without following.\<close>

definition snapshot_tree ::
    "(bytes \<Rightarrow> string) \<Rightarrow> (bytes \<Rightarrow> string option) \<Rightarrow> snapshot_id \<Rightarrow> u64 \<Rightarrow> target_id \<Rightarrow> string \<Rightarrow> bool \<Rightarrow> fs_tree
      \<Rightarrow> snapshot_error + target_snapshot" where
  "snapshot_tree blake3_hex from_utf8 sid now target_id root is_dir t =
     (if \<not> is_dir then Inl (NotDir root)
      else case t of
        Dir es \<Rightarrow>
          res_bind (tree_digest blake3_hex root es) (\<lambda>digest.
            Inr \<lparr>ts_id = sid, ts_target_id = target_id, ts_git_commit = read_git_head from_utf8 es,
                 ts_dirty_tree_hash = Some digest, ts_submodule_shas = [], ts_source_tree_digest = digest,
                 ts_lockfile_hashes = [], ts_container_image_digest = None,
                 ts_compiler_runtime_versions = [], ts_build_flags = [], ts_feature_flags = [],
                 ts_runtime_description = ''aros-snapshot:'' @ root, ts_captured_unix_ms = now\<rparr>)
      | Link \<Rightarrow> Inl (SN_Symlink root)
      | Stat_Err e \<Rightarrow> Inl (SN_Io e)
      | Dir_Err e \<Rightarrow> Inl (SN_Io e)
      | _ \<Rightarrow> Inl (SN_Io []))"

text \<open>The copy: symbolic links are refused, compiled Python is left out, special files are not copied.\<close>

fun copy_exact_tree :: "string \<Rightarrow> string list \<Rightarrow> entries \<Rightarrow> string + entries" where
  "copy_exact_tree root at [] = Inr []"
| "copy_exact_tree root at ((name, t) # es) =
     (case t of
        Stat_Err e \<Rightarrow> Inl e
      | Link \<Rightarrow> Inl (''symlink not allowed in verifier target: '' @ display_path root (at @ [name]))
      | Dir_Err e \<Rightarrow> if name = ''__pycache__'' then copy_exact_tree root at es else Inl e
      | Dir sub \<Rightarrow>
          if name = ''__pycache__'' then copy_exact_tree root at es
          else res_bind (copy_exact_tree root (at @ [name]) sub) (\<lambda>inner.
               res_bind (copy_exact_tree root at es) (\<lambda>outer. Inr ((name, Dir inner) # outer)))
      | File bs \<Rightarrow> res_bind (copy_exact_tree root at es) (\<lambda>outer. Inr ((name, File bs) # outer))
      | File_Err e \<Rightarrow> Inl e
      | Special \<Rightarrow> copy_exact_tree root at es)"

subsection \<open>The files a digest speaks of\<close>

text \<open>The files below a tree, without the skipped names, whatever can be read of them.\<close>

fun tree_files :: "string list \<Rightarrow> entries \<Rightarrow> (string list \<times> fs_tree) list" where
  "tree_files at [] = []"
| "tree_files at ((name, t) # es) =
     (if skipped_name name then []
      else (case t of
              Dir sub \<Rightarrow> tree_files (at @ [name]) sub
            | File bs \<Rightarrow> [(at @ [name], t)]
            | File_Err e \<Rightarrow> [(at @ [name], t)]
            | _ \<Rightarrow> [])) @ tree_files at es"

definition file_bytes :: "fs_tree \<Rightarrow> bytes" where
  "file_bytes t = (case t of File bs \<Rightarrow> bs | _ \<Rightarrow> [])"

text \<open>The contents by path, in the order of the digest.\<close>

definition contents :: "entries \<Rightarrow> (string list \<times> bytes) list" where
  "contents es = map (\<lambda>(names, t). (names, file_bytes t)) (sort_key fst (tree_files [] es))"

definition digest_input :: "(bytes \<Rightarrow> string) \<Rightarrow> (string list \<times> bytes) list \<Rightarrow> string" where
  "digest_input blake3_hex files = concat (map (\<lambda>(names, bs). snapshot_line (names, blake3_hex bs)) files)"

text \<open>Names as a host has them: not empty, without separator and without NUL.\<close>

definition name_ok :: "string \<Rightarrow> bool" where
  "name_ok name = (name \<noteq> [] \<and> CHR ''/'' \<notin> set name \<and> nul \<notin> set name)"

fun names_ok :: "entries \<Rightarrow> bool" where
  "names_ok [] = True"
| "names_ok ((name, t) # es) =
     (name_ok name \<and> (case t of Dir sub \<Rightarrow> names_ok sub | _ \<Rightarrow> True) \<and> names_ok es)"

subsection \<open>Lemmas\<close>

lemma collect_files_Inr: "collect_files root at es = Inr files \<Longrightarrow> tree_files at es = files"
proof (induction root at es arbitrary: files rule: collect_files.induct)
  case (2 root at name t es)
  show ?case
  proof (cases "skipped_name name")
    case True
    with "2.prems" "2.IH"(1) show ?thesis by simp
  next
    case False
    with "2.prems" "2.IH"(2-) show ?thesis by (cases t) (fastforce simp: res_simps)+
  qed
qed simp

lemma tree_files_names:
  "(names, t) \<in> set (tree_files at es) \<Longrightarrow> names_ok es
    \<Longrightarrow> \<exists>below. names = at @ below \<and> below \<noteq> [] \<and> list_all name_ok below"
proof (induction at es rule: tree_files.induct)
  case (2 at name u es)
  show ?case
  proof (cases "(names, t) \<in> set (tree_files at es)")
    case True
    with 2 show ?thesis by simp
  next
    case False
    with "2.prems" have ns: "\<not> skipped_name name" "name_ok name" by (auto split: if_splits)
    show ?thesis
    proof (cases u)
      case (Dir sub)
      with False ns "2.prems" have "(names, t) \<in> set (tree_files (at @ [name]) sub)" "names_ok sub" by auto
      with "2.IH"(1)[OF ns(1) Dir] obtain below where "names = (at @ [name]) @ below" "list_all name_ok below" by blast
      with ns show ?thesis by (intro exI[of _ "name # below"]) simp
    qed (use False ns "2.prems" in auto)
  qed
qed simp

lemma tree_digest_Inr:
  assumes "tree_digest blake3_hex root es = Inr d"
  shows "d = blake3_hex (as_bytes (digest_input blake3_hex (contents es)))"
proof -
  let ?fs = "sort_key fst (tree_files [] es)"
  from assms obtain files hashes where "collect_files root [] es = Inr files"
    and h: "res_map (\<lambda>(_, t). hash_file blake3_hex t) (sort_key fst files) = Inr hashes"
    and d: "d = blake3_hex (as_bytes (concat (map snapshot_line (zip (map fst (sort_key fst files)) hashes))))"
    by (auto simp: tree_digest_def res_simps Let_def)
  then have f: "files = tree_files [] es" by (simp add: collect_files_Inr)
  have "hash = blake3_hex (file_bytes t)" if "hash_file blake3_hex t = Inr hash" for t hash
    using that by (auto simp: hash_file_def file_bytes_def split: fs_tree.splits)
  then have "list_all2 (\<lambda>(_, t) hash. hash = blake3_hex (file_bytes t)) ?fs hashes"
    using h f by (auto simp: res_map_Inr_iff elim!: list_all2_mono)
  then have "zip (map fst ?fs) hashes = map (\<lambda>(names, t). (names, blake3_hex (file_bytes t))) ?fs"
    by (induction rule: list_all2_induct) auto
  with d f show ?thesis by (simp add: digest_input_def contents_def comp_def case_prod_beta)
qed

lemma split_at_nul:
  assumes "p @ nul # r = q @ nul # s" "nul \<notin> set p" "nul \<notin> set q"
  shows "p = q \<and> r = s"
  using assms by (induction p arbitrary: q) (auto simp: Cons_eq_append_conv)

lemma snapshot_line_split:
  assumes "snapshot_line (ns, h) @ r = snapshot_line (ms, k) @ s" "length h = length k"
    and "list_all name_ok ns" "list_all name_ok ms" "ns \<noteq> []" "ms \<noteq> []"
  shows "ns = ms \<and> h = k \<and> r = s"
proof -
  have no_nul: "nul \<notin> set (join_with ''/'' xs)" if "list_all name_ok xs" for xs
    using that set_join_with[of "''/''" xs] by (auto simp: list_all_iff name_ok_def nul_def)
  from assms(1) have eq: "join_with ''/'' ns @ nul # (h @ newline # r) = join_with ''/'' ms @ nul # (k @ newline # s)"
    by (simp add: snapshot_line_def)
  from split_at_nul[OF this no_nul[OF assms(3)] no_nul[OF assms(4)]]
  have "join_with ''/'' ns = join_with ''/'' ms" "h @ newline # r = k @ newline # s" by auto
  moreover from this(1) have "ns = ms"
    using assms(3-6) by (intro join_with_inj[of _ _ "CHR ''/''"]) (auto simp: list_all_iff name_ok_def)
  ultimately show ?thesis using assms(2) by auto
qed

lemma digest_input_inj:
  assumes "digest_input blake3_hex xs = digest_input blake3_hex ys"
    and "\<And>bs. length (blake3_hex bs) = n"
    and "list_all (\<lambda>(ns, _). ns \<noteq> [] \<and> list_all name_ok ns) xs" "list_all (\<lambda>(ns, _). ns \<noteq> [] \<and> list_all name_ok ns) ys"
  shows "list_all2 (\<lambda>(ns, b) (ms, c). ns = ms \<and> blake3_hex b = blake3_hex c) xs ys"
  using assms(1,3,4)
proof (induction xs arbitrary: ys)
  case Nil
  then show ?case by (cases ys) (auto simp: digest_input_def snapshot_line_def)
next
  case (Cons x xs)
  obtain ns b where x: "x = (ns, b)" by force
  from Cons.prems(1) x obtain y ys' where y: "ys = y # ys'"
    by (cases ys) (auto simp: digest_input_def snapshot_line_def)
  obtain ms c where yy: "y = (ms, c)" by force
  from Cons.prems(1) x y yy have
    "snapshot_line (ns, blake3_hex b) @ digest_input blake3_hex xs = snapshot_line (ms, blake3_hex c) @ digest_input blake3_hex ys'"
    by (simp add: digest_input_def)
  from snapshot_line_split[OF this] assms(2) Cons.prems(2,3) x y yy
  have "ns = ms" "blake3_hex b = blake3_hex c" "digest_input blake3_hex xs = digest_input blake3_hex ys'" by auto
  with Cons x y yy show ?case by simp
qed

lemma contents_names:
  assumes "names_ok es"
  shows "list_all (\<lambda>(ns, _). ns \<noteq> [] \<and> list_all name_ok ns) (contents es)"
  using assms by (auto simp: contents_def list_all_iff[where P = "\<lambda>(ns, _). _ ns"] dest!: tree_files_names)

text \<open>A tree as a completed copy has it: nothing in it but files and directories.\<close>

fun plain_tree :: "entries \<Rightarrow> bool" where
  "plain_tree [] = True"
| "plain_tree ((name, t) # es) =
     ((case t of Dir sub \<Rightarrow> plain_tree sub | File bs \<Rightarrow> True | _ \<Rightarrow> False) \<and> plain_tree es)"

lemma collect_plain: "plain_tree es \<Longrightarrow> collect_files root at es = Inr (tree_files at es)"
  by (induction root at es rule: collect_files.induct) (auto split: fs_tree.splits)

lemma plain_tree_files: "plain_tree es \<Longrightarrow> (ns, t) \<in> set (tree_files at es) \<Longrightarrow> t = File (file_bytes t)"
  by (induction at es rule: tree_files.induct) (auto simp: file_bytes_def split: fs_tree.splits if_splits)

lemma plain_digest:
  assumes "plain_tree es"
  shows "tree_digest blake3_hex root es = Inr (blake3_hex (as_bytes (digest_input blake3_hex (contents es))))"
proof -
  let ?fs = "sort_key fst (tree_files [] es)"
  have "hash_file blake3_hex t = Inr (blake3_hex (file_bytes t))" if "(ns, t) \<in> set ?fs" for ns t
    using plain_tree_files[OF assms, of ns t "[]"] that by (cases t) (auto simp: hash_file_def file_bytes_def)
  then have "res_map (\<lambda>(_, t). hash_file blake3_hex t) ?fs = Inr (map (\<lambda>(_, t). blake3_hex (file_bytes t)) ?fs)"
    by (intro res_map_total) auto
  then obtain d where "tree_digest blake3_hex root es = Inr d"
    by (auto simp: tree_digest_def collect_plain[OF assms] Let_def)
  with tree_digest_Inr show ?thesis by metis
qed

lemma copy_plain: "copy_exact_tree root at es = Inr c \<Longrightarrow> plain_tree c"
proof (induction root at es arbitrary: c rule: copy_exact_tree.induct)
  case (2 root at name t es)
  then show ?case by (cases t) (fastforce simp: res_simps split: if_splits)+
qed simp

lemma copy_files: "copy_exact_tree root at es = Inr c \<Longrightarrow> tree_files at' c = tree_files at' es"
proof (induction root at es arbitrary: c at' rule: copy_exact_tree.induct)
  case (2 root at name t es)
  then show ?case
    by (cases t) (auto simp: res_simps skipped_name_def split: if_splits)
qed simp

subsection \<open>The digest binds the files, and the copy carries them\<close>

text \<open>Equal exact-target digests of two trees mean equal files: the same paths with the same bytes, unless two
  different byte strings that the two digests hashed (the bytes of one file in the two trees, or the
  two listings) collide under the hash function.\<close>

theorem snapshot_binds_tree:
  assumes "tree_digest blake3_hex root es = Inr d" "tree_digest blake3_hex root' es' = Inr d"
    and "names_ok es" "names_ok es'" "\<And>bs. length (blake3_hex bs) = n"
  shows "contents es = contents es'
    \<or> (\<exists>ns b c. (ns, b) \<in> set (contents es) \<and> (ns, c) \<in> set (contents es') \<and> b \<noteq> c \<and> blake3_hex b = blake3_hex c)
    \<or> (let listing = as_bytes (digest_input blake3_hex (contents es));
           listing' = as_bytes (digest_input blake3_hex (contents es'))
       in listing \<noteq> listing' \<and> blake3_hex listing = blake3_hex listing')"
proof (cases "digest_input blake3_hex (contents es) = digest_input blake3_hex (contents es')")
  case True
  from digest_input_inj[OF this assms(5) contents_names[OF assms(3)] contents_names[OF assms(4)]]
  have all2: "list_all2 (\<lambda>(ns, b) (ms, c). ns = ms \<and> blake3_hex b = blake3_hex c) (contents es) (contents es')" .
  show ?thesis
  proof (cases "list_all2 (=) (contents es) (contents es')")
    case True
    then show ?thesis by (simp add: list.rel_eq)
  next
    case False
    with list_all2_lengthD[OF all2] obtain i where i: "i < length (contents es)" "contents es ! i \<noteq> contents es' ! i"
      by (auto simp: list_all2_conv_all_nth)
    obtain ns b ms c where "contents es ! i = (ns, b)" "contents es' ! i = (ms, c)" by fastforce
    with i list_all2_nthD[OF all2 i(1)] list_all2_lengthD[OF all2]
    have "(ns, b) \<in> set (contents es)" "(ns, c) \<in> set (contents es')" "b \<noteq> c" "blake3_hex b = blake3_hex c"
      by (auto simp: in_set_conv_nth)
    then show ?thesis by blast
  qed
next
  case False
  with tree_digest_Inr[OF assms(1)] tree_digest_Inr[OF assms(2)] show ?thesis by (auto simp: Let_def)
qed

text \<open>The copy that the verifier executes has the digest of the tree it was taken from.\<close>

theorem copy_keeps_digest:
  assumes "copy_exact_tree root at es = Inr c"
  shows "tree_digest blake3_hex dst c = Inr (blake3_hex (as_bytes (digest_input blake3_hex (contents es))))
    \<and> contents c = contents es
    \<and> (\<forall>d. tree_digest blake3_hex root es = Inr d \<longrightarrow> tree_digest blake3_hex dst c = Inr d)"
proof -
  have "contents c = contents es" using copy_files[OF assms] by (simp add: contents_def)
  with plain_digest[OF copy_plain[OF assms]] tree_digest_Inr show ?thesis by metis
qed

text \<open>What is below \<^verbatim>\<open>.git\<close> or \<^verbatim>\<open>target\<close> reaches the copy and not the digest.\<close>

lemma copy_beyond_digest:
  assumes "name = ''.git'' \<or> name = ''target''" "copy_exact_tree root [] es = Inr c"
  shows "copy_exact_tree root [] ((name, Dir [(f, File bs)]) # es) = Inr ((name, Dir [(f, File bs)]) # c)
    \<and> tree_digest blake3_hex root ((name, Dir [(f, File bs)]) # es) = tree_digest blake3_hex root es"
  using assms by (auto simp: tree_digest_def skipped_name_def)

end
