(* ===== verification/Authority.thy ===== *)
theory Authority
  imports Domain Http_Lab Ipc_Session
begin

text \<open>
  \<^verbatim>\<open>aros-evidence/src/authority.rs\<close>: the evidence authorities, which turn the result of a verifier run into
  the result that is recorded. The environment, the connection to the remote authority and the
  decoding of \<^verbatim>\<open>serde_json\<close> are arguments.
\<close>

subsection \<open>The built-in authority\<close>

definition builtin_adjudicate :: "evidence_bundle \<Rightarrow> verifier_run \<Rightarrow> authority_result" where
  "builtin_adjudicate bundle verifier =
     (if eb_artifact_digests bundle = [] then AR_InsufficientEvidence
      else case vr_result verifier of
             AR_Verified \<Rightarrow>
               if E4IndependentReproduction \<le> eb_level bundle
                  \<and> (vr_mode verifier = ReproduceCandidate \<or> vr_mode verifier = Blindish)
               then AR_Verified else vr_result verifier
           | other \<Rightarrow> other)"

subsection \<open>The remote authority\<close>

record theustad_adapter =
  ta_endpoint :: "string option"

definition theustad_unavailable :: theustad_adapter where
  "theustad_unavailable = \<lparr>ta_endpoint = None\<rparr>"

definition theustad_from_env :: "(string \<Rightarrow> string option) \<Rightarrow> theustad_adapter" where
  "theustad_from_env env_var =
     \<lparr>ta_endpoint =
        (case map_option trim (env_var (env_name ''THEUSTAD_URL'')) of
           Some value \<Rightarrow> if value = [] then None else Some value
         | None \<Rightarrow> None)\<rparr>"

definition theustad_is_available :: "theustad_adapter \<Rightarrow> bool" where
  "theustad_is_available adapter = (ta_endpoint adapter \<noteq> None)"

text \<open>\<open>as_result\<close> decodes a JSON value as an authority result and \<open>from_str\<close> a text as a JSON value.\<close>

definition json_get :: "json \<Rightarrow> string \<Rightarrow> json option" where
  "json_get v k = (case v of JObject m \<Rightarrow> map_of m k | _ \<Rightarrow> None)"

definition parse_authority_body ::
    "(string \<Rightarrow> json option) \<Rightarrow> (json \<Rightarrow> authority_result option) \<Rightarrow> string \<Rightarrow> authority_result option" where
  "parse_authority_body from_str as_result body =
     (case Option.bind (from_str (trim body)) as_result of
        Some value \<Rightarrow> Some value
      | None \<Rightarrow>
          Option.bind (from_str body) (\<lambda>value.
            as_result (case json_get value ''result'' of
                         Some token \<Rightarrow> token
                       | None \<Rightarrow> unwrap_or value (json_get value ''authority_result''))))"

text \<open>\<^verbatim>\<open>str::rsplit_once(':')\<close>.\<close>

definition rsplit_colon :: "string \<Rightarrow> (string \<times> string) option" where
  "rsplit_colon s = map_option (\<lambda>(b, a). (rev a, rev b)) (find_split '':'' (rev s))"

definition url_parts :: "string \<Rightarrow> string + (string \<times> u16 \<times> string)" where
  "url_parts url =
     res_bind (ok_or (strip_prefix ''http://'' url) ''THEUSTAD URL must be http:// loopback in v0.1'') (\<lambda>rest.
     let (hostport, path) =
           (case find_split ''/'' rest of
              Some (host, p) \<Rightarrow> (host, ''/'' @ p)
            | None \<Rightarrow> (rest, ''/''))
     in res_bind
          (case rsplit_colon hostport of
             Some (host, port) \<Rightarrow>
               res_bind (ok_or (parse_uint (2 ^ 16) port) ''invalid THEUSTAD port'') (\<lambda>n. Inr (host, of_nat n))
           | None \<Rightarrow> Inr (hostport, 80)) (\<lambda>(host, port). Inr (host, port, path)))"

definition post_request :: "string \<Rightarrow> u16 \<Rightarrow> string \<Rightarrow> bytes \<Rightarrow> bytes" where
  "post_request host port path body =
     as_bytes (''POST '' @ path @ '' HTTP/1.1'' @ crlf @ ''Host: '' @ host @ '':'' @ show_nat (unat port) @ crlf
       @ ''Content-Type: application/json'' @ crlf @ ''Content-Length: '' @ show_nat (length body) @ crlf
       @ ''Connection: close'' @ crlf @ crlf) @ body"

definition response_status :: "string \<Rightarrow> u16" where
  "response_status head =
     (case Option.bind (case str_lines head of [] \<Rightarrow> None | l # _ \<Rightarrow> Some l) (\<lambda>line.
           Option.bind (case split_whitespace line of _ # v # _ \<Rightarrow> Some v | _ \<Rightarrow> None) (\<lambda>v. parse_uint (2 ^ 16) v)) of
        Some n \<Rightarrow> of_nat n
      | None \<Rightarrow> 0)"

definition split_response :: "string \<Rightarrow> string \<times> string" where
  "split_response raw = (case find_split (crlf @ crlf) raw of None \<Rightarrow> (raw, []) | Some hb \<Rightarrow> hb)"

text \<open>\<open>net addr port bytes\<close> connects to the address, sends the bytes and reads until the peer closes.\<close>

definition post_loopback_json ::
    "net \<Rightarrow> (json \<Rightarrow> string + bytes) \<Rightarrow> string \<Rightarrow> json \<Rightarrow> string + (u16 \<times> string)" where
  "post_loopback_json net to_vec url body =
     res_bind (url_parts url) (\<lambda>(host, port, path).
     if host \<noteq> ''127.0.0.1'' \<and> host \<noteq> ''localhost'' \<and> host \<noteq> ''[::1]'' \<and> host \<noteq> ''::1''
     then Inl ''THEUSTAD URL must be loopback in v0.1''
     else res_bind (to_vec body) (\<lambda>bytes.
       if host = ''127.0.0.1'' \<or> host = ''localhost'' then
         res_bind (net ''127.0.0.1'' port (post_request host port path bytes)) (\<lambda>raw.
           let (head, response_body) = split_response raw
           in Inr (response_status head, response_body))
       else Inl ''IPv6 THEUSTAD loopback transport is not implemented in v0.1''))"

record authority_env =
  au_net :: net
  au_to_vec :: "json \<Rightarrow> string + bytes"
  au_from_str :: "string \<Rightarrow> json option"
  au_as_result :: "json \<Rightarrow> authority_result option"
  au_bundle :: "evidence_bundle \<Rightarrow> json"
  au_result :: "authority_result \<Rightarrow> json"
  au_mode :: "verifier_mode \<Rightarrow> json"

definition query_remote ::
    "authority_env \<Rightarrow> theustad_adapter \<Rightarrow> evidence_bundle \<Rightarrow> verifier_run \<Rightarrow> authority_result" where
  "query_remote env adapter bundle verifier =
     (case ta_endpoint adapter of
        None \<Rightarrow> builtin_adjudicate bundle verifier
      | Some url \<Rightarrow>
          let payload = JObject [(''bundle'', au_bundle env bundle),
                                 (''verifier_result'', au_result env (vr_result verifier)),
                                 (''verifier_mode'', au_mode env (vr_mode verifier))]
          in (case post_loopback_json (au_net env) (au_to_vec env) url payload of
                Inr (status, body) \<Rightarrow>
                  if 200 \<le> status \<and> status < 300
                  then unwrap_or AR_InsufficientEvidence
                         (parse_authority_body (au_from_str env) (au_as_result env) body)
                  else AR_InsufficientEvidence
              | Inl _ \<Rightarrow> AR_InsufficientEvidence))"

definition theustad_adjudicate ::
    "authority_env \<Rightarrow> theustad_adapter \<Rightarrow> evidence_bundle \<Rightarrow> verifier_run \<Rightarrow> authority_result" where
  "theustad_adjudicate env adapter bundle verifier =
     (if \<not> theustad_is_available adapter then builtin_adjudicate bundle verifier
      else query_remote env adapter bundle verifier)"

subsection \<open>Lemmas\<close>

text \<open>The condition on level and mode has no effect: the other branch returns the same result.\<close>

lemma builtin_adjudicate_eq:
  "builtin_adjudicate bundle verifier =
     (if eb_artifact_digests bundle = [] then AR_InsufficientEvidence else vr_result verifier)"
  by (simp add: builtin_adjudicate_def split: authority_result.split)

lemma post_loopback_json_Inr:
  assumes "post_loopback_json net to_vec url body = Inr (status, answer)"
  obtains host port path bs raw where "url_parts url = Inr (host, port, path)" "host = ''127.0.0.1'' \<or> host = ''localhost''"
    "net ''127.0.0.1'' port (post_request host port path bs) = Inr raw"
    "status = response_status (fst (split_response raw))" "answer = snd (split_response raw)"
proof -
  from assms obtain host port path where u: "url_parts url = Inr (host, port, path)"
    by (auto simp: post_loopback_json_def res_simps)
  with assms have h: "host = ''127.0.0.1'' \<or> host = ''localhost''"
    by (auto simp: post_loopback_json_def res_simps split: if_splits)
  with assms u obtain bs where b: "to_vec body = Inr bs"
    by (cases "to_vec body") (auto simp: post_loopback_json_def)
  with assms u h obtain raw where n: "net ''127.0.0.1'' port (post_request host port path bs) = Inr raw"
    by (cases "net ''127.0.0.1'' port (post_request host port path bs)") (auto simp: post_loopback_json_def)
  with assms u h b have "status = response_status (fst (split_response raw))" "answer = snd (split_response raw)"
    by (auto simp: post_loopback_json_def case_prod_beta Let_def)
  with u h n show thesis by (rule that)
qed

lemma post_loopback_json_local:
  assumes "\<And>port bs. net ''127.0.0.1'' port bs = net' ''127.0.0.1'' port bs"
  shows "post_loopback_json net to_vec url body = post_loopback_json net' to_vec url body"
proof -
  from assms have "net ''127.0.0.1'' = net' ''127.0.0.1''" by (intro ext)
  then show ?thesis by (simp only: post_loopback_json_def)
qed

subsection \<open>What an authority may answer\<close>

text \<open>C40. The remote authority is asked over loopback and nowhere else, and fails closed: two networks that
  agree on \<^verbatim>\<open>127.0.0.1\<close> give the same result, and a result other than \<^verbatim>\<open>InsufficientEvidence\<close> is either the
  verifier's own result on a bundle with artifacts, when no endpoint is configured, or the result a
  loopback peer sent with a 2xx status.\<close>

theorem authority_fails_closed:
  assumes "\<And>port bs. au_net env ''127.0.0.1'' port bs = net' ''127.0.0.1'' port bs"
    and "theustad_adjudicate env adapter bundle verifier = result"
  shows "theustad_adjudicate (env\<lparr>au_net := net'\<rparr>) adapter bundle verifier = result
    \<and> (result \<noteq> AR_InsufficientEvidence \<longrightarrow>
        (case ta_endpoint adapter of
           None \<Rightarrow> eb_artifact_digests bundle \<noteq> [] \<and> result = vr_result verifier
         | Some url \<Rightarrow>
             \<exists>host port path bs raw.
               url_parts url = Inr (host, port, path) \<and> (host = ''127.0.0.1'' \<or> host = ''localhost'')
               \<and> au_net env ''127.0.0.1'' port (post_request host port path bs) = Inr raw
               \<and> 200 \<le> response_status (fst (split_response raw)) \<and> response_status (fst (split_response raw)) < 300
               \<and> parse_authority_body (au_from_str env) (au_as_result env) (snd (split_response raw)) = Some result))"
proof (cases "ta_endpoint adapter")
  case None
  with assms show ?thesis
    by (auto simp: theustad_adjudicate_def theustad_is_available_def builtin_adjudicate_eq split: if_splits)
next
  case (Some url)
  let ?payload = "JObject [(''bundle'', au_bundle env bundle), (''verifier_result'', au_result env (vr_result verifier)),
                           (''verifier_mode'', au_mode env (vr_mode verifier))]"
  let ?post = "post_loopback_json (au_net env) (au_to_vec env) url ?payload"
  have same: "theustad_adjudicate (env\<lparr>au_net := net'\<rparr>) adapter bundle verifier = result"
    using assms(2) Some post_loopback_json_local[of "au_net env" net', OF assms(1)]
    by (simp add: theustad_adjudicate_def theustad_is_available_def query_remote_def Let_def cong: if_cong sum.case_cong)
  show ?thesis
  proof (cases "result = AR_InsufficientEvidence")
    case False
    with assms(2) Some obtain status body where post: "?post = Inr (status, body)" and ok: "200 \<le> status" "status < 300"
      and parse: "parse_authority_body (au_from_str env) (au_as_result env) body = Some result"
      by (auto simp: theustad_adjudicate_def theustad_is_available_def query_remote_def Let_def unwrap_or_def
          split: sum.splits if_splits option.splits)
    from post obtain host port path bs raw
      where "url_parts url = Inr (host, port, path)" "host = ''127.0.0.1'' \<or> host = ''localhost''"
        "au_net env ''127.0.0.1'' port (post_request host port path bs) = Inr raw"
        "status = response_status (fst (split_response raw))" "body = snd (split_response raw)"
      by (rule post_loopback_json_Inr)
    with same Some ok parse show ?thesis by (simp only: option.case simp_thms) blast
  qed (simp add: same)
qed

definition demo_authority_env :: authority_env where
  "demo_authority_env =
     \<lparr>au_net = (\<lambda>_ _ _. Inl ''connection refused''), au_to_vec = (\<lambda>_. Inr []), au_from_str = (\<lambda>_. None),
      au_as_result = (\<lambda>_. None), au_bundle = (\<lambda>_. JNull), au_result = (\<lambda>_. JNull), au_mode = (\<lambda>_. JNull)\<rparr>"

definition demo_bundle :: evidence_bundle where
  "demo_bundle =
     \<lparr>eb_finding_id = FindingId 1, eb_campaign_id = CampaignId 2, eb_manifest_hash = ''m'', eb_snapshot_id = SnapshotId 3,
      eb_sandbox_id = None, eb_claim = ''c'', eb_artifact_digests = [''d''], eb_level = E4IndependentReproduction\<rparr>"

definition demo_run :: verifier_run where
  "demo_run =
     \<lparr>vr_id = VerifierRunId 4, vr_finding_id = FindingId 1, vr_campaign_id = CampaignId 2, vr_manifest_hash = ''m'',
      vr_mode = ReproduceCandidate, vr_result = AR_Verified, vr_notes = []\<rparr>"

theorem authority_fails_closed_witness:
  "theustad_adjudicate demo_authority_env theustad_unavailable demo_bundle demo_run = AR_Verified
    \<and> theustad_adjudicate (demo_authority_env\<lparr>au_net := \<lambda>host _ _. if host = ''127.0.0.1'' then Inl ''connection refused'' else Inr []\<rparr>)
         theustad_unavailable demo_bundle demo_run = AR_Verified
    \<and> theustad_adjudicate demo_authority_env \<lparr>ta_endpoint = Some ''http://localhost/a''\<rparr> demo_bundle demo_run
       = AR_InsufficientEvidence
    \<and> theustad_adjudicate (demo_authority_env\<lparr>au_net := \<lambda>host _ _. if host = ''127.0.0.1'' then Inl ''connection refused'' else Inr []\<rparr>)
         \<lparr>ta_endpoint = Some ''http://localhost/a''\<rparr> demo_bundle demo_run = AR_InsufficientEvidence"
proof -
  let ?net' = "\<lambda>host _ _. if host = ''127.0.0.1'' then Inl ''connection refused'' else Inr []"
  have agree: "au_net demo_authority_env ''127.0.0.1'' port bs = ?net' ''127.0.0.1'' port bs" for port bs
    by (simp add: demo_authority_env_def)
  have a: "theustad_adjudicate demo_authority_env theustad_unavailable demo_bundle demo_run = AR_Verified" by code_simp
  have b: "theustad_adjudicate demo_authority_env \<lparr>ta_endpoint = Some ''http://localhost/a''\<rparr> demo_bundle demo_run
      = AR_InsufficientEvidence" by code_simp
  from authority_fails_closed[where net' = ?net', OF agree a] authority_fails_closed[where net' = ?net', OF agree b] a b show ?thesis by blast
qed

end
