(* ===== verification/Oci.thy ===== *)
theory Oci
  imports Ipc_Session "HOL-Library.State_Monad" "HOL-Library.Sublist"
begin

text \<open>
  \<^verbatim>\<open>aros-sandbox/src/campaign_oci.rs\<close> and the probes of \<^verbatim>\<open>aros-sandbox/src/oci.rs\<close>: containers started through
  the \<^verbatim>\<open>podman\<close> command line. The state is the list of commands issued so far; the answer to a command
  (its exit code and output, or nothing when it could not be started, could not be polled or ran
  past its time limit) is an arbitrary function of the commands before it. A command's argument
  vector is the list of its arguments. Fresh identifiers, the environment and the file system are
  arguments.
\<close>

subsection \<open>Commands\<close>

record cmd_output =
  out_code :: "i32 option"
  out_stdout :: bytes
  out_stderr :: bytes

type_synonym argv = "string list"
type_synonym podman_log = "argv list"

record oci_host =
  oh_podman :: "podman_log \<Rightarrow> argv \<Rightarrow> cmd_output option"
  oh_env_var :: "string \<Rightarrow> string option"
  oh_is_file :: "string \<Rightarrow> bool"
  oh_search_path :: "string list"
  oh_canonicalize :: "string \<Rightarrow> string + string"
  oh_from_utf8 :: "bytes \<Rightarrow> string option"
  oh_from_utf8_lossy :: "bytes \<Rightarrow> string"
  oh_show_status :: "i32 option \<Rightarrow> string"
  oh_reserve_port :: "string + u16"
  oh_connects :: "bool list"

definition run_timeout :: "oci_host \<Rightarrow> argv \<Rightarrow> (podman_log, cmd_output option) state" where
  "run_timeout h args = State (\<lambda>log. (oh_podman h log args, log @ [args]))"

definition status_ok :: "cmd_output option \<Rightarrow> bool" where
  "status_ok ans = (case ans of Some out \<Rightarrow> out_code out = Some 0 | None \<Rightarrow> False)"

text \<open>The \<^verbatim>\<open>?\<close> operator in a sequence of commands.\<close>

definition try_bind :: "('s, 'e + 'a) state \<Rightarrow> ('a \<Rightarrow> ('s, 'e + 'b) state) \<Rightarrow> ('s, 'e + 'b) state" where
  "try_bind m f = State_Monad.bind m (\<lambda>r. case r of Inl e \<Rightarrow> State_Monad.return (Inl e) | Inr x \<Rightarrow> f x)"

datatype sandbox_error = SB_FailClosed string | SB_Io string | SB_NotFound string | SB_InvalidState

definition sandbox_error_to_string :: "sandbox_error \<Rightarrow> string" where
  "sandbox_error_to_string e =
     (case e of
        SB_FailClosed m \<Rightarrow> m
      | SB_Io m \<Rightarrow> ''io: '' @ m
      | SB_NotFound m \<Rightarrow> ''sandbox not found: '' @ m
      | SB_InvalidState \<Rightarrow> ''invalid sandbox state transition'')"

definition BINARY_NAME :: string where
  "BINARY_NAME = ''aros''"

definition TARGET_PORT :: u16 where
  "TARGET_PORT = 18080"

definition show_u16 :: "u16 \<Rightarrow> string" where
  "show_u16 p = show_nat (unat p)"

subsection \<open>Reports\<close>

datatype probe_outcome = Proven | Failed | Indeterminate

record containment_report =
  cr_runtime_present :: bool
  cr_machine_reachable :: bool
  cr_internal_network :: bool
  cr_policy_public_internet_deny :: bool
  cr_policy_host_socket_deny :: bool
  cr_target_reachable :: bool
  cr_unauthorized_external_denied :: bool
  cr_dns_bypass_denied :: bool
  cr_host_gateway_denied :: bool
  cr_ipv6_bypass_denied :: bool
  cr_target_reachability_probe :: probe_outcome
  cr_external_egress_probe :: probe_outcome
  cr_dns_bypass_probe :: probe_outcome
  cr_host_gateway_probe :: probe_outcome
  cr_ipv6_bypass_probe :: probe_outcome
  cr_packet_probes_ran :: bool
  cr_notes :: "string list"

definition default_containment_report :: containment_report where
  "default_containment_report =
     \<lparr>cr_runtime_present = False, cr_machine_reachable = False, cr_internal_network = False,
      cr_policy_public_internet_deny = False, cr_policy_host_socket_deny = False,
      cr_target_reachable = False, cr_unauthorized_external_denied = False, cr_dns_bypass_denied = False,
      cr_host_gateway_denied = False, cr_ipv6_bypass_denied = False,
      cr_target_reachability_probe = Indeterminate, cr_external_egress_probe = Indeterminate,
      cr_dns_bypass_probe = Indeterminate, cr_host_gateway_probe = Indeterminate,
      cr_ipv6_bypass_probe = Indeterminate, cr_packet_probes_ran = False, cr_notes = []\<rparr>"

definition packet_isolation_demonstrated :: "containment_report \<Rightarrow> bool" where
  "packet_isolation_demonstrated r =
     (cr_packet_probes_ran r
      \<and> cr_target_reachability_probe r = Proven
      \<and> cr_external_egress_probe r = Proven
      \<and> cr_dns_bypass_probe r = Proven
      \<and> cr_host_gateway_probe r = Proven
      \<and> cr_ipv6_bypass_probe r = Proven)"

definition live_oci_claimable :: "containment_report \<Rightarrow> bool" where
  "live_oci_claimable r =
     (cr_runtime_present r \<and> cr_machine_reachable r \<and> cr_internal_network r \<and> packet_isolation_demonstrated r)"

definition all_demonstrated :: "containment_report \<Rightarrow> bool" where
  "all_demonstrated r =
     (live_oci_claimable r \<and> cr_policy_public_internet_deny r \<and> cr_policy_host_socket_deny r)"

definition combine_denials :: "probe_outcome list \<Rightarrow> probe_outcome" where
  "combine_denials values =
     (if Failed \<in> set values then Failed
      else if list_all (\<lambda>v. v = Proven) values then Proven
      else Indeterminate)"

subsection \<open>Probes of a campaign network\<close>

definition probe_args :: "string \<Rightarrow> string \<Rightarrow> argv \<Rightarrow> argv" where
  "probe_args network img args = [''run'', ''--rm'', ''--network'', network, ''--pull=never'', img] @ args"

definition probe_exec :: "oci_host \<Rightarrow> string \<Rightarrow> string \<Rightarrow> argv \<Rightarrow> (podman_log, cmd_output option) state" where
  "probe_exec h network img args = run_timeout h (probe_args network img args)"

definition nc_args :: "string \<Rightarrow> u16 \<Rightarrow> argv" where
  "nc_args host port = [''nc'', ''-z'', ''-w'', ''2'', host, show_u16 port]"

definition allowed_outcome :: "cmd_output option \<Rightarrow> probe_outcome" where
  "allowed_outcome ans = (if ans = None then Indeterminate else if status_ok ans then Proven else Failed)"

definition denied_outcome :: "cmd_output option \<Rightarrow> probe_outcome" where
  "denied_outcome ans = (if ans = None then Indeterminate else if status_ok ans then Failed else Proven)"

definition allow_transport :: "oci_host \<Rightarrow> string \<Rightarrow> string \<Rightarrow> string \<Rightarrow> u16 \<Rightarrow> (podman_log, probe_outcome) state" where
  "allow_transport h network img host port =
     do {
       ans \<leftarrow> probe_exec h network img (nc_args host port);
       State_Monad.return (allowed_outcome ans)
     }"

definition deny_transport :: "oci_host \<Rightarrow> string \<Rightarrow> string \<Rightarrow> string \<Rightarrow> u16 \<Rightarrow> (podman_log, probe_outcome) state" where
  "deny_transport h network img host port =
     do {
       ans \<leftarrow> probe_exec h network img (nc_args host port);
       State_Monad.return (denied_outcome ans)
     }"

definition deny_command :: "oci_host \<Rightarrow> string \<Rightarrow> string \<Rightarrow> argv \<Rightarrow> (podman_log, probe_outcome) state" where
  "deny_command h network img args =
     do {
       ans \<leftarrow> probe_exec h network img args;
       State_Monad.return (denied_outcome ans)
     }"

text \<open>The gateway in the output of \<^verbatim>\<open>podman network inspect\<close>; a value that is not closed ends the search.\<close>

definition gateway_at :: "string \<Rightarrow> string \<Rightarrow> string option option" where
  "gateway_at inspect_text key =
     (case find_split key (to_ascii_lowercase inspect_text) of
        None \<Rightarrow> Some None
      | Some (before, _) \<Rightarrow>
          (case find_split [CHR 0x22] (drop (length before + length key) inspect_text) of
             None \<Rightarrow> None
           | Some (value, _) \<Rightarrow>
               Some (if trim value \<noteq> [] \<and> trim value \<noteq> ''null'' then Some (trim value) else None)))"

definition gateway_key_spaced :: string where
  "gateway_key_spaced = [CHR 0x22] @ ''gateway'' @ [CHR 0x22] @ '': '' @ [CHR 0x22]"

definition gateway_key_dense :: string where
  "gateway_key_dense = [CHR 0x22] @ ''gateway'' @ [CHR 0x22] @ '':'' @ [CHR 0x22]"

definition extract_gateway :: "string \<Rightarrow> string option" where
  "extract_gateway inspect_text =
     (case gateway_at inspect_text gateway_key_spaced of
        None \<Rightarrow> None
      | Some (Some value) \<Rightarrow> Some value
      | Some None \<Rightarrow>
          (case gateway_at inspect_text gateway_key_dense of Some (Some value) \<Rightarrow> Some value | _ \<Rightarrow> None))"

definition reports_internal :: "string \<Rightarrow> bool" where
  "reports_internal text =
     (let lower = to_ascii_lowercase text in
      str_contains lower ([CHR 0x22] @ ''internal'' @ [CHR 0x22] @ '': true'')
      \<or> str_contains lower ([CHR 0x22] @ ''internal'' @ [CHR 0x22] @ '':true''))"

subsection \<open>Images\<close>

definition may_pull :: "oci_host \<Rightarrow> bool" where
  "may_pull h = (case oh_env_var h (env_name ''OCI_PULL'') of Some v \<Rightarrow> v \<noteq> ''0'' | None \<Rightarrow> True)"

definition image_exists :: "oci_host \<Rightarrow> string \<Rightarrow> (podman_log, bool) state" where
  "image_exists h img =
     do {
       ans \<leftarrow> run_timeout h [''image'', ''exists'', img];
       State_Monad.return (status_ok ans)
     }"

fun first_image :: "oci_host \<Rightarrow> string list \<Rightarrow> (podman_log, string option) state" where
  "first_image h [] = State_Monad.return None"
| "first_image h (c # cs) =
     do {
       found \<leftarrow> image_exists h c;
       if found then State_Monad.return (Some c) else first_image h cs
     }"

definition pull_image :: "oci_host \<Rightarrow> string \<Rightarrow> (podman_log, string option) state" where
  "pull_image h img =
     (if \<not> may_pull h then State_Monad.return None
      else do {
        ans \<leftarrow> run_timeout h [''pull'', img];
        State_Monad.return (if status_ok ans then Some img else None)
      })"

definition resolve_probe_image :: "oci_host \<Rightarrow> (podman_log, string option) state" where
  "resolve_probe_image h =
     do {
       found \<leftarrow> first_image h [''alpine'', ''docker.io/library/alpine:latest'', ''busybox''];
       (case found of
          Some img \<Rightarrow> State_Monad.return (Some img)
        | None \<Rightarrow> pull_image h ''docker.io/library/alpine:latest'')
     }"

definition configured_image :: "oci_host \<Rightarrow> string \<Rightarrow> string \<Rightarrow> string" where
  "configured_image h var fallback =
     (case oh_env_var h (env_name var) of
        Some value \<Rightarrow> if trim value \<noteq> [] then value else fallback
      | None \<Rightarrow> fallback)"

definition resolve_image :: "oci_host \<Rightarrow> string \<Rightarrow> (podman_log, string option) state" where
  "resolve_image h img =
     do {
       found \<leftarrow> image_exists h img;
       if found then State_Monad.return (Some img) else pull_image h img
     }"

definition resolve_target_image :: "oci_host \<Rightarrow> (podman_log, string option) state" where
  "resolve_target_image h =
     resolve_image h (configured_image h ''TARGET_CONTAINER_IMAGE'' ''docker.io/library/python:3.14-alpine'')"

text \<open>\<^verbatim>\<open>Path::file_name\<close>.\<close>

definition file_name :: "string \<Rightarrow> string option" where
  "file_name p =
     (let comps = filter (\<lambda>c. c \<noteq> [] \<and> c \<noteq> ''.'') (split_on (CHR ''/'') p)
      in if comps = [] \<or> last comps = ''..'' then None else Some (last comps))"

definition resolve_generator_image :: "oci_host \<Rightarrow> string \<Rightarrow> (podman_log, sandbox_error + string) state" where
  "resolve_generator_image h exe =
     (let base = to_ascii_lowercase (unwrap_or exe (file_name exe)) in
      if starts_with base ''python'' then
        do {
          img \<leftarrow> resolve_target_image h;
          State_Monad.return (ok_or img (SB_FailClosed ''Python OCI image unavailable for contained generator''))
        }
      else if starts_with base ''cargo'' \<or> base = ''rustc'' then
        do {
          img \<leftarrow> resolve_image h (configured_image h ''RUST_CONTAINER_IMAGE'' ''docker.io/library/rust:1-bookworm'');
          State_Monad.return (ok_or img (SB_FailClosed ''Rust OCI image unavailable for contained cargo generator''))
        }
      else State_Monad.return (Inl (SB_FailClosed (''no contained image mapping for generator '' @ base))))"

subsection \<open>Networks\<close>

definition create_args :: "string \<Rightarrow> argv" where
  "create_args network = [''network'', ''create'', ''--internal'', network]"

definition create_internal_network :: "oci_host \<Rightarrow> string \<Rightarrow> (podman_log, sandbox_error + unit) state" where
  "create_internal_network h network =
     do {
       created \<leftarrow> run_timeout h (create_args network);
       State_Monad.return
         (case created of
            Some out \<Rightarrow>
              if out_code out = Some 0 then Inr ()
              else Inl (SB_FailClosed (''campaign network create failed: '' @ oh_from_utf8_lossy h (out_stderr out)))
          | None \<Rightarrow> Inl (SB_FailClosed ''campaign network create timed out''))
     }"

definition inspect_args :: "string \<Rightarrow> argv" where
  "inspect_args network = [''network'', ''inspect'', network]"

definition inspect_internal_network :: "oci_host \<Rightarrow> string \<Rightarrow> (podman_log, sandbox_error + string) state" where
  "inspect_internal_network h network =
     do {
       ans \<leftarrow> run_timeout h (inspect_args network);
       State_Monad.return
         (case ans of
            None \<Rightarrow> Inl (SB_FailClosed ''campaign network inspect timed out'')
          | Some out \<Rightarrow>
              if out_code out \<noteq> Some 0 then Inl (SB_FailClosed ''campaign network inspect failed'')
              else case oh_from_utf8 h (out_stdout out) of
                     None \<Rightarrow> Inl (SB_FailClosed ''campaign network inspect was not UTF-8'')
                   | Some text \<Rightarrow>
                       if \<not> reports_internal text
                       then Inl (SB_FailClosed ''campaign network is not reported as internal'')
                       else Inr text)
     }"

definition preflight_args :: argv where
  "preflight_args =
     [''sh'', ''-c'', ''command -v nc >/dev/null && command -v ping >/dev/null && command -v nslookup >/dev/null'']"

definition listener_args :: "string \<Rightarrow> string \<Rightarrow> string \<Rightarrow> argv" where
  "listener_args name network img =
     [''run'', ''-d'', ''--name'', name, ''--network'', network, ''--pull=never'', img,
      ''sh'', ''-c'', ''nc -l -p 18080 >/dev/null 2>&1'']"

definition dns_args :: argv where
  "dns_args = [''nslookup'', ''example.com'', ''8.8.8.8'']"

definition ping_args :: "string \<Rightarrow> argv" where
  "ping_args gateway = [''ping'', ''-c'', ''1'', ''-W'', ''2'', gateway]"

definition ping6_args :: argv where
  "ping6_args = [''ping'', ''-6'', ''-c'', ''1'', ''-W'', ''2'', ''2001:4860:4860::8888'']"

definition probe_reachability :: "oci_host \<Rightarrow> string \<Rightarrow> string \<Rightarrow> string \<Rightarrow> (podman_log, probe_outcome) state" where
  "probe_reachability h network img probe_target =
     do {
       started \<leftarrow> run_timeout h (listener_args probe_target network img);
       (if started = None then State_Monad.return Indeterminate
        else if status_ok started then allow_transport h network img probe_target 18080
        else State_Monad.return Failed)
     }"

definition probe_gateway :: "oci_host \<Rightarrow> string \<Rightarrow> string \<Rightarrow> string \<Rightarrow> (podman_log, probe_outcome) state" where
  "probe_gateway h network img inspect_text =
     (case extract_gateway inspect_text of
        None \<Rightarrow> State_Monad.return Proven
      | Some gateway \<Rightarrow>
          do {
            ping \<leftarrow> deny_command h network img (ping_args gateway);
            http \<leftarrow> deny_transport h network img gateway 80;
            State_Monad.return (combine_denials [ping, http])
          })"

definition campaign_report ::
    "string \<Rightarrow> string \<Rightarrow> probe_outcome \<Rightarrow> probe_outcome \<Rightarrow> probe_outcome \<Rightarrow> probe_outcome \<Rightarrow> probe_outcome \<Rightarrow> containment_report" where
  "campaign_report network img reach egress dns gateway ipv6 =
     \<lparr>cr_runtime_present = True, cr_machine_reachable = True, cr_internal_network = True,
      cr_policy_public_internet_deny = True, cr_policy_host_socket_deny = True,
      cr_target_reachable = (reach = Proven), cr_unauthorized_external_denied = (egress = Proven),
      cr_dns_bypass_denied = (dns = Proven), cr_host_gateway_denied = (gateway = Proven),
      cr_ipv6_bypass_denied = (ipv6 = Proven),
      cr_target_reachability_probe = reach, cr_external_egress_probe = egress, cr_dns_bypass_probe = dns,
      cr_host_gateway_probe = gateway, cr_ipv6_bypass_probe = ipv6, cr_packet_probes_ran = True,
      cr_notes = [''campaign-bound network='' @ network @ ''; probe_image='' @ img]\<rparr>"

definition run_probes :: "oci_host \<Rightarrow> string \<Rightarrow> string \<Rightarrow> string \<Rightarrow> string \<Rightarrow> (podman_log, containment_report) state" where
  "run_probes h probe_target network inspect_text img =
     do {
       reach \<leftarrow> probe_reachability h network img probe_target;
       egress \<leftarrow> deny_transport h network img ''1.1.1.1'' 80;
       dns_direct \<leftarrow> deny_command h network img dns_args;
       dns_transport \<leftarrow> deny_transport h network img ''one.one.one.one'' 80;
       gateway \<leftarrow> probe_gateway h network img inspect_text;
       ipv6 \<leftarrow> deny_command h network img ping6_args;
       _ \<leftarrow> run_timeout h [''rm'', ''-f'', probe_target];
       State_Monad.return (campaign_report network img reach egress (combine_denials [dns_direct, dns_transport]) gateway ipv6)
     }"

definition probe_campaign_network ::
    "oci_host \<Rightarrow> string \<Rightarrow> string \<Rightarrow> string \<Rightarrow> (podman_log, sandbox_error + containment_report) state" where
  "probe_campaign_network h probe_target network inspect_text =
     do {
       resolved \<leftarrow> resolve_probe_image h;
       (case resolved of
          None \<Rightarrow> State_Monad.return (Inl (SB_FailClosed ''alpine/busybox probe image unavailable''))
        | Some img \<Rightarrow>
            do {
              preflight \<leftarrow> probe_exec h network img preflight_args;
              (if \<not> status_ok preflight
               then State_Monad.return (Inl (SB_FailClosed ''campaign network probe tools are unavailable''))
               else do {
                 report \<leftarrow> run_probes h probe_target network inspect_text img;
                 State_Monad.return (Inr report)
               })
            })
     }"

subsection \<open>Contained execution\<close>

fun find_podman_in :: "(string \<Rightarrow> bool) \<Rightarrow> string list \<Rightarrow> string option" where
  "find_podman_in is_file [] = None"
| "find_podman_in is_file (dir # dirs) =
     (if is_file (path_join dir ''podman'') then Some (path_join dir ''podman'')
      else if is_file (path_join dir ''podman.exe'') then Some (path_join dir ''podman.exe'')
      else find_podman_in is_file dirs)"

definition find_podman :: "oci_host \<Rightarrow> string option" where
  "find_podman h =
     (case oh_env_var h (env_name ''PODMAN'') of
        Some p \<Rightarrow> if oh_is_file h p then Some p else find_podman_in (oh_is_file h) (oh_search_path h)
      | None \<Rightarrow> find_podman_in (oh_is_file h) (oh_search_path h))"

definition podman_reachable :: "oci_host \<Rightarrow> (podman_log, bool) state" where
  "podman_reachable h =
     do {
       ans \<leftarrow> run_timeout h [''info''];
       State_Monad.return (status_ok ans)
     }"

definition cleanup :: "oci_host \<Rightarrow> string \<Rightarrow> string \<Rightarrow> (podman_log, unit) state" where
  "cleanup h container network =
     do {
       _ \<leftarrow> run_timeout h [''rm'', ''-f'', container];
       _ \<leftarrow> run_timeout h [''network'', ''rm'', ''-f'', network];
       State_Monad.return ()
     }"

definition harness_args :: "oci_host \<Rightarrow> string option \<Rightarrow> argv" where
  "harness_args h harness_root =
     (case harness_root of
        None \<Rightarrow> []
      | Some harness \<Rightarrow>
          let path = unwrap_or harness (res_ok (oh_canonicalize h harness))
          in [''--volume'', path @ '':/aros-harness:ro'', ''--env'', ''AROS_BIND_FILE=/aros-harness/bind.json''])"

definition generator_args ::
    "oci_host \<Rightarrow> string \<Rightarrow> string \<Rightarrow> string \<Rightarrow> string \<Rightarrow> argv \<Rightarrow> u32 \<Rightarrow> string option \<Rightarrow> argv" where
  "generator_args h root img network container args memory_mb harness_root =
     [''run'', ''--rm'', ''--name'', container, ''--network'', network, ''--pull=never'', ''--cap-drop=ALL'',
      ''--security-opt'', ''no-new-privileges'', ''--pids-limit'', ''128'', ''--memory'', show_nat (unat memory_mb) @ ''m'',
      ''--cpus'', ''1'', ''--volume'', root @ '':/work:rw'', ''--workdir'', ''/work'', ''--env'', ''AROS_TARGET_ROOT=/work'']
     @ harness_args h harness_root @ [img] @ args"

definition generator_output :: "oci_host \<Rightarrow> cmd_output option \<Rightarrow> sandbox_error + string" where
  "generator_output h ans =
     (case ans of
        None \<Rightarrow> Inl (SB_FailClosed ''contained generator timed out'')
      | Some out \<Rightarrow>
          let text = oh_from_utf8_lossy h (out_stdout out)
                @ (if out_stderr out \<noteq> [] then [newline] @ oh_from_utf8_lossy h (out_stderr out) else [])
          in if out_code out \<noteq> Some 0 \<and> trim text = []
             then Inl (SB_FailClosed (''contained generator exited '' @ oh_show_status h (out_code out)))
             else Inr text)"

definition not_contained :: sandbox_error where
  "not_contained = SB_FailClosed ''campaign network did not prove all five containment dimensions''"

definition exec_on_network ::
    "oci_host \<Rightarrow> string \<Rightarrow> string \<Rightarrow> string \<Rightarrow> string \<Rightarrow> string \<Rightarrow> argv \<Rightarrow> u32 \<Rightarrow> string option
      \<Rightarrow> (podman_log, sandbox_error + string) state" where
  "exec_on_network h probe_target root img network container args memory_mb harness_root =
     try_bind (inspect_internal_network h network) (\<lambda>inspect_text.
     try_bind (probe_campaign_network h probe_target network inspect_text) (\<lambda>report.
     if \<not> live_oci_claimable report then State_Monad.return (Inl not_contained)
     else do {
       ans \<leftarrow> run_timeout h (generator_args h root img network container args memory_mb harness_root);
       State_Monad.return (generator_output h ans)
     }))"

definition require_runtime :: "oci_host \<Rightarrow> string \<Rightarrow> (podman_log, sandbox_error + unit) state" where
  "require_runtime h missing =
     (if find_podman h = None then State_Monad.return (Inl (SB_FailClosed missing))
      else do {
        reachable \<leftarrow> podman_reachable h;
        State_Monad.return
          (if reachable then Inr ()
           else Inl (SB_FailClosed ''Podman exists but its rootless machine/runtime is unreachable''))
      })"

text \<open>\<open>sid\<close> and \<open>pid\<close> are the fresh identifiers of the sandbox and of the probe target.\<close>

definition gen_network :: "string \<Rightarrow> string" where
  "gen_network sid = BINARY_NAME @ ''-gen-'' @ sid"

definition gen_container :: "string \<Rightarrow> string" where
  "gen_container sid = BINARY_NAME @ ''-gen-'' @ sid @ ''-run''"

definition probe_name :: "string \<Rightarrow> string" where
  "probe_name pid = BINARY_NAME @ ''-probe-'' @ pid"

definition exec_generator_ex ::
    "oci_host \<Rightarrow> string \<Rightarrow> string \<Rightarrow> string \<Rightarrow> argv \<Rightarrow> u32 \<Rightarrow> string option \<Rightarrow> (podman_log, sandbox_error + string) state" where
  "exec_generator_ex h sid pid target_root args memory_mb harness_root =
     (case args of
        [] \<Rightarrow> State_Monad.return (Inl (SB_FailClosed ''generator argv is empty''))
      | exe # _ \<Rightarrow>
          try_bind (require_runtime h ''rootless Podman is required for contained generator execution'') (\<lambda>_.
          try_bind (State_Monad.return (map_err SB_Io (oh_canonicalize h target_root))) (\<lambda>root.
          try_bind (resolve_generator_image h exe) (\<lambda>img.
          try_bind (create_internal_network h (gen_network sid)) (\<lambda>_.
          do {
            result \<leftarrow> exec_on_network h (probe_name pid) root img (gen_network sid) (gen_container sid) args memory_mb harness_root;
            _ \<leftarrow> cleanup h (gen_container sid) (gen_network sid);
            State_Monad.return result
          })))))"

definition exec_generator ::
    "oci_host \<Rightarrow> string \<Rightarrow> string \<Rightarrow> string \<Rightarrow> argv \<Rightarrow> u32 \<Rightarrow> (podman_log, sandbox_error + string) state" where
  "exec_generator h sid pid target_root args memory_mb = exec_generator_ex h sid pid target_root args memory_mb None"

subsection \<open>Contained targets\<close>

record campaign_oci_target =
  ct_sandbox_id :: string
  ct_container_id :: string
  ct_host_port :: u16
  ct_containment_report :: containment_report
  ct_network_name :: string
  ct_container_name :: string
  ct_stopped :: bool

definition target_args :: "string \<Rightarrow> string \<Rightarrow> string \<Rightarrow> string \<Rightarrow> u16 \<Rightarrow> argv" where
  "target_args root img network container host_port =
     [''run'', ''-d'', ''--name'', container, ''--network'', network, ''--pull=never'', ''--read-only'', ''--cap-drop=ALL'',
      ''--security-opt'', ''no-new-privileges'', ''--pids-limit'', ''128'', ''--memory'', ''256m'', ''--cpus'', ''1'',
      ''--tmpfs'', ''/tmp:rw,noexec,nosuid,size=32m'',
      ''--publish'', ''127.0.0.1:'' @ show_u16 host_port @ '':'' @ show_u16 TARGET_PORT,
      ''--volume'', root @ '':/target:ro'', ''--workdir'', ''/target'',
      ''--env'', ''SECURITY_FIXTURE_BIND=0.0.0.0'', ''--env'', ''SECURITY_FIXTURE_PORT='' @ show_u16 TARGET_PORT,
      img, ''python'', ''server.py'']"

definition started_container :: "oci_host \<Rightarrow> cmd_output option \<Rightarrow> sandbox_error + string" where
  "started_container h ans =
     (case ans of
        None \<Rightarrow> Inl (SB_FailClosed ''contained target launch timed out'')
      | Some out \<Rightarrow>
          if out_code out \<noteq> Some 0
          then Inl (SB_FailClosed (''contained target launch failed: '' @ oh_from_utf8_lossy h (out_stderr out)))
          else case oh_from_utf8 h (out_stdout out) of
                 None \<Rightarrow> Inl (SB_FailClosed ''Podman container id was not UTF-8'')
               | Some text \<Rightarrow>
                   if trim text = [] then Inl (SB_FailClosed ''Podman did not return a concrete target container id'')
                   else Inr (trim text))"

text \<open>\<open>oh_connects\<close> are the attempts to connect up to the deadline.\<close>

definition start_on_created_network ::
    "oci_host \<Rightarrow> string \<Rightarrow> string \<Rightarrow> string \<Rightarrow> string \<Rightarrow> string \<Rightarrow> string \<Rightarrow> (podman_log, sandbox_error + campaign_oci_target) state" where
  "start_on_created_network h probe_target root img sid network container =
     try_bind (inspect_internal_network h network) (\<lambda>inspect_text.
     try_bind (probe_campaign_network h probe_target network inspect_text) (\<lambda>report.
     if \<not> live_oci_claimable report then State_Monad.return (Inl not_contained)
     else try_bind (State_Monad.return (map_err SB_Io (oh_reserve_port h))) (\<lambda>host_port.
     try_bind (do {
         ans \<leftarrow> run_timeout h (target_args root img network container host_port);
         State_Monad.return (started_container h ans)
       }) (\<lambda>container_id.
     State_Monad.return
       (if True \<in> set (oh_connects h) then
          Inr \<lparr>ct_sandbox_id = sid, ct_container_id = container_id, ct_host_port = host_port, ct_containment_report = report,
               ct_network_name = network, ct_container_name = container, ct_stopped = False\<rparr>
        else Inl (SB_FailClosed ''contained target did not become reachable through trusted loopback publication''))))))"

definition target_network :: "string \<Rightarrow> string" where
  "target_network sid = BINARY_NAME @ ''-campaign-'' @ sid"

definition target_container :: "string \<Rightarrow> string" where
  "target_container sid = BINARY_NAME @ ''-campaign-'' @ sid @ ''-target''"

definition target_start :: "oci_host \<Rightarrow> string \<Rightarrow> string \<Rightarrow> string \<Rightarrow> (podman_log, sandbox_error + campaign_oci_target) state" where
  "target_start h sid pid target_root =
     try_bind (require_runtime h ''rootless Podman is required for contained target execution'') (\<lambda>_.
     try_bind (State_Monad.return (map_err SB_Io (oh_canonicalize h target_root))) (\<lambda>root.
     if \<not> oh_is_file h (path_join root ''server.py'')
     then State_Monad.return (Inl (SB_FailClosed ''contained fixture target must contain server.py''))
     else try_bind (do {
         img \<leftarrow> resolve_target_image h;
         State_Monad.return (ok_or img (SB_FailClosed
           ''Python OCI target image is unavailable; configure TARGET_CONTAINER_IMAGE or enable OCI_PULL''))
       }) (\<lambda>img.
     try_bind (create_internal_network h (target_network sid)) (\<lambda>_.
     do {
       result \<leftarrow> start_on_created_network h (probe_name pid) root img sid (target_network sid) (target_container sid);
       (if is_ok result then State_Monad.return result
        else do {
          _ \<leftarrow> cleanup h (target_container sid) (target_network sid);
          State_Monad.return result
        })
     }))))"

definition target_stop :: "oci_host \<Rightarrow> campaign_oci_target \<Rightarrow> (podman_log, campaign_oci_target) state" where
  "target_stop h t =
     (if ct_stopped t then State_Monad.return t
      else do {
        _ \<leftarrow> cleanup h (ct_container_name t) (ct_network_name t);
        State_Monad.return (t\<lparr>ct_stopped := True\<rparr>)
      })"

subsection \<open>What a run of commands shows\<close>

text \<open>\<open>did h l l' args P\<close>: between the logs \<open>l\<close> and \<open>l'\<close> the command \<open>args\<close> was issued and its answer satisfied \<open>P\<close>.\<close>

definition did :: "oci_host \<Rightarrow> podman_log \<Rightarrow> podman_log \<Rightarrow> argv \<Rightarrow> (cmd_output option \<Rightarrow> bool) \<Rightarrow> bool" where
  "did h l l' args P \<longleftrightarrow> (\<exists>mid rest. l' = l @ mid @ args # rest \<and> P (oh_podman h (l @ mid) args))"

definition refused :: "cmd_output option \<Rightarrow> bool" where
  "refused ans \<longleftrightarrow> ans \<noteq> None \<and> \<not> status_ok ans"

definition inspected :: "oci_host \<Rightarrow> string \<Rightarrow> cmd_output option \<Rightarrow> bool" where
  "inspected h text ans \<longleftrightarrow>
     status_ok ans \<and> Option.bind ans (\<lambda>out. oh_from_utf8 h (out_stdout out)) = Some text \<and> reports_internal text"

text \<open>The network was seen to be isolated: the runtime reports it as internal, a peer on it was reached, and every
  attempt to leave it (a public address, a public resolver, a public name, IPv6, and the gateway
  when there is one) was answered with a failure.\<close>

definition isolated :: "oci_host \<Rightarrow> podman_log \<Rightarrow> podman_log \<Rightarrow> string \<Rightarrow> bool" where
  "isolated h l l' network \<longleftrightarrow>
     (\<exists>text img peer.
        did h l l' (inspect_args network) (inspected h text)
        \<and> did h l l' (listener_args peer network img) status_ok
        \<and> did h l l' (probe_args network img (nc_args peer 18080)) status_ok
        \<and> did h l l' (probe_args network img (nc_args ''1.1.1.1'' 80)) refused
        \<and> did h l l' (probe_args network img dns_args) refused
        \<and> did h l l' (probe_args network img (nc_args ''one.one.one.one'' 80)) refused
        \<and> did h l l' (probe_args network img ping6_args) refused
        \<and> (\<forall>gateway. extract_gateway text = Some gateway \<longrightarrow>
             did h l l' (probe_args network img (ping_args gateway)) refused
             \<and> did h l l' (probe_args network img (nc_args gateway 80)) refused))"

text \<open>The commands that start the program under test, as opposed to probes.\<close>

definition starts_workload :: "argv \<Rightarrow> bool" where
  "starts_workload c \<longleftrightarrow>
     take 3 c = [''run'', ''--rm'', ''--name''] \<or> take 2 c = [''run'', ''-d''] \<and> ''--read-only'' \<in> set (take 8 c)"

text \<open>Commands only extend the log, here with commands that satisfy \<open>S\<close>.\<close>

definition emits :: "(argv \<Rightarrow> bool) \<Rightarrow> (podman_log, 'a) state \<Rightarrow> bool" where
  "emits S m \<longleftrightarrow> (\<forall>l r l'. run_state m l = (r, l') \<longrightarrow> (\<exists>new. l' = l @ new \<and> list_all S new))"

named_theorems emits_intros \<open>commands issued by an operation\<close>

lemma emitsD: "emits S m \<Longrightarrow> run_state m l = (r, l') \<Longrightarrow> \<exists>new. l' = l @ new \<and> list_all S new"
  by (auto simp: emits_def)

lemma emits_return [emits_intros]: "emits S (State_Monad.return x)"
  by (auto simp: emits_def)

lemma emits_run [emits_intros]: "S args \<Longrightarrow> emits S (run_timeout h args)"
  by (auto simp: emits_def run_timeout_def)

lemma emits_bind_result:
  assumes "emits S m" "\<And>x l l'. run_state m l = (x, l') \<Longrightarrow> emits S (f x)"
  shows "emits S (State_Monad.bind m f)"
  unfolding emits_def
proof (intro allI impI)
  fix l r l'
  assume "run_state (State_Monad.bind m f) l = (r, l')"
  then obtain x l1 where "run_state m l = (x, l1)" "run_state (f x) l1 = (r, l')" by (auto split: prod.splits)
  with assms show "\<exists>new. l' = l @ new \<and> list_all S new" by (fastforce dest: emitsD)
qed

lemma emits_bind [emits_intros]: "emits S m \<Longrightarrow> (\<And>x. emits S (f x)) \<Longrightarrow> emits S (State_Monad.bind m f)"
  by (rule emits_bind_result)

lemma emits_try_bind [emits_intros]: "emits S m \<Longrightarrow> (\<And>x. emits S (f x)) \<Longrightarrow> emits S (try_bind m f)"
  unfolding try_bind_def by (intro emits_bind) (auto split: sum.split intro: emits_return)

lemma emits_if [emits_intros]: "(b \<Longrightarrow> emits S m) \<Longrightarrow> (\<not> b \<Longrightarrow> emits S n) \<Longrightarrow> emits S (if b then m else n)"
  by simp

lemma emits_option [emits_intros]:
  "emits S m \<Longrightarrow> (\<And>x. emits S (f x)) \<Longrightarrow> emits S (case v of None \<Rightarrow> m | Some x \<Rightarrow> f x)"
  by (cases v) auto

lemma emits_mono: "emits S m \<Longrightarrow> (\<And>c. S c \<Longrightarrow> S' c) \<Longrightarrow> emits S' m"
  unfolding emits_def list_all_iff by blast

text \<open>Steps of a run.\<close>

lemma run_bindE:
  assumes "run_state (State_Monad.bind m f) l = (r, l')"
  obtains x l1 where "run_state m l = (x, l1)" "run_state (f x) l1 = (r, l')"
  using assms by (auto split: prod.splits)

lemma run_try_bindE:
  assumes "run_state (try_bind m f) l = (r, l')"
  obtains (err) e where "run_state m l = (Inl e, l')" "r = Inl e"
    | (ok) x l1 where "run_state m l = (Inr x, l1)" "run_state (f x) l1 = (r, l')"
  using assms by (auto simp: try_bind_def split: prod.splits sum.splits)

lemma run_timeout_run: "run_state (run_timeout h args) l = (r, l') \<longleftrightarrow> r = oh_podman h l args \<and> l' = l @ [args]"
  by (auto simp: run_timeout_def)

lemma did_run: "P (oh_podman h l args) \<Longrightarrow> did h l (l @ [args]) args P"
  unfolding did_def by (intro exI[of _ "[]"]) simp

lemma did_later: "did h l l' args P \<Longrightarrow> prefix l' l'' \<Longrightarrow> did h l l'' args P"
  by (auto simp: did_def prefix_def) blast

lemma did_earlier:
  assumes "did h l1 l' args P" "prefix l l1"
  shows "did h l l' args P"
proof -
  from assms obtain mid rest zs where "l1 = l @ zs" "l' = l1 @ mid @ args # rest" "P (oh_podman h (l1 @ mid) args)"
    by (auto simp: did_def prefix_def)
  then show ?thesis unfolding did_def by (intro exI[of _ "zs @ mid"] exI[of _ rest]) simp
qed

lemma did_within: "did h l1 l2 args P \<Longrightarrow> prefix l l1 \<Longrightarrow> prefix l2 l' \<Longrightarrow> did h l l' args P"
  by (blast intro: did_earlier did_later)

lemma isolated_within: "isolated h l1 l2 network \<Longrightarrow> prefix l l1 \<Longrightarrow> prefix l2 l' \<Longrightarrow> isolated h l l' network"
  unfolding isolated_def by (meson did_within)

text \<open>No operation of a probe starts the program under test.\<close>

definition quiet :: "argv \<Rightarrow> bool" where
  "quiet c \<longleftrightarrow> \<not> starts_workload c"

definition probe_images :: "string set" where
  "probe_images = {''alpine'', ''docker.io/library/alpine:latest'', ''busybox''}"

lemma first_image_result: "run_state (first_image h cs) l = (Some img, l') \<Longrightarrow> img \<in> set cs"
  by (induction cs arbitrary: l) (auto split: prod.splits if_splits)

lemma resolve_probe_image_result:
  assumes "run_state (resolve_probe_image h) l = (Some img, l')"
  shows "img \<in> probe_images"
  using assms unfolding resolve_probe_image_def
  by (elim run_bindE)
     (auto simp: probe_images_def pull_image_def dest!: first_image_result split: option.splits if_splits prod.splits)

lemmas quiet_simps = quiet_def starts_workload_def probe_args_def inspect_args_def create_args_def

lemma quiet_probe [simp]: "quiet (probe_args network img args)"
  by (simp add: quiet_simps)

lemma quiet_listener: "img \<in> probe_images \<Longrightarrow> network \<noteq> ''--read-only'' \<Longrightarrow> name \<noteq> ''--read-only'' \<Longrightarrow> quiet (listener_args name network img)"
  by (auto simp: quiet_simps listener_args_def probe_images_def)

text \<open>The commands before a network is created ask for information and images.\<close>

definition early :: "argv \<Rightarrow> bool" where
  "early c \<longleftrightarrow> c \<noteq> [] \<and> hd c \<in> {''info'', ''image'', ''pull''}"

lemma early_quiet: "early c \<Longrightarrow> quiet c"
  by (cases c) (auto simp: early_def quiet_simps)

lemma early_not_create: "early c \<Longrightarrow> c \<noteq> create_args network"
  by (auto simp: early_def create_args_def)

lemma early_image_exists [emits_intros]: "emits early (image_exists h img)"
  unfolding image_exists_def by (intro emits_intros) (simp add: early_def)

lemma early_first_image [emits_intros]: "emits early (first_image h cs)"
  by (induction cs) (auto intro!: emits_intros)

lemma early_pull_image [emits_intros]: "emits early (pull_image h img)"
  unfolding pull_image_def by (intro emits_intros) (simp add: early_def)

lemma early_resolve [emits_intros]:
  "emits early (resolve_probe_image h)" "emits early (resolve_image h img)" "emits early (resolve_generator_image h exe)"
  "emits early (resolve_target_image h)" "emits early (require_runtime h missing)"
  unfolding resolve_probe_image_def resolve_image_def resolve_generator_image_def resolve_target_image_def Let_def
    require_runtime_def podman_reachable_def
  by (intro emits_intros; simp add: early_def)+

lemma emits_early: "emits early m \<Longrightarrow> emits quiet m"
  by (erule emits_mono) (rule early_quiet)

lemmas emits_resolve [emits_intros] = early_resolve[THEN emits_early]

lemma emits_probe [emits_intros]:
  "emits quiet (probe_exec h network img args)" "emits quiet (allow_transport h network img host port)"
  "emits quiet (deny_transport h network img host port)" "emits quiet (deny_command h network img args)"
  "emits quiet (probe_gateway h network img text)"
  unfolding probe_exec_def allow_transport_def deny_transport_def deny_command_def probe_gateway_def
  by (intro emits_intros; simp)+

lemma emits_network [emits_intros]:
  "emits quiet (create_internal_network h network)" "emits quiet (inspect_internal_network h network)"
  "emits quiet (cleanup h container network)"
  unfolding create_internal_network_def inspect_internal_network_def cleanup_def
  by (intro emits_intros; simp add: quiet_simps)+

lemma emits_reachability:
  "img \<in> probe_images \<Longrightarrow> network \<noteq> ''--read-only'' \<Longrightarrow> name \<noteq> ''--read-only'' \<Longrightarrow> emits quiet (probe_reachability h network img name)"
  unfolding probe_reachability_def by (intro emits_intros quiet_listener) auto

lemma emits_run_probes:
  "img \<in> probe_images \<Longrightarrow> network \<noteq> ''--read-only'' \<Longrightarrow> name \<noteq> ''--read-only'' \<Longrightarrow> emits quiet (run_probes h name network text img)"
  unfolding run_probes_def by (intro emits_intros emits_reachability) (simp_all add: quiet_simps)

lemma emits_probe_campaign_network:
  assumes "network \<noteq> ''--read-only''" "name \<noteq> ''--read-only''"
  shows "emits quiet (probe_campaign_network h name network text)"
  unfolding probe_campaign_network_def
proof (rule emits_bind_result, rule emits_resolve, goal_cases)
  case (1 resolved l l')
  then show ?case using assms
    by (cases resolved) (auto intro!: emits_intros emits_run_probes resolve_probe_image_result)
qed

text \<open>What the outcome of a probe says of the commands it issued.\<close>

lemma denied_outcome_Proven: "denied_outcome ans = Proven \<longleftrightarrow> refused ans"
  by (simp add: denied_outcome_def refused_def)

lemma allowed_outcome_Proven: "allowed_outcome ans = Proven \<longleftrightarrow> status_ok ans"
  by (auto simp: allowed_outcome_def status_ok_def)

lemma combine_denials_Proven: "combine_denials values = Proven \<longleftrightarrow> (\<forall>v \<in> set values. v = Proven)"
  by (auto simp: combine_denials_def list_all_iff)

lemma deny_transport_run:
  "run_state (deny_transport h network img host port) l = (res, l') \<Longrightarrow>
     prefix l l' \<and> (res = Proven \<longrightarrow> did h l l' (probe_args network img (nc_args host port)) refused)"
  by (auto simp: deny_transport_def probe_exec_def run_timeout_def denied_outcome_Proven did_run)

lemma deny_command_run:
  "run_state (deny_command h network img args) l = (res, l') \<Longrightarrow>
     prefix l l' \<and> (res = Proven \<longrightarrow> did h l l' (probe_args network img args) refused)"
  by (auto simp: deny_command_def probe_exec_def run_timeout_def denied_outcome_Proven did_run)

lemma probe_reachability_run:
  assumes "run_state (probe_reachability h network img peer) l = (res, l')"
  shows "prefix l l' \<and> (res = Proven \<longrightarrow> did h l l' (listener_args peer network img) status_ok
    \<and> did h l l' (probe_args network img (nc_args peer 18080)) status_ok)"
proof (cases "status_ok (oh_podman h l (listener_args peer network img))")
  case True
  let ?la = "listener_args peer network img" and ?na = "probe_args network img (nc_args peer 18080)"
  from True assms have l': "l' = (l @ [?la]) @ [?na]" and o: "res = allowed_outcome (oh_podman h (l @ [?la]) ?na)"
    by (auto simp: probe_reachability_def allow_transport_def probe_exec_def run_timeout_def status_ok_def split: if_splits)
  have "did h l l' ?la status_ok" unfolding l' by (rule did_later[OF did_run[where P = status_ok, OF True]]) simp
  moreover have "did h l l' ?na status_ok" if "res = Proven"
    unfolding l' using that o allowed_outcome_Proven by (intro did_earlier[OF did_run]) auto
  ultimately show ?thesis by (simp add: l')
next
  case False
  with assms show ?thesis by (auto simp: probe_reachability_def run_timeout_def split: if_splits)
qed

lemma probe_gateway_run:
  assumes "run_state (probe_gateway h network img text) l = (res, l')"
  shows "prefix l l' \<and> (res = Proven \<longrightarrow> (\<forall>gateway. extract_gateway text = Some gateway \<longrightarrow>
      did h l l' (probe_args network img (ping_args gateway)) refused
      \<and> did h l l' (probe_args network img (nc_args gateway 80)) refused))"
proof (cases "extract_gateway text")
  case (Some gateway)
  with assms obtain ping l1 http where a: "run_state (deny_command h network img (ping_args gateway)) l = (ping, l1)"
    and b: "run_state (deny_transport h network img gateway 80) l1 = (http, l')" and c: "res = combine_denials [ping, http]"
    by (auto simp: probe_gateway_def split: prod.splits)
  from deny_command_run[OF a] deny_transport_run[OF b] c Some show ?thesis
    by (auto simp: combine_denials_Proven intro: did_later did_earlier prefix_order.trans)
qed (use assms in \<open>simp add: probe_gateway_def\<close>)

lemma inspect_run:
  assumes "run_state (inspect_internal_network h network) l = (Inr text, l')"
  shows "l' = l @ [inspect_args network] \<and> did h l l' (inspect_args network) (inspected h text)"
proof -
  from assms have l': "l' = l @ [inspect_args network]" and i: "inspected h text (oh_podman h l (inspect_args network))"
    by (auto simp: inspect_internal_network_def run_timeout_def inspected_def status_ok_def
        split: option.splits if_splits)
  from did_run[where P = "inspected h text", OF i] l' show ?thesis by simp
qed

lemma run_probes_run:
  assumes run: "run_state (run_probes h peer network text img) l = (report, l')"
    and live: "live_oci_claimable report" and insp: "did h l0 l (inspect_args network) (inspected h text)" "prefix l0 l"
  shows "isolated h l0 l' network \<and> prefix l l'"
proof -
  from run obtain reach l3 egress l4 dns1 l5 dns2 l6 gw l7 ip6 l8
    where s3: "run_state (probe_reachability h network img peer) l = (reach, l3)"
      and s4: "run_state (deny_transport h network img ''1.1.1.1'' 80) l3 = (egress, l4)"
      and s5: "run_state (deny_command h network img dns_args) l4 = (dns1, l5)"
      and s6: "run_state (deny_transport h network img ''one.one.one.one'' 80) l5 = (dns2, l6)"
      and s7: "run_state (probe_gateway h network img text) l6 = (gw, l7)"
      and s8: "run_state (deny_command h network img ping6_args) l7 = (ip6, l8)"
      and e: "l' = l8 @ [[''rm'', ''-f'', peer]]"
      and rep: "report = campaign_report network img reach egress (combine_denials [dns1, dns2]) gw ip6"
    unfolding run_probes_def by (elim run_bindE) (simp add: run_timeout_run)
  from live rep have all: "reach = Proven" "egress = Proven" "dns1 = Proven" "dns2 = Proven" "gw = Proven" "ip6 = Proven"
    by (auto simp: live_oci_claimable_def packet_isolation_demonstrated_def campaign_report_def combine_denials_Proven)
  note steps = probe_reachability_run[OF s3] deny_transport_run[OF s4] deny_command_run[OF s5] deny_transport_run[OF s6]
    probe_gateway_run[OF s7] deny_command_run[OF s8]
  have p: "prefix l l3" "prefix l3 l4" "prefix l4 l5" "prefix l5 l6" "prefix l6 l7" "prefix l7 l8" "prefix l8 l'"
    using steps e by auto
  have q: "prefix l0 l3" "prefix l0 l4" "prefix l0 l5" "prefix l0 l6" "prefix l0 l7" "prefix l l'"
      "prefix l3 l'" "prefix l4 l'" "prefix l5 l'" "prefix l6 l'" "prefix l7 l'"
    using p insp(2) by (meson prefix_order.trans)+
  have "isolated h l0 l' network"
    unfolding isolated_def using steps all p q insp
    by (intro exI[of _ "text"] exI[of _ img] exI[of _ peer]) (auto intro: did_within did_later)
  with q show ?thesis by simp
qed

lemma probe_campaign_network_run:
  assumes "run_state (probe_campaign_network h peer network text) l = (Inr report, l')"
    and live: "live_oci_claimable report" and insp: "did h l0 l (inspect_args network) (inspected h text)" "prefix l0 l"
  shows "isolated h l0 l' network \<and> prefix l l'"
proof -
  from assms(1) obtain img l1 l2 where a: "run_state (resolve_probe_image h) l = (Some img, l1)"
    and b: "l2 = l1 @ [probe_args network img preflight_args]"
    and c: "run_state (run_probes h peer network text img) l2 = (report, l')"
    unfolding probe_campaign_network_def
    by (elim run_bindE) (auto simp: probe_exec_def run_timeout_def split: option.splits if_splits prod.splits)
  from emitsD[OF emits_resolve(1) a] b have "prefix l l2" by (auto simp: prefix_def)
  with run_probes_run[OF c live did_later[OF insp(1)]] insp(2) show ?thesis
    by (meson prefix_order.trans)
qed

lemma isolated_prefix: "isolated h l m network \<Longrightarrow> prefix l0 l \<Longrightarrow> isolated h l0 m network"
  by (rule isolated_within) auto

lemma exec_on_network_run:
  assumes run: "run_state (exec_on_network h peer root img network container args memory_mb harness) l = (r, l')"
    and names: "network \<noteq> ''--read-only''" "peer \<noteq> ''--read-only''"
  defines "launch \<equiv> generator_args h root img network container args memory_mb harness"
  shows "(\<exists>e new. r = Inl e \<and> l' = l @ new \<and> list_all quiet new)
    \<or> (\<exists>mid. l' = l @ mid @ [launch] \<and> list_all quiet mid \<and> isolated h l (l @ mid) network
          \<and> r = generator_output h (oh_podman h (l @ mid) launch))"
  using run[unfolded exec_on_network_def]
proof (cases rule: run_try_bindE)
  case (err e)
  with emitsD[OF emits_network(2)] show ?thesis by blast
next
  case (ok inspect_text l1)
  note i = inspect_run[OF ok(1)]
  from ok(2) show ?thesis
  proof (cases rule: run_try_bindE)
    case (err e)
    with emitsD[OF emits_probe_campaign_network[OF names] err(1)] i show ?thesis
      by (auto simp: quiet_simps)
  next
    case (ok report l2)
    from emitsD[OF emits_probe_campaign_network[OF names] ok(1)] i obtain new where
      l2: "l2 = l @ inspect_args network # new" and q: "list_all quiet (inspect_args network # new)"
      by (auto simp: quiet_simps)
    show ?thesis
    proof (cases "live_oci_claimable report")
      case True
      with probe_campaign_network_run[OF ok(1) True] i have "isolated h l l2 network" by auto
      moreover from ok(2) True have "l' = l2 @ [launch]" "r = generator_output h (oh_podman h l2 launch)"
        by (auto simp: launch_def run_timeout_def)
      ultimately show ?thesis using l2 q by (intro disjI2 exI[of _ "inspect_args network # new"]) simp
    next
      case False
      with ok(2) l2 q show ?thesis by auto
    qed
  qed
qed

lemma create_run:
  assumes "run_state (create_internal_network h network) l = (r, l')"
  shows "l' = l @ [create_args network] \<and> (r = Inr () \<longleftrightarrow> status_ok (oh_podman h l (create_args network)))"
  using assms by (auto simp: create_internal_network_def run_timeout_def status_ok_def split: option.splits if_splits)

lemma cleanup_run:
  "run_state (cleanup h container network) l = (r, l') \<longleftrightarrow>
     r = () \<and> l' = l @ [[''rm'', ''-f'', container], [''network'', ''rm'', ''-f'', network]]"
  by (auto simp: cleanup_def run_timeout_def)

lemma gen_names: "gen_network sid \<noteq> ''--read-only''" "probe_name pid \<noteq> ''--read-only''" "target_network sid \<noteq> ''--read-only''"
  by (simp_all add: gen_network_def probe_name_def target_network_def BINARY_NAME_def)

lemma no_create:
  assumes "list_all early new" "\<not> P (oh_podman h (l @ new) (create_args network))"
  shows "\<not> did h l (l @ new @ [create_args network]) (create_args network) P" "\<not> did h l (l @ new) (create_args network) P"
proof -
  have *: "create_args network \<notin> set new" using assms(1) early_not_create by (auto simp: list_all_iff)
  show "\<not> did h l (l @ new) (create_args network) P" using * by (auto simp: did_def)
  show "\<not> did h l (l @ new @ [create_args network]) (create_args network) P"
  proof
    assume "did h l (l @ new @ [create_args network]) (create_args network) P"
    then obtain mid rest where eq: "new @ [create_args network] = mid @ create_args network # rest"
      and p: "P (oh_podman h (l @ mid) (create_args network))" by (auto simp: did_def)
    from eq * have "mid = new" by (cases rest rule: rev_cases) (auto simp: append_eq_append_conv2 append_eq_Cons_conv)
    with p assms(2) show False by simp
  qed
qed

lemma early_did: "list_all early new \<Longrightarrow> \<not> did h l (l @ new) (create_args network) P"
  using early_not_create by (fastforce simp: did_def list_all_iff)

text \<open>The prologue of both entry points: information and images, then the network.\<close>

lemma prologue_run:
  assumes "run_state (try_bind m f) l = (r, l')" "emits early m"
  obtains (err) e new where "r = Inl e" "l' = l @ new" "list_all early new"
    | (ok) x new where "run_state (f x) (l @ new) = (r, l')" "list_all early new" "\<exists>l1. run_state m l = (Inr x, l1)"
  using assms(1)
proof (cases rule: run_try_bindE)
  case (err e)
  with emitsD[OF assms(2)] that(1) show thesis by blast
next
  case (ok x l1)
  with emitsD[OF assms(2) ok(1)] that(2) show thesis by blast
qed

abbreviation cleanup_commands :: "string \<Rightarrow> string \<Rightarrow> argv list" where
  "cleanup_commands container network \<equiv> [[''rm'', ''-f'', container], [''network'', ''rm'', ''-f'', network]]"

definition contained_run ::
    "oci_host \<Rightarrow> podman_log \<Rightarrow> string \<Rightarrow> argv list \<Rightarrow> (podman_log \<Rightarrow> argv \<Rightarrow> bool) \<Rightarrow> bool" where
  "contained_run h l network work ended \<longleftrightarrow>
     (\<exists>mid launch. work = mid @ [launch] \<and> list_all quiet mid \<and> isolated h l (l @ mid) network
        \<and> did h l (l @ mid) (create_args network) status_ok \<and> ended (l @ mid) launch)"

lemma early_append: "l1 = l @ new1 \<and> list_all early new1 \<Longrightarrow> l2 = l1 @ new2 \<and> list_all early new2
    \<Longrightarrow> l2 = l @ (new1 @ new2) \<and> list_all early (new1 @ new2)"
  by simp

lemma exec_generator_steps:
  assumes "run_state (exec_generator_ex h sid pid target_root (exe # rest) memory_mb harness) l = (r, l')"
  obtains (err) e new where "r = Inl e" "l' = l @ new" "list_all early new"
    | (ok) root img new where "list_all early new" "oh_canonicalize h target_root = Inr root"
        "run_state (try_bind (create_internal_network h (gen_network sid)) (\<lambda>_.
          do {
            result \<leftarrow> exec_on_network h (probe_name pid) root img (gen_network sid) (gen_container sid) (exe # rest) memory_mb harness;
            _ \<leftarrow> cleanup h (gen_container sid) (gen_network sid);
            State_Monad.return result
          })) (l @ new) = (r, l')"
proof -
  let ?go = "\<lambda>root img. try_bind (create_internal_network h (gen_network sid)) (\<lambda>_.
          do {
            result \<leftarrow> exec_on_network h (probe_name pid) root img (gen_network sid) (gen_container sid) (exe # rest) memory_mb harness;
            _ \<leftarrow> cleanup h (gen_container sid) (gen_network sid);
            State_Monad.return result
          })"
  from assms have "run_state (try_bind (require_runtime h ''rootless Podman is required for contained generator execution'') (\<lambda>_.
      try_bind (State_Monad.return (map_err SB_Io (oh_canonicalize h target_root))) (\<lambda>root.
      try_bind (resolve_generator_image h exe) (\<lambda>img. ?go root img)))) l = (r, l')"
    by (simp add: exec_generator_ex_def)
  then show thesis
  proof (cases rule: prologue_run[OF _ early_resolve(5), consumes 1, case_names err ok])
    case (err e new)
    then show thesis by (rule that(1))
  next
    case (ok u new1)
    note new1 = ok(2)
    show thesis
    proof (cases "oh_canonicalize h target_root")
      case (Inl m)
      with ok(1) new1 show thesis by (intro that(1)[of "SB_Io m" new1]) (auto simp: try_bind_def)
    next
      case (Inr root)
      with ok(1) have "run_state (try_bind (resolve_generator_image h exe) (\<lambda>img. ?go root img)) (l @ new1) = (r, l')"
        by (simp add: try_bind_def)
      then show thesis
      proof (cases rule: prologue_run[OF _ early_resolve(3), consumes 1, case_names err ok])
        case (err e new2)
        with new1 show thesis by (intro that(1)[of e "new1 @ new2"]) auto
      next
        case (ok img new2)
        with new1 Inr show thesis by (intro that(2)[of "new1 @ new2" root img]) auto
      qed
    qed
  qed
qed

subsection \<open>Containment of the program under test\<close>

text \<open>Whatever the runtime answers, a generator is started only behind the creation and the probes of its network.\<close>

lemma exec_generator_contained:
  assumes "run_state (exec_generator_ex h sid pid target_root args memory_mb harness) l = (r, l')"
  shows "(\<exists>e new. r = Inl e \<and> l' = l @ new \<and> list_all quiet new
            \<and> \<not> did h l l' (create_args (gen_network sid)) status_ok)
    \<or> (\<exists>work. l' = l @ work @ cleanup_commands (gen_container sid) (gen_network sid)
        \<and> ((\<exists>e. r = Inl e) \<and> list_all quiet work
           \<or> contained_run h l (gen_network sid) work (\<lambda>log launch. \<exists>root img.
               oh_canonicalize h target_root = Inr root
               \<and> launch = generator_args h root img (gen_network sid) (gen_container sid) args memory_mb harness
               \<and> r = generator_output h (oh_podman h log launch))))"
    (is "?refused \<or> ?ran")
proof -
  have stop: ?refused if "r = Inl e" "l' = l @ new" "list_all early new" for e new
    using that early_did[OF that(3)] early_quiet by (auto simp: list_all_iff)
  show ?thesis
  proof (cases args)
    case Nil
    with assms stop[of "SB_FailClosed ''generator argv is empty''" "[]"] show ?thesis by (simp add: exec_generator_ex_def)
  next
    case (Cons exe rest)
    let ?net = "gen_network sid" and ?cont = "gen_container sid"
    from assms[unfolded Cons] show ?thesis
    proof (cases rule: exec_generator_steps)
      case (err e new)
      with stop show ?thesis by blast
    next
      case (ok root img new)
      let ?launch = "generator_args h root img ?net ?cont args memory_mb harness"
      note early = ok(1) and root = ok(2)
      have q: "list_all quiet new" using early early_quiet by (auto simp: list_all_iff)
      from ok(3) show ?thesis
      proof (cases rule: run_try_bindE)
        case (err e)
        with create_run[OF err(1)] no_create(1)[OF early, of status_ok h l ?net] q show ?thesis
          by (intro disjI1 exI[of _ e] exI[of _ "new @ [create_args ?net]"]) (auto simp: quiet_simps)
      next
        case (ok u l1)
        note c = create_run[OF ok(1)]
        from c have l1: "l1 = l @ new @ [create_args ?net]" and okc: "status_ok (oh_podman h (l @ new) (create_args ?net))" by auto
        from ok(2) obtain l2 where e: "run_state (exec_on_network h (probe_name pid) root img ?net ?cont (exe # rest) memory_mb harness) l1 = (r, l2)"
          and l': "l' = l2 @ cleanup_commands ?cont ?net"
          by (elim run_bindE) (simp add: cleanup_run)
        have d: "did h l (l1 @ xs) (create_args ?net) status_ok" for xs
          using did_later[OF did_earlier[OF did_run[where P = status_ok, OF okc]]] l1 by auto
        from exec_on_network_run[OF e gen_names(1,2)] show ?thesis
        proof (elim disjE exE conjE)
          fix e' new' assume "r = Inl e'" "l2 = l1 @ new'" "list_all quiet new'"
          with l1 l' q show ?thesis
            by (intro disjI2 exI[of _ "new @ create_args ?net # new'"]) (auto simp: quiet_simps)
        next
          fix mid assume m: "l2 = l1 @ mid @ [generator_args h root img ?net ?cont (exe # rest) memory_mb harness]" "list_all quiet mid"
            "isolated h l1 (l1 @ mid) ?net"
            "r = generator_output h (oh_podman h (l1 @ mid) (generator_args h root img ?net ?cont (exe # rest) memory_mb harness))"
          have "isolated h l (l1 @ mid) ?net" using isolated_prefix[OF m(3)] l1 by simp
          with m d[of mid] l1 l' q root Cons show ?thesis
            by (intro disjI2 exI[of _ "(new @ create_args ?net # mid) @ [?launch]"] conjI)
              (auto simp: contained_run_def quiet_simps)
        qed
      qed
    qed
  qed
qed

text \<open>C8. A contained generator runs only on a network of its own that was seen to be isolated first, and
  nothing is left behind. Whatever the runtime answers, either the network was not created and no
  program under test was started, or the last two commands remove the container and the network;
  before them either nothing was started and the result is an error, or the generator is the last
  command, after the creation of the internal network and after every probe of it succeeded.\<close>

theorem generator_contained:
  assumes "run_state (exec_generator_ex h sid pid target_root args memory_mb harness) l = (r, l')"
  shows "(\<exists>e new. r = Inl e \<and> l' = l @ new \<and> list_all quiet new
            \<and> \<not> did h l l' (create_args (gen_network sid)) status_ok)
    \<or> (\<exists>work. l' = l @ work @ cleanup_commands (gen_container sid) (gen_network sid)
        \<and> ((\<exists>e. r = Inl e) \<and> list_all quiet work
           \<or> contained_run h l (gen_network sid) work (\<lambda>log launch. \<exists>root img.
               oh_canonicalize h target_root = Inr root
               \<and> launch = generator_args h root img (gen_network sid) (gen_container sid) args memory_mb harness
               \<and> r = generator_output h (oh_podman h log launch))))"
  using assms by (rule exec_generator_contained)

lemma start_on_created_network_run:
  assumes run: "run_state (start_on_created_network h peer root img sid network container) l = (r, l')"
    and names: "network \<noteq> ''--read-only''" "peer \<noteq> ''--read-only''"
  shows "(\<exists>e new. r = Inl e \<and> l' = l @ new \<and> list_all quiet new)
    \<or> (\<exists>mid host_port. l' = l @ mid @ [target_args root img network container host_port] \<and> list_all quiet mid
          \<and> isolated h l (l @ mid) network \<and> oh_reserve_port h = Inr host_port
          \<and> (\<forall>t. r = Inr t \<longrightarrow> ct_host_port t = host_port \<and> live_oci_claimable (ct_containment_report t)
               \<and> ct_network_name t = network \<and> ct_container_name t = container \<and> \<not> ct_stopped t))"
  using run[unfolded start_on_created_network_def]
proof (cases rule: run_try_bindE)
  case (err e)
  with emitsD[OF emits_network(2)] show ?thesis by blast
next
  case (ok inspect_text l1)
  note i = inspect_run[OF ok(1)]
  from ok(2) show ?thesis
  proof (cases rule: run_try_bindE)
    case (err e)
    with emitsD[OF emits_probe_campaign_network[OF names] err(1)] i show ?thesis
      by (auto simp: quiet_simps)
  next
    case (ok report l2)
    from emitsD[OF emits_probe_campaign_network[OF names] ok(1)] i obtain new where
      l2: "l2 = l @ inspect_args network # new" and q: "list_all quiet (inspect_args network # new)"
      by (auto simp: quiet_simps)
    show ?thesis
    proof (cases "live_oci_claimable report \<and> is_ok (oh_reserve_port h)")
      case True
      then obtain host_port where hp: "oh_reserve_port h = Inr host_port" by (auto simp: is_ok_iff)
      from True probe_campaign_network_run[OF ok(1)] i have "isolated h l l2 network" by auto
      moreover from ok(2) True hp have "l' = l2 @ [target_args root img network container host_port]"
        "\<forall>t. r = Inr t \<longrightarrow> ct_host_port t = host_port \<and> live_oci_claimable (ct_containment_report t)
               \<and> ct_network_name t = network \<and> ct_container_name t = container \<and> \<not> ct_stopped t"
        by (auto simp: try_bind_def run_timeout_def split: sum.splits if_splits)
      ultimately show ?thesis using l2 q hp
        by (intro disjI2 exI[of _ "inspect_args network # new"] exI[of _ host_port]) simp
    next
      case False
      with ok(2) l2 q show ?thesis
        by (cases "oh_reserve_port h") (auto simp: try_bind_def is_ok_def split: if_splits)
    qed
  qed
qed

lemma target_start_steps:
  assumes "run_state (target_start h sid pid target_root) l = (r, l')"
  obtains (err) e new where "r = Inl e" "l' = l @ new" "list_all early new"
    | (ok) root img new where "list_all early new" "oh_canonicalize h target_root = Inr root"
        "run_state (try_bind (create_internal_network h (target_network sid)) (\<lambda>_.
          do {
            result \<leftarrow> start_on_created_network h (probe_name pid) root img sid (target_network sid) (target_container sid);
            (if is_ok result then State_Monad.return result
             else do {
               _ \<leftarrow> cleanup h (target_container sid) (target_network sid);
               State_Monad.return result
             })
          })) (l @ new) = (r, l')"
  using assms unfolding target_start_def
proof (cases rule: prologue_run[OF _ early_resolve(5), consumes 1, case_names err ok])
  case (err e new)
  then show thesis by (rule that(1))
next
  case (ok u new1)
  note new1 = ok(2)
  show thesis
  proof (cases "oh_canonicalize h target_root")
    case (Inl m)
    with ok(1) new1 show thesis by (intro that(1)[of "SB_Io m" new1]) (auto simp: try_bind_def)
  next
    case (Inr root)
    show thesis
    proof (cases "oh_is_file h (path_join root ''server.py'')")
      case True
      have e: "emits early (do {
         img \<leftarrow> resolve_target_image h;
         State_Monad.return (ok_or img (SB_FailClosed
           ''Python OCI target image is unavailable; configure TARGET_CONTAINER_IMAGE or enable OCI_PULL''))
       })" by (intro emits_intros)
      from ok(1) Inr True have "run_state (try_bind (do {
         img \<leftarrow> resolve_target_image h;
         State_Monad.return (ok_or img (SB_FailClosed
           ''Python OCI target image is unavailable; configure TARGET_CONTAINER_IMAGE or enable OCI_PULL''))
       }) (\<lambda>img. try_bind (create_internal_network h (target_network sid)) (\<lambda>_.
          do {
            result \<leftarrow> start_on_created_network h (probe_name pid) root img sid (target_network sid) (target_container sid);
            (if is_ok result then State_Monad.return result
             else do {
               _ \<leftarrow> cleanup h (target_container sid) (target_network sid);
               State_Monad.return result
             })
          }))) (l @ new1) = (r, l')"
        by (simp add: try_bind_def[of "State_Monad.return _"])
      then show thesis
      proof (cases rule: prologue_run[OF _ e, consumes 1, case_names err ok])
        case (err e new2)
        with new1 show thesis by (intro that(1)[of e "new1 @ new2"]) auto
      next
        case (ok img new2)
        with new1 Inr show thesis by (intro that(2)[of "new1 @ new2" root img]) auto
      qed
    next
      case False
      with ok(1) Inr new1 show thesis by (intro that(1)[of _ new1]) (auto simp: try_bind_def)
    qed
  qed
qed

lemma target_stop_run:
  "run_state (target_stop h t) l =
     (t\<lparr>ct_stopped := True\<rparr>, if ct_stopped t then l else l @ cleanup_commands (ct_container_name t) (ct_network_name t))"
  by (auto simp: target_stop_def cleanup_def run_timeout_def)


subsection \<open>Witnesses\<close>

definition demo_inspect :: string where
  "demo_inspect = [CHR 0x22] @ ''internal'' @ [CHR 0x22] @ '': true''"

text \<open>A runtime with the images present, on whose network the ninth to the twelfth command, the attempts to leave
  the network, fail.\<close>

definition demo_host :: oci_host where
  "demo_host =
     \<lparr>oh_podman = (\<lambda>log _. Some \<lparr>out_code = Some (if length log \<in> {8, 9, 10, 11} then 1 else 0), out_stdout = [1], out_stderr = []\<rparr>),
      oh_env_var = (\<lambda>_. None), oh_is_file = (\<lambda>_. True), oh_search_path = [''/usr/bin''],
      oh_canonicalize = Inr, oh_from_utf8 = (\<lambda>_. Some demo_inspect), oh_from_utf8_lossy = (\<lambda>_. ''out''),
      oh_show_status = (\<lambda>_. []), oh_reserve_port = Inr 40000, oh_connects = [False, True]\<rparr>"

lemma demo_inspect_facts: "reports_internal demo_inspect" "extract_gateway demo_inspect = None" "trim demo_inspect = demo_inspect"
    "demo_inspect \<noteq> []"
  by code_simp+

lemma demo_generator_image: "resolve_generator_image demo_host ''python'' = (do {
    img \<leftarrow> resolve_target_image demo_host;
    State_Monad.return (ok_or img (SB_FailClosed ''Python OCI image unavailable for contained generator'')) })"
proof -
  have "starts_with (to_ascii_lowercase (unwrap_or ''python'' (file_name ''python''))) ''python''" by code_simp
  then show ?thesis by (simp add: resolve_generator_image_def)
qed

lemmas demo_host_run = demo_host_def run_timeout_def status_ok_def try_bind_def require_runtime_def find_podman_def
  podman_reachable_def resolve_target_image_def resolve_image_def image_exists_def create_internal_network_def
  inspect_internal_network_def probe_campaign_network_def resolve_probe_image_def probe_exec_def run_probes_def
  probe_reachability_def allow_transport_def deny_transport_def deny_command_def probe_gateway_def
  allowed_outcome_def denied_outcome_def campaign_report_def combine_denials_def live_oci_claimable_def
  packet_isolation_demonstrated_def cleanup_def demo_inspect_facts

lemma demo_generator_runs:
  "fst (run_state (exec_generator_ex demo_host ''s'' ''p'' ''/t'' [''python''] 64 None) []) = Inr ''out''"
  unfolding exec_generator_ex_def list.case demo_generator_image
  by (simp add: demo_host_run exec_on_network_def generator_output_def)

theorem generator_contained_witness:
  "\<exists>work. snd (run_state (exec_generator_ex demo_host ''s'' ''p'' ''/t'' [''python''] 64 None) [])
      = work @ cleanup_commands (gen_container ''s'') (gen_network ''s'')
    \<and> contained_run demo_host [] (gen_network ''s'') work (\<lambda>_ _. True)"
proof -
  obtain l' where run: "run_state (exec_generator_ex demo_host ''s'' ''p'' ''/t'' [''python''] 64 None) [] = (Inr ''out'', l')"
    using demo_generator_runs by (metis prod.collapse)
  from generator_contained[OF run] run show ?thesis
    by (auto simp: contained_run_def)
qed

lemma demo_target_starts: "is_ok (fst (run_state (target_start demo_host ''s'' ''p'' ''/t'') []))"
  unfolding target_start_def
  by (simp add: demo_host_run start_on_created_network_def started_container_def is_ok_def)


end
