(* ===== verification/Verifier.thy ===== *)
theory Verifier
  imports Snapshot Authority Oci
begin

text \<open>
  \<^verbatim>\<open>aros-core/src/verifier.rs\<close>: the independent verifier. The child process takes the digest of the target,
  copies it, takes the digest of the copy, runs the copy, asks it, and takes the digest of the target
  again; the parent starts the child, hands it the reduced input and waits with a deadline. The
  target tree at the three moments, the copy as it is on disk when it is read back, the launched
  programs and the polls of a waiting loop until its deadline are arguments.
\<close>

subsection \<open>Messages of the verifier\<close>

datatype fixture_replay_kind = FR_Authz | FR_Path

record verifier_oracle =
  vo_expected_status :: "u16 option"
  vo_body_contains :: "string option"
  vo_body_not_contains :: "string option"

definition oracle_matches :: "verifier_oracle \<Rightarrow> u16 \<Rightarrow> string \<Rightarrow> bool" where
  "oracle_matches oracle status body =
     ((case vo_expected_status oracle of None \<Rightarrow> True | Some expected \<Rightarrow> expected = status)
      \<and> (case vo_body_contains oracle of None \<Rightarrow> True | Some needle \<Rightarrow> str_contains body needle)
      \<and> (case vo_body_not_contains oracle of None \<Rightarrow> True | Some needle \<Rightarrow> \<not> str_contains body needle))"

record verifier_replay =
  vp_target_root :: string
  vp_expected_tree_digest :: string
  vp_kind :: fixture_replay_kind
  vp_request_path :: string
  vp_cookie :: "string option"
  vp_oracle :: verifier_oracle
  vp_containment_required :: bool

record verifier_input =
  vi_claim :: string
  vi_snapshot_id :: string
  vi_oracle_contract :: string
  vi_invariant :: string
  vi_replay :: "verifier_replay option"

record verifier_process_result =
  pr_result :: string
  pr_accepted :: bool
  pr_reason :: string
  pr_target_digest_observed :: "string option"
  pr_oracle_observed :: bool

definition reduced_input ::
    "(snapshot_id \<Rightarrow> string) \<Rightarrow> finding \<Rightarrow> evidence_bundle \<Rightarrow> verifier_mode \<Rightarrow> string \<Rightarrow> string \<Rightarrow> verifier_input" where
  "reduced_input show_id finding bundle mode oracle invariant =
     \<lparr>vi_claim = fi_claim finding, vi_snapshot_id = show_id (eb_snapshot_id bundle),
      vi_oracle_contract = oracle, vi_invariant = invariant, vi_replay = None\<rparr>"

definition accepts_true_finding :: "evidence_level \<Rightarrow> authority_result \<Rightarrow> bool" where
  "accepts_true_finding level result = (result = AR_Verified \<and> E4IndependentReproduction \<le> level)"

definition rejected :: "string \<Rightarrow> verifier_process_result" where
  "rejected reason =
     \<lparr>pr_result = ''Rejected'', pr_accepted = False, pr_reason = reason, pr_target_digest_observed = None,
      pr_oracle_observed = False\<rparr>"

definition digest_mismatch :: "string \<Rightarrow> verifier_process_result" where
  "digest_mismatch observed =
     \<lparr>pr_result = ''Rejected'', pr_accepted = False,
      pr_reason = ''exact-target digest mismatch during verifier replay'',
      pr_target_digest_observed = Some observed, pr_oracle_observed = False\<rparr>"

subsection \<open>Running the copied target\<close>

definition resolve_python :: "(string \<Rightarrow> string option) \<Rightarrow> (string \<Rightarrow> bool) \<Rightarrow> string option" where
  "resolve_python env_var answers =
     (case env_var (env_name ''PYTHON'') of
        Some explicit \<Rightarrow>
          if trim explicit \<noteq> [] then Some explicit else find answers [''python3'', ''python'']
      | None \<Rightarrow> find answers [''python3'', ''python''])"

definition http_error_to_string :: "http_error \<Rightarrow> string" where
  "http_error_to_string e = (case e of HE_Io m \<Rightarrow> ''io: '' @ m | HE_Invalid \<Rightarrow> ''invalid http response'')"

text \<open>One round of the readiness loop: polling the child fails, finds it gone, or finds it running, with the
  network as it is then.\<close>

datatype poll = Poll_Err string | Poll_Exited | Poll_Running net

fun await_ready :: "u16 \<Rightarrow> poll list \<Rightarrow> string + bool" where
  "await_ready port [] = Inr False"
| "await_ready port (Poll_Err e # ps) = Inl e"
| "await_ready port (Poll_Exited # ps) = Inr False"
| "await_ready port (Poll_Running net # ps) =
     (if is_ok (http_get net ''127.0.0.1'' port ''/health'' None) then Inr True else await_ready port ps)"

text \<open>A launched server: the polls up to the deadline and the network when the replay request is sent.\<close>

record server_run =
  sr_polls :: "poll list"
  sr_net :: net

record verifier_env =
  ve_blake3_hex :: "bytes \<Rightarrow> string"
  ve_from_utf8 :: "bytes \<Rightarrow> string option"
  ve_is_dir :: bool
  ve_before :: "bool \<times> fs_tree"
  ve_at_copy :: fs_tree
  ve_copied :: "entries \<Rightarrow> bool \<times> fs_tree"
  ve_after :: "bool \<times> fs_tree"
  ve_temp_root :: string
  ve_target_id :: target_id
  ve_snapshot_id :: snapshot_id
  ve_now :: u64
  ve_env_var :: "string \<Rightarrow> string option"
  ve_answers :: "string \<Rightarrow> bool"
  ve_reserve_port :: "string + u16"
  ve_launch :: "string \<Rightarrow> fs_tree \<Rightarrow> u16 \<Rightarrow> string + server_run"
  ve_oci_host :: "fs_tree \<Rightarrow> oci_host"
  ve_oci_ids :: "string \<times> string"
  ve_oci_net :: "fs_tree \<Rightarrow> net"

definition has_server :: "fs_tree \<Rightarrow> bool" where
  "has_server t =
     (case t of
        Dir es \<Rightarrow> (case map_of es ''server.py'' of Some (File _) \<Rightarrow> True | Some (File_Err _) \<Rightarrow> True | _ \<Rightarrow> False)
      | _ \<Rightarrow> False)"

definition replay_get :: "net \<Rightarrow> u16 \<Rightarrow> verifier_replay \<Rightarrow> string + (u16 \<times> string)" where
  "replay_get net port replay =
     res_bind (map_err http_error_to_string (http_get net ''127.0.0.1'' port (vp_request_path replay) (vp_cookie replay)))
       (\<lambda>response. Inr (hr_status response, hr_body response))"

text \<open>The contained target on a runtime and a network that may depend on the tree that is mounted; the target is
  stopped after the request.\<close>

definition start_contained :: "verifier_env \<Rightarrow> fs_tree \<Rightarrow> string + campaign_oci_target" where
  "start_contained env root =
     map_err sandbox_error_to_string
       (fst (run_state (target_start (ve_oci_host env root) (fst (ve_oci_ids env)) (snd (ve_oci_ids env)) (ve_temp_root env)) []))"

definition run_actual_fixture :: "verifier_env \<Rightarrow> fs_tree \<Rightarrow> verifier_replay \<Rightarrow> string + (u16 \<times> string)" where
  "run_actual_fixture env root replay =
     (if vp_containment_required replay then
        res_bind (start_contained env root) (\<lambda>target. replay_get (ve_oci_net env root) (ct_host_port target) replay)
      else
        res_bind (ok_or (resolve_python (ve_env_var env) (ve_answers env)) ''python interpreter not available'') (\<lambda>python.
        if \<not> has_server root then Inl ''server.py missing from verifier target''
        else res_bind (ve_reserve_port env) (\<lambda>port.
             res_bind (map_err (\<lambda>e. ''launch target: '' @ e) (ve_launch env python root port)) (\<lambda>run.
             res_bind (await_ready port (sr_polls run)) (\<lambda>ready.
             if \<not> ready then Inl ''target readiness deadline exceeded''
             else replay_get (sr_net run) port replay)))))"

subsection \<open>The child process\<close>

definition snapshot_digest :: "verifier_env \<Rightarrow> string \<Rightarrow> bool \<times> fs_tree \<Rightarrow> snapshot_error + string" where
  "snapshot_digest env root = (\<lambda>(is_dir, t).
     res_bind (snapshot_tree (ve_blake3_hex env) (ve_from_utf8 env) (ve_snapshot_id env) (ve_now env) (ve_target_id env) root is_dir t)
       (\<lambda>snapshot. Inr (ts_source_tree_digest snapshot)))"

definition copy_target :: "string \<Rightarrow> fs_tree \<Rightarrow> string + entries" where
  "copy_target root t =
     (case t of Dir es \<Rightarrow> copy_exact_tree root [] es | Dir_Err e \<Rightarrow> Inl e | _ \<Rightarrow> Inl ''not a directory'')"

definition adjudicate_run :: "verifier_replay \<Rightarrow> string \<Rightarrow> string + (u16 \<times> string) \<Rightarrow> verifier_process_result" where
  "adjudicate_run replay digest result =
     (case result of
        Inr (status, body) \<Rightarrow>
          if oracle_matches (vp_oracle replay) status body then
            \<lparr>pr_result = ''Verified'', pr_accepted = True,
             pr_reason = ''independent verifier executed the actual byte-identical target and observed the oracle'',
             pr_target_digest_observed = Some digest, pr_oracle_observed = True\<rparr>
          else
            \<lparr>pr_result = ''NonReproducible'', pr_accepted = False,
             pr_reason = ''actual verifier target did not satisfy the oracle'',
             pr_target_digest_observed = Some digest, pr_oracle_observed = False\<rparr>
      | Inl error \<Rightarrow>
          \<lparr>pr_result = ''Rejected'', pr_accepted = False,
           pr_reason = ''actual verifier target unavailable: '' @ error,
           pr_target_digest_observed = Some digest, pr_oracle_observed = False\<rparr>)"

definition reproduce_and_adjudicate :: "verifier_env \<Rightarrow> verifier_input \<Rightarrow> verifier_process_result" where
  "reproduce_and_adjudicate env input =
     (case vi_replay input of
        None \<Rightarrow> rejected ''verifier replay recipe missing; E4 cannot be established''
      | Some replay \<Rightarrow>
          let root = vp_target_root replay; expected = vp_expected_tree_digest replay in
          if vi_claim input = [] \<or> vi_oracle_contract input = [] then rejected ''claim and oracle_contract are required''
          else if \<not> ve_is_dir env then rejected ''verifier target root is unavailable''
          else case snapshot_digest env root (ve_before env) of
            Inl e \<Rightarrow> rejected (''verifier snapshot failed: '' @ snapshot_error_to_string e)
          | Inr before \<Rightarrow>
              if before \<noteq> expected then digest_mismatch before
              else case copy_target root (ve_at_copy env) of
                Inl e \<Rightarrow> rejected (''copy exact verifier target: '' @ e)
              | Inr c \<Rightarrow>
                  case snapshot_digest env (ve_temp_root env) (ve_copied env c) of
                    Inl e \<Rightarrow> rejected (''snapshot copied target: '' @ snapshot_error_to_string e)
                  | Inr copied \<Rightarrow>
                      if copied \<noteq> expected then rejected ''copied target digest differs from authorized target''
                      else
                        let result = run_actual_fixture env (snd (ve_copied env c)) replay in
                        case snapshot_digest env root (ve_after env) of
                          Inl e \<Rightarrow> rejected (''post-replay verifier snapshot failed: '' @ snapshot_error_to_string e)
                        | Inr after \<Rightarrow>
                            if after \<noteq> expected then digest_mismatch after
                            else adjudicate_run replay after result)"

record child_env =
  ce_verifier :: verifier_env
  ce_stdin :: "bytes \<Rightarrow> bytes option"
  ce_from_slice :: "bytes \<Rightarrow> string + verifier_input"
  ce_to_vec :: "verifier_process_result \<Rightarrow> string + bytes"
  ce_stdout_ok :: bool

definition run_verifier_child_main :: "child_env \<Rightarrow> bytes \<Rightarrow> i32 \<times> bytes" where
  "run_verifier_child_main env sent =
     (case ce_stdin env sent of
        None \<Rightarrow> (2, [])
      | Some buf \<Rightarrow>
          (case ce_from_slice env buf of
             Inl _ \<Rightarrow> (3, [])
           | Inr input \<Rightarrow>
               (case ce_to_vec env (reproduce_and_adjudicate (ce_verifier env) input) of
                  Inr bytes \<Rightarrow> if ce_stdout_ok env then (0, bytes) else (4, [])
                | Inl _ \<Rightarrow> (4, []))))"

subsection \<open>The parent process\<close>

definition VERIFIER_NAME :: string where
  "VERIFIER_NAME = ''aros-verifier''"

text \<open>\<^verbatim>\<open>Path::parent\<close>.\<close>

definition path_parent :: "string \<Rightarrow> string option" where
  "path_parent p =
     (let comps = filter (\<lambda>c. c \<noteq> []) (split_on (CHR ''/'') p)
      in if comps = [] then None
         else Some ((if starts_with p ''/'' then ''/'' else []) @ join_with ''/'' (butlast comps)))"

fun find_map :: "('a \<Rightarrow> 'b option) \<Rightarrow> 'a list \<Rightarrow> 'b option" where
  "find_map f [] = None"
| "find_map f (x # xs) = (case f x of Some y \<Rightarrow> Some y | None \<Rightarrow> find_map f xs)"

definition bin_in_dir :: "(string \<Rightarrow> bool) \<Rightarrow> string \<Rightarrow> string option" where
  "bin_in_dir is_file dir =
     find is_file [path_join dir VERIFIER_NAME, path_join dir (VERIFIER_NAME @ ''.exe'')]"

text \<open>\<open>search_path\<close> is \<^verbatim>\<open>PATH\<close> as \<^verbatim>\<open>split_paths\<close> splits it, and empty when it is not set.\<close>

definition resolve_verifier_bin ::
    "(string \<Rightarrow> string option) \<Rightarrow> (string \<Rightarrow> bool) \<Rightarrow> string option \<Rightarrow> string list \<Rightarrow> string option" where
  "resolve_verifier_bin env_var is_file current_exe search_path =
     (case find_map (\<lambda>key. Option.bind (env_var key) (\<lambda>p. if is_file p then Some p else None))
             [env_name ''VERIFIER'', ''CARGO_BIN_EXE_aros-verifier'', ''CARGO_BIN_EXE_aros_verifier''] of
        Some p \<Rightarrow> Some p
      | None \<Rightarrow>
          let dirs = (case Option.bind current_exe path_parent of
                        None \<Rightarrow> []
                      | Some dir \<Rightarrow> dir # (case path_parent dir of None \<Rightarrow> [] | Some par \<Rightarrow> [par]))
          in find_map (bin_in_dir is_file) (dirs @ search_path))"

text \<open>The polls of the child until the deadline; past it the child is killed.\<close>

datatype exit_poll = Exit_Err string | Exit_Done | Exit_Running

fun await_exit :: "exit_poll list \<Rightarrow> string + unit" where
  "await_exit [] = Inl ''INDEPENDENT_VERIFIER_TIMEOUT: evidence capped at E3''"
| "await_exit (Exit_Err e # ps) = Inl (''poll verifier: '' @ e)"
| "await_exit (Exit_Done # ps) = Inr ()"
| "await_exit (Exit_Running # ps) = await_exit ps"

record child_output =
  co_code :: "i32 option"
  co_stdout :: bytes
  co_stderr :: string

definition show_int :: "int \<Rightarrow> string" where
  "show_int i = (if i < 0 then ''-'' @ show_nat (nat (- i)) else show_nat (nat i))"

definition debug_code :: "i32 option \<Rightarrow> string" where
  "debug_code code = (case code of None \<Rightarrow> ''None'' | Some c \<Rightarrow> ''Some('' @ show_int (sint c) @ '')'')"

record parent_env =
  pa_bin :: "string option"
  pa_spawn :: "string \<Rightarrow> string + unit"
  pa_to_vec :: "verifier_input \<Rightarrow> string + bytes"
  pa_write :: "string + unit"
  pa_polls :: "exit_poll list"
  pa_output :: "bytes \<Rightarrow> string + child_output"
  pa_from_slice :: "bytes \<Rightarrow> string + verifier_process_result"

definition wait_with_output_deadline :: "parent_env \<Rightarrow> bytes \<Rightarrow> string + verifier_process_result" where
  "wait_with_output_deadline env payload =
     res_bind (await_exit (pa_polls env)) (\<lambda>_.
     res_bind (map_err (\<lambda>e. ''collect verifier output: '' @ e) (pa_output env payload)) (\<lambda>out.
     if co_code out \<noteq> Some 0
     then Inl (VERIFIER_NAME @ '' exited '' @ debug_code (co_code out) @ '': '' @ co_stderr out)
     else pa_from_slice env (co_stdout out)))"

definition verify_in_subprocess :: "parent_env \<Rightarrow> verifier_input \<Rightarrow> string + verifier_process_result" where
  "verify_in_subprocess env input =
     (if vi_replay input = None then Inl ''INDEPENDENT_REPLAY_UNAVAILABLE: cannot establish E4''
      else res_bind (ok_or (pa_bin env) ''INDEPENDENT_VERIFIER_UNAVAILABLE: cannot establish E4'') (\<lambda>bin.
        res_bind (map_err (\<lambda>e. ''spawn '' @ VERIFIER_NAME @ '': '' @ e) (pa_spawn env bin)) (\<lambda>_.
        res_bind (pa_to_vec env input) (\<lambda>payload.
        res_bind (pa_write env) (\<lambda>_.
        wait_with_output_deadline env payload)))))"

subsection \<open>Lemmas\<close>

lemma adjudicate_run_accepted:
  "pr_accepted (adjudicate_run replay digest result)
    \<longleftrightarrow> (\<exists>status body. result = Inr (status, body) \<and> oracle_matches (vp_oracle replay) status body)"
  by (auto simp: adjudicate_run_def split: sum.splits prod.splits)

lemma not_accepted [simp]: "\<not> pr_accepted (rejected r)" "\<not> pr_accepted (digest_mismatch d)"
  by (simp_all add: rejected_def digest_mismatch_def)

text \<open>The conditions under which the child accepts.\<close>

definition reproduced :: "verifier_env \<Rightarrow> verifier_input \<Rightarrow> verifier_replay \<Rightarrow> entries \<Rightarrow> u16 \<Rightarrow> string \<Rightarrow> bool" where
  "reproduced env input replay c status body =
     (let root = vp_target_root replay; expected = vp_expected_tree_digest replay in
      vi_replay input = Some replay \<and> vi_claim input \<noteq> [] \<and> vi_oracle_contract input \<noteq> [] \<and> ve_is_dir env
      \<and> snapshot_digest env root (ve_before env) = Inr expected
      \<and> copy_target root (ve_at_copy env) = Inr c
      \<and> snapshot_digest env (ve_temp_root env) (ve_copied env c) = Inr expected
      \<and> run_actual_fixture env (snd (ve_copied env c)) replay = Inr (status, body)
      \<and> snapshot_digest env root (ve_after env) = Inr expected
      \<and> oracle_matches (vp_oracle replay) status body)"

lemma accepted_iff_reproduced:
  "pr_accepted (reproduce_and_adjudicate env input) \<longleftrightarrow> (\<exists>replay c status body. reproduced env input replay c status body)"
  by (auto simp: reproduce_and_adjudicate_def reproduced_def Let_def adjudicate_run_accepted
      split: option.splits sum.splits)

lemma snapshot_digest_Inr:
  assumes "snapshot_digest env root (is_dir, t) = Inr d"
  shows "\<exists>es. t = Dir es \<and> is_dir \<and> tree_digest (ve_blake3_hex env) root es = Inr d"
  using assms by (auto simp: snapshot_digest_def snapshot_tree_def res_simps split: if_splits fs_tree.splits)

subsection \<open>What acceptance by the verifier means\<close>


text \<open>A target that nobody touches is not rejected because of its digest: when its digest is the authorized
  one and it can be copied, the result is that of the run of the copy.\<close>

theorem verifier_complete:
  assumes "vi_replay input = Some replay" "vi_claim input \<noteq> []" "vi_oracle_contract input \<noteq> []" "ve_is_dir env"
    and "ve_before env = (True, Dir es)" "ve_at_copy env = Dir es" "ve_after env = (True, Dir es)"
    and "tree_digest (ve_blake3_hex env) (vp_target_root replay) es = Inr (vp_expected_tree_digest replay)"
    and "copy_exact_tree (vp_target_root replay) [] es = Inr c" "ve_copied env c = (True, Dir c)"
  shows "reproduce_and_adjudicate env input =
      adjudicate_run replay (vp_expected_tree_digest replay) (run_actual_fixture env (Dir c) replay)
    \<and> contents c = contents es"
proof -
  have digest: "snapshot_digest env root (True, Dir xs) = Inr d"
    if "tree_digest (ve_blake3_hex env) root xs = Inr d" for root xs d
    using that by (simp add: snapshot_digest_def snapshot_tree_def)
  from copy_keeps_digest[OF assms(9)] assms(8)
  have "tree_digest (ve_blake3_hex env) (ve_temp_root env) c = Inr (vp_expected_tree_digest replay)" by blast
  from digest[OF this] digest[OF assms(8)] assms(1-7,9,10) copy_keeps_digest[OF assms(9)]
  show ?thesis by (simp add: reproduce_and_adjudicate_def Let_def copy_target_def)
qed

text \<open>C19. The process boundary adds nothing and loses nothing: what the parent returns as a result is the result
  of the child's reproduction on the very input, for every interleaving of polls and every failure,
  and without failures it returns it.\<close>

theorem verifier_process_boundary:
  assumes child: "\<And>sent. pa_output env sent = Inr \<lparr>co_code = Some (fst (run_verifier_child_main ce sent)),
                            co_stdout = snd (run_verifier_child_main ce sent), co_stderr = err\<rparr>"
    and "\<And>sent buf. ce_stdin ce sent = Some buf \<Longrightarrow> buf = sent"
    and "\<And>i bs. pa_to_vec env i = Inr bs \<Longrightarrow> ce_from_slice ce bs = Inr i"
    and "\<And>r bs. ce_to_vec ce r = Inr bs \<Longrightarrow> pa_from_slice env bs = Inr r"
  shows "(\<forall>r. verify_in_subprocess env input = Inr r \<longrightarrow>
            r = reproduce_and_adjudicate (ce_verifier ce) input \<and> vi_replay input \<noteq> None)
    \<and> (vi_replay input \<noteq> None \<and> pa_bin env \<noteq> None \<and> is_ok (pa_spawn env (the (pa_bin env)))
        \<and> is_ok (pa_to_vec env input) \<and> is_ok (pa_write env) \<and> is_ok (await_exit (pa_polls env))
        \<and> ce_stdin ce (projr (pa_to_vec env input)) \<noteq> None
        \<and> is_ok (ce_to_vec ce (reproduce_and_adjudicate (ce_verifier ce) input)) \<and> ce_stdout_ok ce
        \<longrightarrow> verify_in_subprocess env input = Inr (reproduce_and_adjudicate (ce_verifier ce) input))"
proof -
  have main: "ce_to_vec ce (reproduce_and_adjudicate (ce_verifier ce) input) = Inr (snd (run_verifier_child_main ce bs))"
    if "pa_to_vec env input = Inr bs" "fst (run_verifier_child_main ce bs) = 0" for bs
    using that(2) assms(2)[of bs] assms(3)[OF that(1)]
    by (auto simp: run_verifier_child_main_def split: option.splits sum.splits if_splits)
  have "r = reproduce_and_adjudicate (ce_verifier ce) input \<and> vi_replay input \<noteq> None"
    if v: "verify_in_subprocess env input = Inr r" for r
  proof -
    from v obtain bs where bs: "pa_to_vec env input = Inr bs" and w: "wait_with_output_deadline env bs = Inr r"
      and ne: "vi_replay input \<noteq> None"
      by (auto simp: verify_in_subprocess_def res_simps split: if_splits)
    from w have "fst (run_verifier_child_main ce bs) = 0" "pa_from_slice env (snd (run_verifier_child_main ce bs)) = Inr r"
      by (auto simp: wait_with_output_deadline_def res_simps child split: if_splits)
    with assms(4)[OF main[OF bs]] ne show ?thesis by simp
  qed
  moreover have "verify_in_subprocess env input = Inr (reproduce_and_adjudicate (ce_verifier ce) input)"
    if "vi_replay input \<noteq> None" "pa_bin env \<noteq> None" "is_ok (pa_spawn env (the (pa_bin env)))"
      "is_ok (pa_to_vec env input)" "is_ok (pa_write env)" "is_ok (await_exit (pa_polls env))"
      "ce_stdin ce (projr (pa_to_vec env input)) \<noteq> None"
      "is_ok (ce_to_vec ce (reproduce_and_adjudicate (ce_verifier ce) input))" "ce_stdout_ok ce"
  proof -
    from that(4) obtain bs where bs: "pa_to_vec env input = Inr bs" by (auto simp: is_ok_iff)
    from that(8) obtain out where out: "ce_to_vec ce (reproduce_and_adjudicate (ce_verifier ce) input) = Inr out"
      by (auto simp: is_ok_iff)
    from that(7) bs assms(2)[of bs] have "ce_stdin ce bs = Some bs" by auto
    with assms(3)[OF bs] out that(9) have run: "run_verifier_child_main ce bs = (0, out)"
      by (simp add: run_verifier_child_main_def)
    from that(3,5,6) obtain u v x where "pa_spawn env (the (pa_bin env)) = Inr u" "pa_write env = Inr v"
      "await_exit (pa_polls env) = Inr x" by (auto simp only: is_ok_iff)
    with that(1,2) bs run assms(4)[OF out] show ?thesis
      by (cases "pa_bin env") (simp_all add: verify_in_subprocess_def wait_with_output_deadline_def child ok_or_def)
  qed
  ultimately show ?thesis by blast
qed

subsection \<open>Witnesses\<close>

definition demo_hash :: "bytes \<Rightarrow> string" where
  "demo_hash bs = replicate 3 (char_of (fold (\<lambda>b acc. (7 * acc + unat b) mod 256) bs 1))"

definition demo_tree :: entries where
  "demo_tree = [(''server.py'', File [1, 2]), (''app'', Dir [(''a.py'', File [3])])]"

definition demo_replay :: verifier_replay where
  "demo_replay =
     \<lparr>vp_target_root = ''/t'', vp_expected_tree_digest = demo_hash (as_bytes (digest_input demo_hash (contents demo_tree))),
      vp_kind = FR_Path, vp_request_path = ''/x'', vp_cookie = None,
      vp_oracle = \<lparr>vo_expected_status = None, vo_body_contains = Some ''k'', vo_body_not_contains = None\<rparr>,
      vp_containment_required = True\<rparr>"

definition demo_input :: verifier_input where
  "demo_input =
     \<lparr>vi_claim = ''c'', vi_snapshot_id = ''s'', vi_oracle_contract = ''o'', vi_invariant = ''i'', vi_replay = Some demo_replay\<rparr>"

definition demo_verifier_env :: verifier_env where
  "demo_verifier_env =
     \<lparr>ve_blake3_hex = demo_hash, ve_from_utf8 = (\<lambda>_. None), ve_is_dir = True, ve_before = (True, Dir demo_tree),
      ve_at_copy = Dir demo_tree, ve_copied = (\<lambda>c. (True, if c = demo_tree then Dir c else Link)),
      ve_after = (True, Dir demo_tree), ve_temp_root = ''/t'',
      ve_target_id = TargetId 1, ve_snapshot_id = SnapshotId 2, ve_now = 3, ve_env_var = (\<lambda>_. None),
      ve_answers = (\<lambda>_. True), ve_reserve_port = Inr 9, ve_launch = (\<lambda>_ _ _. Inl ''none''),
      ve_oci_host = (\<lambda>_. demo_host), ve_oci_ids = (''s'', ''p''),
      ve_oci_net = (\<lambda>_ _ _ _. Inr (''HTTP/1.1 200 OK'' @ crlf @ crlf @ ''ok''))\<rparr>"

lemma demo_response: "parse_response (''HTTP/1.1 200 OK'' @ crlf @ crlf @ ''ok'') = Inr \<lparr>hr_status = 200, hr_body = ''ok''\<rparr>"
proof -
  have a: "find_split (crlf @ crlf) (''HTTP/1.1 200 OK'' @ crlf @ crlf @ ''ok'') = Some (''HTTP/1.1 200 OK'', ''ok'')"
    by code_simp
  have b: "str_lines ''HTTP/1.1 200 OK'' = [''HTTP/1.1 200 OK'']" by code_simp
  have c: "split_whitespace ''HTTP/1.1 200 OK'' = [''HTTP/1.1'', ''200'', ''OK'']" by code_simp
  have d: "parse_uint (2 ^ 16) ''200'' = Some 200" by (simp add: parse_uint_def is_ascii_digit_def)
  show ?thesis
    by (simp only: parse_response_def a b c d Let_def prod.case option.case list.case bind.simps) (simp add: b c d)
qed

lemma demo_fixture: "run_actual_fixture demo_verifier_env t demo_replay = Inr (200, ''ok'')"
proof -
  have "replay_get (\<lambda>_ _ _. Inr (''HTTP/1.1 200 OK'' @ crlf @ crlf @ ''ok'')) port demo_replay = Inr (200, ''ok'')" for port
    by (simp only: replay_get_def http_get_def http_exchange_def Let_def map_err_simps res_bind_simps demo_response http_response.select_convs)
  moreover obtain target where "start_contained demo_verifier_env t = Inr target"
    using demo_target_starts by (auto simp: start_contained_def demo_verifier_env_def is_ok_iff)
  moreover have "vp_containment_required demo_replay" by (simp add: demo_replay_def)
  ultimately show ?thesis by (simp add: run_actual_fixture_def) (simp add: demo_verifier_env_def)
qed

lemma demo_copy: "copy_exact_tree ''/t'' [] demo_tree = Inr demo_tree"
  by code_simp

lemma demo_digest: "tree_digest demo_hash ''/t'' demo_tree = Inr (vp_expected_tree_digest demo_replay)"
  using plain_digest[OF copy_plain[OF demo_copy]] by (simp add: demo_replay_def)

lemma demo_completes:
  "ve_copied demo_verifier_env demo_tree = (True, Dir demo_tree)" "vi_replay demo_input = Some demo_replay"
  "ve_before demo_verifier_env = (True, Dir demo_tree)" "ve_after demo_verifier_env = (True, Dir demo_tree)"
  "ve_at_copy demo_verifier_env = Dir demo_tree" "ve_is_dir demo_verifier_env" "ve_blake3_hex demo_verifier_env = demo_hash"
  "vi_claim demo_input \<noteq> []" "vi_oracle_contract demo_input \<noteq> []" "vp_target_root demo_replay = ''/t''"
  by (simp_all add: demo_verifier_env_def demo_input_def demo_replay_def)

lemma demo_reproduced: "reproduced demo_verifier_env demo_input demo_replay demo_tree 200 ''ok''"
proof -
  have "tree_digest demo_hash root demo_tree = Inr (vp_expected_tree_digest demo_replay)" for root
    using plain_digest[OF copy_plain[OF demo_copy]] by (simp add: demo_replay_def)
  moreover have "oracle_matches (vp_oracle demo_replay) 200 ''ok''" by code_simp
  ultimately show ?thesis
    by (simp add: reproduced_def Let_def demo_completes demo_fixture demo_copy copy_target_def snapshot_digest_def
        snapshot_tree_def)
qed


theorem verifier_complete_witness:
  "reproduce_and_adjudicate demo_verifier_env demo_input =
     adjudicate_run demo_replay (vp_expected_tree_digest demo_replay) (Inr (200, ''ok''))"
  using verifier_complete[of demo_input demo_replay demo_verifier_env demo_tree demo_tree] demo_digest demo_copy
  by (simp add: demo_completes demo_fixture)

definition demo_result :: verifier_process_result where
  "demo_result = reproduce_and_adjudicate demo_verifier_env demo_input"

definition demo_child_env :: child_env where
  "demo_child_env =
     \<lparr>ce_verifier = demo_verifier_env, ce_stdin = Some,
      ce_from_slice = (\<lambda>bs. if bs = [1] then Inr demo_input else Inl ''eof''),
      ce_to_vec = (\<lambda>r. if r = demo_result then Inr [2] else Inl ''too long''), ce_stdout_ok = True\<rparr>"

definition demo_parent_env :: parent_env where
  "demo_parent_env =
     \<lparr>pa_bin = Some ''/usr/bin/aros-verifier'', pa_spawn = (\<lambda>_. Inr ()),
      pa_to_vec = (\<lambda>i. if i = demo_input then Inr [1] else Inl ''too long''), pa_write = Inr (),
      pa_polls = [Exit_Running, Exit_Done],
      pa_output = (\<lambda>sent. Inr \<lparr>co_code = Some (fst (run_verifier_child_main demo_child_env sent)),
                               co_stdout = snd (run_verifier_child_main demo_child_env sent), co_stderr = []\<rparr>),
      pa_from_slice = (\<lambda>bs. if bs = [2] then Inr demo_result else Inl ''eof'')\<rparr>"

lemma demo_process:
  "ce_verifier demo_child_env = demo_verifier_env" "ce_stdin demo_child_env = Some" "ce_stdout_ok demo_child_env"
  "ce_to_vec demo_child_env demo_result = Inr [2]" "pa_bin demo_parent_env = Some ''/usr/bin/aros-verifier''"
  "pa_spawn demo_parent_env b = Inr ()" "pa_to_vec demo_parent_env demo_input = Inr [1]" "pa_write demo_parent_env = Inr ()"
  "await_exit (pa_polls demo_parent_env) = Inr ()"
  by (simp_all add: demo_child_env_def demo_parent_env_def)

theorem verifier_process_boundary_witness:
  "verify_in_subprocess demo_parent_env demo_input = Inr demo_result"
proof -
  have child: "pa_output demo_parent_env sent = Inr \<lparr>co_code = Some (fst (run_verifier_child_main demo_child_env sent)),
      co_stdout = snd (run_verifier_child_main demo_child_env sent), co_stderr = []\<rparr>" for sent
    by (simp add: demo_parent_env_def)
  have stdin: "buf = sent" if "ce_stdin demo_child_env sent = Some buf" for sent buf
    using that by (simp add: demo_child_env_def)
  have inp: "ce_from_slice demo_child_env bs = Inr i" if "pa_to_vec demo_parent_env i = Inr bs" for i bs
    using that by (simp add: demo_child_env_def demo_parent_env_def split: if_splits)
  have outp: "pa_from_slice demo_parent_env bs = Inr r" if "ce_to_vec demo_child_env r = Inr bs" for r bs
    using that by (simp add: demo_child_env_def demo_parent_env_def split: if_splits)
  from verifier_process_boundary[where input = demo_input, OF child stdin inp outp] show ?thesis
    by (simp add: demo_process demo_result_def[symmetric] demo_completes is_ok_def)
qed

end
