(* ===== verification/Sandbox.thy ===== *)
theory Sandbox
  imports Oci Types
begin

text \<open>
  \<^verbatim>\<open>aros-sandbox/src/lib.rs\<close> and the provider of \<^verbatim>\<open>aros-sandbox/src/oci.rs\<close>: the life cycle of a sandbox, the
  provider for tests, and the rootless provider with its admission probe. The helpers that
  \<^verbatim>\<open>oci.rs\<close> has in common with \<^verbatim>\<open>campaign_oci.rs\<close> are those of theory \<open>Oci\<close>.
\<close>

subsection \<open>The admission probe\<close>

definition oci_probe_args :: "string \<Rightarrow> string \<Rightarrow> argv \<Rightarrow> argv" where
  "oci_probe_args network img args =
     [''run'', ''--rm'', ''--network'', network, ''--pull=never'', ''--timeout'', ''8'', img] @ args"

definition nc_probe :: "oci_host \<Rightarrow> string \<Rightarrow> string \<Rightarrow> string \<Rightarrow> u16 \<Rightarrow> (podman_log, cmd_output option) state" where
  "nc_probe h network img host port = run_timeout h (oci_probe_args network img (nc_args host port))"

definition allow_transport_probe :: "oci_host \<Rightarrow> string \<Rightarrow> string \<Rightarrow> string \<Rightarrow> u16 \<Rightarrow> (podman_log, probe_outcome) state" where
  "allow_transport_probe h network img host port =
     do {
       ans \<leftarrow> nc_probe h network img host port;
       State_Monad.return
         (case ans of Some out \<Rightarrow> if out_code out = Some 0 then Proven else Failed | None \<Rightarrow> Indeterminate)
     }"

definition deny_transport_probe :: "oci_host \<Rightarrow> string \<Rightarrow> string \<Rightarrow> string \<Rightarrow> u16 \<Rightarrow> (podman_log, probe_outcome) state" where
  "deny_transport_probe h network img host port =
     do {
       ans \<leftarrow> nc_probe h network img host port;
       State_Monad.return
         (case ans of Some out \<Rightarrow> if out_code out = Some 0 then Failed else Proven | None \<Rightarrow> Indeterminate)
     }"

definition deny_command_probe :: "oci_host \<Rightarrow> string \<Rightarrow> string \<Rightarrow> argv \<Rightarrow> (podman_log, probe_outcome) state" where
  "deny_command_probe h network img args =
     do {
       ans \<leftarrow> run_timeout h (oci_probe_args network img args);
       State_Monad.return
         (case ans of Some out \<Rightarrow> if out_code out = Some 0 then Failed else Proven | None \<Rightarrow> Indeterminate)
     }"

text \<open>Unlike in \<^verbatim>\<open>campaign_oci.rs\<close>, a value that is not closed counts as empty and the search goes on.\<close>

definition oci_gateway_at :: "string \<Rightarrow> string \<Rightarrow> string option" where
  "oci_gateway_at inspect_text key =
     (case find_split key (to_ascii_lowercase inspect_text) of
        None \<Rightarrow> None
      | Some (before, _) \<Rightarrow>
          let value = trim (case find_split [CHR 0x22] (drop (length before + length key) inspect_text) of
                              None \<Rightarrow> [] | Some (v, _) \<Rightarrow> v)
          in if value \<noteq> [] \<and> value \<noteq> ''null'' then Some value else None)"

definition oci_extract_gateway :: "string \<Rightarrow> string option" where
  "oci_extract_gateway inspect_text =
     (case oci_gateway_at inspect_text gateway_key_spaced of
        Some value \<Rightarrow> Some value
      | None \<Rightarrow> oci_gateway_at inspect_text gateway_key_dense)"

definition host_gateway_probe :: "oci_host \<Rightarrow> string \<Rightarrow> string \<Rightarrow> string \<Rightarrow> (podman_log, probe_outcome) state" where
  "host_gateway_probe h network img inspect_text =
     (case oci_extract_gateway inspect_text of
        None \<Rightarrow> State_Monad.return Proven
      | Some gateway \<Rightarrow>
          do {
            ping \<leftarrow> deny_command_probe h network img (ping_args gateway);
            ssh \<leftarrow> deny_transport_probe h network img gateway 22;
            http \<leftarrow> deny_transport_probe h network img gateway 80;
            State_Monad.return (combine_denials [ping, ssh, http])
          })"

definition container_ip :: "oci_host \<Rightarrow> string \<Rightarrow> (podman_log, string option) state" where
  "container_ip h name =
     do {
       ans \<leftarrow> run_timeout h [''inspect'', ''-f'', ''{{range .NetworkSettings.Networks}}{{.IPAddress}}{{end}}'', name];
       State_Monad.return
         (case ans of
            None \<Rightarrow> None
          | Some out \<Rightarrow>
              if out_code out \<noteq> Some 0 then None
              else case oh_from_utf8 h (out_stdout out) of
                     None \<Rightarrow> None
                   | Some ip \<Rightarrow> if trim ip \<noteq> [] then Some (trim ip) else None)
     }"

record packet_isolation =
  pk_ran :: bool
  pk_target_reachability :: probe_outcome
  pk_external_egress :: probe_outcome
  pk_dns_bypass :: probe_outcome
  pk_host_gateway :: probe_outcome
  pk_ipv6_bypass :: probe_outcome
  pk_notes :: "string list"

definition packet_indeterminate :: "string \<Rightarrow> packet_isolation" where
  "packet_indeterminate note_text =
     \<lparr>pk_ran = False, pk_target_reachability = Indeterminate, pk_external_egress = Indeterminate,
      pk_dns_bypass = Indeterminate, pk_host_gateway = Indeterminate, pk_ipv6_bypass = Indeterminate,
      pk_notes = [note_text]\<rparr>"

definition outcome_debug :: "probe_outcome \<Rightarrow> string" where
  "outcome_debug v = (case v of Proven \<Rightarrow> ''Proven'' | Failed \<Rightarrow> ''Failed'' | Indeterminate \<Rightarrow> ''Indeterminate'')"

definition oci_reachability :: "oci_host \<Rightarrow> string \<Rightarrow> string \<Rightarrow> string \<Rightarrow> (podman_log, probe_outcome) state" where
  "oci_reachability h network img target_name =
     do {
       started \<leftarrow> run_timeout h (listener_args target_name network img);
       (case started of
          None \<Rightarrow> State_Monad.return Indeterminate
        | Some out \<Rightarrow>
            if out_code out \<noteq> Some 0 then State_Monad.return Failed
            else do {
              ip \<leftarrow> container_ip h target_name;
              allow_transport_probe h network img (unwrap_or target_name ip) 18080
            })
     }"

definition run_packet_probes :: "oci_host \<Rightarrow> string \<Rightarrow> string \<Rightarrow> string \<Rightarrow> string \<Rightarrow> string list \<Rightarrow> (podman_log, packet_isolation) state" where
  "run_packet_probes h target_name network inspect_text img notes =
     do {
       reach \<leftarrow> oci_reachability h network img target_name;
       egress \<leftarrow> deny_transport_probe h network img ''1.1.1.1'' 80;
       dns_direct \<leftarrow> deny_command_probe h network img dns_args;
       dns_resolved \<leftarrow> deny_transport_probe h network img ''one.one.one.one'' 80;
       gateway \<leftarrow> host_gateway_probe h network img inspect_text;
       ipv6 \<leftarrow> deny_command_probe h network img ping6_args;
       _ \<leftarrow> run_timeout h [''rm'', ''-f'', target_name];
       State_Monad.return
         (let dns = combine_denials [dns_direct, dns_resolved] in
          \<lparr>pk_ran = True, pk_target_reachability = reach, pk_external_egress = egress, pk_dns_bypass = dns,
           pk_host_gateway = gateway, pk_ipv6_bypass = ipv6,
           pk_notes = notes @
             [''target reachability: '' @ outcome_debug reach,
              ''unauthorized public IPv4 deny: '' @ outcome_debug egress,
              ''public DNS bypass deny: '' @ outcome_debug dns,
              ''host/gateway deny: '' @ outcome_debug gateway,
              ''IPv6 bypass deny: '' @ outcome_debug ipv6]\<rparr>)
     }"

definition probe_packet_isolation :: "oci_host \<Rightarrow> (i32 option \<Rightarrow> string) \<Rightarrow> string \<Rightarrow> string \<Rightarrow> string \<Rightarrow> (podman_log, packet_isolation) state" where
  "probe_packet_isolation h debug_code target_name network inspect_text =
     do {
       resolved \<leftarrow> resolve_probe_image h;
       (case resolved of
          None \<Rightarrow> State_Monad.return (packet_indeterminate
            ''packet probes not run: no alpine/busybox image (enable the OCI pull compatibility setting to pull)'')
        | Some img \<Rightarrow>
            do {
              preflight \<leftarrow> run_timeout h (oci_probe_args network img preflight_args);
              (case preflight of
                 None \<Rightarrow> State_Monad.return (packet_indeterminate ''packet probe preflight timed out'')
               | Some out \<Rightarrow>
                   if out_code out \<noteq> Some 0 then
                     State_Monad.return (packet_indeterminate (join_with ''; ''
                       [''packet probe image: '' @ img,
                        ''packet probe preflight failed (exit '' @ debug_code (out_code out) @ '')'']))
                   else run_packet_probes h target_name network inspect_text img
                          [''packet probe image: '' @ img, ''packet probe tool preflight passed''])
            })
     }"

definition inspect_output :: "oci_host \<Rightarrow> cmd_output option \<Rightarrow> string" where
  "inspect_output h ans =
     (case ans of
        Some out \<Rightarrow> if out_code out = Some 0 then unwrap_or [] (oh_from_utf8 h (out_stdout out)) else []
      | None \<Rightarrow> [])"

definition with_packet :: "packet_isolation \<Rightarrow> containment_report \<Rightarrow> containment_report" where
  "with_packet packet report =
     report\<lparr>cr_packet_probes_ran := pk_ran packet,
       cr_target_reachability_probe := pk_target_reachability packet,
       cr_external_egress_probe := pk_external_egress packet,
       cr_dns_bypass_probe := pk_dns_bypass packet,
       cr_host_gateway_probe := pk_host_gateway packet,
       cr_ipv6_bypass_probe := pk_ipv6_bypass packet,
       cr_target_reachable := (pk_target_reachability packet = Proven),
       cr_unauthorized_external_denied := (pk_external_egress packet = Proven),
       cr_dns_bypass_denied := (pk_dns_bypass packet = Proven),
       cr_host_gateway_denied := (pk_host_gateway packet = Proven),
       cr_ipv6_bypass_denied := (pk_ipv6_bypass packet = Proven),
       cr_notes := cr_notes report @ pk_notes packet\<rparr>"

text \<open>\<open>runtime\<close> is the path of the runtime the provider was made with.\<close>

definition probe_containment_uncached ::
    "oci_host \<Rightarrow> (i32 option \<Rightarrow> string) \<Rightarrow> string option \<Rightarrow> string \<Rightarrow> string \<Rightarrow> (podman_log, containment_report) state" where
  "probe_containment_uncached h debug_code runtime network target_name =
     do {
       machine_reachable \<leftarrow> (if runtime = None then State_Monad.return False else podman_reachable h);
       (let report = default_containment_report\<lparr>cr_runtime_present := (runtime \<noteq> None), cr_machine_reachable := machine_reachable,
              cr_policy_public_internet_deny := True, cr_policy_host_socket_deny := True\<rparr> in
        if runtime = None then State_Monad.return (report\<lparr>cr_notes := [''no rootless OCI runtime (podman) detected'']\<rparr>)
        else if \<not> machine_reachable then State_Monad.return (report\<lparr>cr_notes := [''podman present but `podman info` failed'']\<rparr>)
        else do {
          created \<leftarrow> run_timeout h (create_args network);
          (if \<not> status_ok created then State_Monad.return (report\<lparr>cr_notes := [''internal network create failed'']\<rparr>)
           else do {
             ans \<leftarrow> run_timeout h (inspect_args network);
             (let inspect_text = inspect_output h ans;
                  report = report\<lparr>cr_internal_network := reports_internal inspect_text\<rparr> in
              do {
                filled \<leftarrow> (if reports_internal inspect_text then do {
                          packet \<leftarrow> probe_packet_isolation h debug_code target_name network inspect_text;
                          State_Monad.return (with_packet packet report)
                        }
                        else State_Monad.return (report\<lparr>cr_notes := [''internal network inspect did not report internal=true'']\<rparr>));
                _ \<leftarrow> run_timeout h [''network'', ''rm'', ''-f'', network];
                State_Monad.return filled
              })
           })
        })
     }"

subsection \<open>Sandboxes\<close>

datatype sandbox_phase = Prepared | PolicyVerified | Running | Frozen | Destroyed

record sandbox_handle =
  sh_id :: sandbox_id
  sh_phase :: sandbox_phase
  sh_workdir :: string
  sh_containment_demonstrated :: bool
  sh_provider :: string
  sh_created_unix_ms :: u64

record exec_result =
  xr_exit_status :: i32
  xr_stdout :: bytes
  xr_stderr :: bytes

text \<open>An operation on a handle returns its result and the handle after it.\<close>

type_synonym handle_op = "sandbox_handle \<Rightarrow> (sandbox_error + unit) \<times> sandbox_handle"

record sandbox_provider_ops =
  so_verify_policy :: handle_op
  so_spawn :: handle_op
  so_execute :: "sandbox_handle \<Rightarrow> argv \<Rightarrow> sandbox_error + exec_result"
  so_reset :: handle_op
  so_freeze :: handle_op
  so_destroy :: handle_op

definition set_phase :: "sandbox_phase \<Rightarrow> handle_op" where
  "set_phase p s = (Inr (), s\<lparr>sh_phase := p\<rparr>)"

subsection \<open>The provider for tests\<close>

definition fake_prepare :: "sandbox_id \<Rightarrow> u64 \<Rightarrow> (string \<Rightarrow> string + unit) \<Rightarrow> string \<Rightarrow> sandbox_error + sandbox_handle" where
  "fake_prepare sid now create_dir_all workdir =
     res_bind (map_err SB_Io (create_dir_all workdir)) (\<lambda>_.
       Inr \<lparr>sh_id = sid, sh_phase = Prepared, sh_workdir = workdir, sh_containment_demonstrated = False,
            sh_provider = ''fake'', sh_created_unix_ms = now\<rparr>)"

definition fake_build_target :: "(sandbox_id \<Rightarrow> string) \<Rightarrow> sandbox_handle \<Rightarrow> sandbox_error + string" where
  "fake_build_target show_id s = Inr (''fake-image:'' @ show_id (sh_id s))"

definition fake_verify_policy :: handle_op where
  "fake_verify_policy s = (if sh_phase s \<noteq> Prepared then (Inl SB_InvalidState, s) else set_phase PolicyVerified s)"

definition fake_spawn :: handle_op where
  "fake_spawn s = (if sh_phase s \<noteq> PolicyVerified then (Inl SB_InvalidState, s) else set_phase Running s)"

definition fake_execute :: "(argv \<Rightarrow> string) \<Rightarrow> sandbox_handle \<Rightarrow> argv \<Rightarrow> sandbox_error + exec_result" where
  "fake_execute debug_argv s args =
     (if sh_phase s \<noteq> Running then Inl SB_InvalidState
      else if args = [] then Inl (SB_FailClosed ''empty argv'')
      else Inr \<lparr>xr_exit_status = 0, xr_stdout = as_bytes (''fake-exec:'' @ debug_argv args), xr_stderr = []\<rparr>)"

definition fake_snapshot :: "(sandbox_id \<Rightarrow> string) \<Rightarrow> sandbox_handle \<Rightarrow> sandbox_error + string" where
  "fake_snapshot show_id s = Inr (''fake-snap-'' @ show_id (sh_id s))"

text \<open>Reading a collected file and removing the directory are effects on the file system; the removal's outcome is
  ignored.\<close>

definition sandbox_collect :: "(string \<Rightarrow> string + bytes) \<Rightarrow> sandbox_handle \<Rightarrow> string \<Rightarrow> sandbox_error + bytes" where
  "sandbox_collect read_file s relpath = map_err SB_Io (read_file (path_join (sh_workdir s) relpath))"

definition fake_ops :: "(argv \<Rightarrow> string) \<Rightarrow> sandbox_provider_ops" where
  "fake_ops debug_argv =
     \<lparr>so_verify_policy = fake_verify_policy, so_spawn = fake_spawn, so_execute = fake_execute debug_argv,
      so_reset = set_phase Prepared, so_freeze = set_phase Frozen, so_destroy = set_phase Destroyed\<rparr>"

subsection \<open>The rootless provider\<close>

definition rootless_prepare ::
    "oci_host \<Rightarrow> (i32 option \<Rightarrow> string) \<Rightarrow> string option \<Rightarrow> string \<Rightarrow> string \<Rightarrow> sandbox_id \<Rightarrow> u64 \<Rightarrow> (string \<Rightarrow> string + unit)
      \<Rightarrow> string \<Rightarrow> (podman_log, sandbox_error + sandbox_handle) state" where
  "rootless_prepare h debug_code runtime network target_name sid now create_dir_all workdir =
     (if runtime = None
      then State_Monad.return (Inl (SB_FailClosed ''no rootless OCI runtime (podman); campaign fails closed''))
      else do {
        report \<leftarrow> probe_containment_uncached h debug_code runtime network target_name;
        State_Monad.return
          (if \<not> live_oci_claimable report
           then Inl (SB_FailClosed ''OCI runtime present but fresh live packet isolation is not demonstrated'')
           else res_bind (map_err SB_Io (create_dir_all workdir)) (\<lambda>_.
             Inr \<lparr>sh_id = sid, sh_phase = Prepared, sh_workdir = workdir, sh_containment_demonstrated = True,
                  sh_provider = ''rootless-oci'', sh_created_unix_ms = now\<rparr>))
      })"

definition rootless_build_target :: "sandbox_handle \<Rightarrow> sandbox_error + string" where
  "rootless_build_target s =
     (if \<not> sh_containment_demonstrated s then Inl (SB_FailClosed ''oci containment not demonstrated'')
      else Inl (SB_FailClosed ''campaign-bound OCI target construction is not implemented; capability probe is not an execution sandbox''))"

definition rootless_verify_policy :: handle_op where
  "rootless_verify_policy s =
     (if sh_phase s \<noteq> Prepared \<or> \<not> sh_containment_demonstrated s
      then (Inl (SB_FailClosed ''oci containment not demonstrated''), s)
      else set_phase PolicyVerified s)"

definition rootless_spawn :: handle_op where
  "rootless_spawn s =
     (if sh_phase s \<noteq> PolicyVerified then (Inl SB_InvalidState, s)
      else (Inl (SB_FailClosed ''campaign-bound OCI target spawn is not implemented''), s))"

definition rootless_execute :: "sandbox_handle \<Rightarrow> argv \<Rightarrow> sandbox_error + exec_result" where
  "rootless_execute s args =
     (if sh_phase s \<noteq> Running then Inl SB_InvalidState
      else Inl (SB_FailClosed ''raw podman argv execution is forbidden; typed campaign-bound execution is required''))"

definition rootless_snapshot :: "sandbox_handle \<Rightarrow> sandbox_error + string" where
  "rootless_snapshot s = Inl (SB_FailClosed ''campaign-bound OCI snapshot is not implemented'')"

definition rootless_ops :: sandbox_provider_ops where
  "rootless_ops =
     \<lparr>so_verify_policy = rootless_verify_policy, so_spawn = rootless_spawn, so_execute = rootless_execute,
      so_reset = set_phase Prepared, so_freeze = set_phase Frozen, so_destroy = set_phase Destroyed\<rparr>"

subsection \<open>The contract of a provider\<close>

datatype sandbox_op = Op_Verify | Op_Spawn | Op_Reset | Op_Freeze | Op_Destroy

primrec sandbox_step :: "sandbox_provider_ops \<Rightarrow> sandbox_op \<Rightarrow> handle_op" where
  "sandbox_step P Op_Verify = so_verify_policy P"
| "sandbox_step P Op_Spawn = so_spawn P"
| "sandbox_step P Op_Reset = so_reset P"
| "sandbox_step P Op_Freeze = so_freeze P"
| "sandbox_step P Op_Destroy = so_destroy P"

fun sandbox_run :: "sandbox_provider_ops \<Rightarrow> sandbox_op list \<Rightarrow> sandbox_handle \<Rightarrow> sandbox_handle" where
  "sandbox_run P [] s = s"
| "sandbox_run P (op # ops) s = sandbox_run P ops (snd (sandbox_step P op s))"

lemma sandbox_run_append: "sandbox_run P (xs @ ys) s = sandbox_run P ys (sandbox_run P xs s)"
  by (induction xs arbitrary: s) auto

text \<open>The phases a call may lead to, and that a handle keeps everything but its phase.\<close>

locale sandbox_provider =
  fixes P :: sandbox_provider_ops
  assumes keeps: "\<And>op s. snd (sandbox_step P op s) = s\<lparr>sh_phase := sh_phase (snd (sandbox_step P op s))\<rparr>"
    and verified: "\<And>op s. sh_phase (snd (sandbox_step P op s)) = PolicyVerified \<Longrightarrow> sh_phase s \<noteq> PolicyVerified
           \<Longrightarrow> op = Op_Verify \<and> sh_phase s = Prepared"
    and running: "\<And>op s. sh_phase (snd (sandbox_step P op s)) = Running \<Longrightarrow> sh_phase s \<noteq> Running
           \<Longrightarrow> op = Op_Spawn \<and> sh_phase s = PolicyVerified"
    and executes: "\<And>s args r. so_execute P s args = Inr r \<Longrightarrow> sh_phase s = Running"
begin

lemma run_keeps: "sandbox_run P ops s = s\<lparr>sh_phase := sh_phase (sandbox_run P ops s)\<rparr>"
proof (induction ops arbitrary: s)
  case (Cons op ops)
  let ?s = "snd (sandbox_step P op s)"
  have "sandbox_run P ops ?s = ?s\<lparr>sh_phase := sh_phase (sandbox_run P ops ?s)\<rparr>" by (rule Cons.IH)
  also have "\<dots> = s\<lparr>sh_phase := sh_phase (sandbox_run P ops ?s)\<rparr>"
    by (subst keeps) simp
  finally show ?case by simp
qed simp

text \<open>A phase that only one operation leads to was entered by it.\<close>

lemma entered:
  assumes "sh_phase (sandbox_run P ops s) = p" "sh_phase s \<noteq> p"
    and "\<And>op s. sh_phase (snd (sandbox_step P op s)) = p \<Longrightarrow> sh_phase s \<noteq> p \<Longrightarrow> op = e \<and> sh_phase s = q"
  shows "\<exists>before after. ops = before @ e # after \<and> sh_phase (sandbox_run P before s) = q"
  using assms(1,2)
proof (induction ops rule: rev_induct)
  case (snoc op ops)
  show ?case
  proof (cases "sh_phase (sandbox_run P ops s) = p")
    case True
    with snoc obtain before after where "ops = before @ e # after" "sh_phase (sandbox_run P before s) = q" by blast
    then show ?thesis by (intro exI[of _ before] exI[of _ "after @ [op]"]) simp
  next
    case False
    with snoc.prems assms(3)[of op "sandbox_run P ops s"] show ?thesis
      by (intro exI[of _ ops] exI[of _ "[]"]) (simp add: sandbox_run_append)
  qed
qed simp

lemma execute_lifecycle:
  assumes "sh_phase s = Prepared" "so_execute P (sandbox_run P ops s) args = Inr r"
  shows "\<exists>a b c. ops = a @ Op_Verify # b @ Op_Spawn # c \<and> sh_phase (sandbox_run P a s) = Prepared
    \<and> sh_phase (sandbox_run P (a @ Op_Verify # b) s) = PolicyVerified"
proof -
  from executes[OF assms(2)] entered[OF _ _ running] assms(1) obtain before c
    where o: "ops = before @ Op_Spawn # c" and v: "sh_phase (sandbox_run P before s) = PolicyVerified" by fastforce
  from entered[OF v _ verified] assms(1) obtain a b
    where "before = a @ Op_Verify # b" "sh_phase (sandbox_run P a s) = Prepared" by fastforce
  with o v show ?thesis by auto
qed

end

interpretation fake_sandbox: sandbox_provider "fake_ops debug_argv" for debug_argv
proof
  show "snd (sandbox_step (fake_ops debug_argv) op s) = s\<lparr>sh_phase := sh_phase (snd (sandbox_step (fake_ops debug_argv) op s))\<rparr>" for op s
    by (cases op) (auto simp: fake_ops_def fake_verify_policy_def fake_spawn_def set_phase_def)
  show "sh_phase (snd (sandbox_step (fake_ops debug_argv) op s)) = PolicyVerified \<Longrightarrow> sh_phase s \<noteq> PolicyVerified
      \<Longrightarrow> op = Op_Verify \<and> sh_phase s = Prepared" for op s
    by (cases op) (auto simp: fake_ops_def fake_verify_policy_def fake_spawn_def set_phase_def split: if_splits)
  show "sh_phase (snd (sandbox_step (fake_ops debug_argv) op s)) = Running \<Longrightarrow> sh_phase s \<noteq> Running
      \<Longrightarrow> op = Op_Spawn \<and> sh_phase s = PolicyVerified" for op s
    by (cases op) (auto simp: fake_ops_def fake_verify_policy_def fake_spawn_def set_phase_def split: if_splits)
  show "so_execute (fake_ops debug_argv) s args = Inr r \<Longrightarrow> sh_phase s = Running" for s args r
    by (auto simp: fake_ops_def fake_execute_def split: if_splits)
qed

interpretation rootless_sandbox: sandbox_provider rootless_ops
proof
  show "snd (sandbox_step rootless_ops op s) = s\<lparr>sh_phase := sh_phase (snd (sandbox_step rootless_ops op s))\<rparr>" for op s
    by (cases op) (auto simp: rootless_ops_def rootless_verify_policy_def rootless_spawn_def set_phase_def)
  show "sh_phase (snd (sandbox_step rootless_ops op s)) = PolicyVerified \<Longrightarrow> sh_phase s \<noteq> PolicyVerified
      \<Longrightarrow> op = Op_Verify \<and> sh_phase s = Prepared" for op s
    by (cases op) (auto simp: rootless_ops_def rootless_verify_policy_def rootless_spawn_def set_phase_def split: if_splits)
  show "sh_phase (snd (sandbox_step rootless_ops op s)) = Running \<Longrightarrow> sh_phase s \<noteq> Running
      \<Longrightarrow> op = Op_Spawn \<and> sh_phase s = PolicyVerified" for op s
    by (cases op) (auto simp: rootless_ops_def rootless_verify_policy_def rootless_spawn_def set_phase_def split: if_splits)
  show "so_execute rootless_ops s args = Inr r \<Longrightarrow> sh_phase s = Running" for s args r
    by (auto simp: rootless_ops_def rootless_execute_def split: if_splits)
qed

subsection \<open>Who may execute\<close>

text \<open>Execution through a provider is never contained execution in disguise. The provider for tests executes only
  after its policy was verified and the sandbox spawned, in this order, and its handle never claims
  containment; the rootless provider, whose handles do claim it, executes nothing, whatever
  operations are called in whatever order.\<close>

theorem provider_execution_honest:
  "(fake_prepare sid now create_dir_all workdir = Inr s
      \<and> so_execute (fake_ops debug_argv) (sandbox_run (fake_ops debug_argv) ops s) args = Inr r
      \<longrightarrow> \<not> sh_containment_demonstrated (sandbox_run (fake_ops debug_argv) ops s)
        \<and> (\<exists>a b c. ops = a @ Op_Verify # b @ Op_Spawn # c
             \<and> sh_phase (sandbox_run (fake_ops debug_argv) a s) = Prepared
             \<and> sh_phase (sandbox_run (fake_ops debug_argv) (a @ Op_Verify # b) s) = PolicyVerified))
   \<and> (fst (run_state (rootless_prepare h debug_code runtime network target_name sid now create_dir_all workdir) l) = Inr s
      \<longrightarrow> sh_containment_demonstrated (sandbox_run rootless_ops ops s)
        \<and> (\<exists>e. so_execute rootless_ops (sandbox_run rootless_ops ops s) args = Inl e))"
proof (intro conjI impI; (elim conjE)?)
  assume f: "fake_prepare sid now create_dir_all workdir = Inr s"
    "so_execute (fake_ops debug_argv) (sandbox_run (fake_ops debug_argv) ops s) args = Inr r"
  then have s: "sh_phase s = Prepared" "\<not> sh_containment_demonstrated s" by (auto simp: fake_prepare_def res_simps)
  show "\<not> sh_containment_demonstrated (sandbox_run (fake_ops debug_argv) ops s)"
    by (subst fake_sandbox.run_keeps) (simp add: s)
  from fake_sandbox.execute_lifecycle[OF s(1) f(2)]
  show "\<exists>a b c. ops = a @ Op_Verify # b @ Op_Spawn # c
      \<and> sh_phase (sandbox_run (fake_ops debug_argv) a s) = Prepared
      \<and> sh_phase (sandbox_run (fake_ops debug_argv) (a @ Op_Verify # b) s) = PolicyVerified" .
next
  assume "fst (run_state (rootless_prepare h debug_code runtime network target_name sid now create_dir_all workdir) l) = Inr s"
  then have s: "sh_containment_demonstrated s"
    by (auto simp: rootless_prepare_def res_simps split: if_splits prod.splits)
  show "sh_containment_demonstrated (sandbox_run rootless_ops ops s)"
    by (subst rootless_sandbox.run_keeps) (simp add: s)
  show "\<exists>e. so_execute rootless_ops (sandbox_run rootless_ops ops s) args = Inl e"
    by (simp add: rootless_ops_def rootless_execute_def)
qed

definition demo_handle :: sandbox_handle where
  "demo_handle = \<lparr>sh_id = SandboxId 1, sh_phase = Prepared, sh_workdir = ''/w'', sh_containment_demonstrated = False,
     sh_provider = ''fake'', sh_created_unix_ms = 5\<rparr>"

theorem provider_execution_honest_witness:
  "so_execute (fake_ops concat) (sandbox_run (fake_ops concat) [Op_Verify, Op_Spawn] demo_handle) [''true'']
     = Inr \<lparr>xr_exit_status = 0, xr_stdout = as_bytes ''fake-exec:true'', xr_stderr = []\<rparr>
   \<and> \<not> sh_containment_demonstrated (sandbox_run (fake_ops concat) [Op_Verify, Op_Spawn] demo_handle)"
proof -
  have p: "fake_prepare (SandboxId 1) 5 (\<lambda>_. Inr ()) ''/w'' = Inr demo_handle"
    by (simp add: fake_prepare_def demo_handle_def)
  have x: "so_execute (fake_ops concat) (sandbox_run (fake_ops concat) [Op_Verify, Op_Spawn] demo_handle) [''true'']
     = Inr \<lparr>xr_exit_status = 0, xr_stdout = as_bytes ''fake-exec:true'', xr_stderr = []\<rparr>" by code_simp
  from provider_execution_honest p x show ?thesis by blast
qed

subsection \<open>What the admission probe shows\<close>

definition probe_isolated :: "oci_host \<Rightarrow> podman_log \<Rightarrow> podman_log \<Rightarrow> string \<Rightarrow> string \<Rightarrow> bool" where
  "probe_isolated h l l' network inspect_text \<longleftrightarrow>
     (\<exists>img peer host.
        did h l l' (listener_args peer network img) status_ok
        \<and> did h l l' (oci_probe_args network img (nc_args host 18080)) status_ok
        \<and> did h l l' (oci_probe_args network img (nc_args ''1.1.1.1'' 80)) refused
        \<and> did h l l' (oci_probe_args network img dns_args) refused
        \<and> did h l l' (oci_probe_args network img (nc_args ''one.one.one.one'' 80)) refused
        \<and> did h l l' (oci_probe_args network img ping6_args) refused
        \<and> (\<forall>gateway. oci_extract_gateway inspect_text = Some gateway \<longrightarrow>
             did h l l' (oci_probe_args network img (ping_args gateway)) refused
             \<and> did h l l' (oci_probe_args network img (nc_args gateway 22)) refused
             \<and> did h l l' (oci_probe_args network img (nc_args gateway 80)) refused))"

lemma probe_isolated_within:
  "probe_isolated h l1 l2 network inspect_text \<Longrightarrow> prefix l l1 \<Longrightarrow> prefix l2 l' \<Longrightarrow> probe_isolated h l l' network inspect_text"
  unfolding probe_isolated_def by (meson did_within)

lemma deny_transport_probe_run:
  "run_state (deny_transport_probe h network img host port) l = (res, l') \<Longrightarrow>
     prefix l l' \<and> (res = Proven \<longrightarrow> did h l l' (oci_probe_args network img (nc_args host port)) refused)"
  by (auto simp: deny_transport_probe_def nc_probe_def run_timeout_def refused_def status_ok_def
      intro!: did_run split: option.splits if_splits)

lemma deny_command_probe_run:
  "run_state (deny_command_probe h network img args) l = (res, l') \<Longrightarrow>
     prefix l l' \<and> (res = Proven \<longrightarrow> did h l l' (oci_probe_args network img args) refused)"
  by (auto simp: deny_command_probe_def run_timeout_def refused_def status_ok_def intro!: did_run
      split: option.splits if_splits)

lemma allow_transport_probe_run:
  "run_state (allow_transport_probe h network img host port) l = (res, l') \<Longrightarrow>
     prefix l l' \<and> (res = Proven \<longrightarrow> did h l l' (oci_probe_args network img (nc_args host port)) status_ok)"
  by (auto simp: allow_transport_probe_def nc_probe_def run_timeout_def status_ok_def intro!: did_run
      split: option.splits if_splits)

lemma oci_reachability_run:
  assumes "run_state (oci_reachability h network img peer) l = (res, l')"
  shows "prefix l l' \<and> (res = Proven \<longrightarrow> did h l l' (listener_args peer network img) status_ok
    \<and> (\<exists>host. did h l l' (oci_probe_args network img (nc_args host 18080)) status_ok))"
proof (cases "status_ok (oh_podman h l (listener_args peer network img))")
  case True
  with assms obtain ip l2 where ip: "run_state (container_ip h peer) (l @ [listener_args peer network img]) = (ip, l2)"
    and a: "run_state (allow_transport_probe h network img (unwrap_or peer ip) 18080) l2 = (res, l')"
    by (auto simp: oci_reachability_def run_timeout_def status_ok_def split: option.splits prod.splits)
  from ip have p: "prefix (l @ [listener_args peer network img]) l2" by (auto simp: container_ip_def run_timeout_def)
  from allow_transport_probe_run[OF a] p did_run[where P = status_ok, OF True] show ?thesis
    by (meson append_prefixD did_earlier did_later prefix_order.trans)
next
  case False
  with assms show ?thesis
    by (auto simp: oci_reachability_def run_timeout_def status_ok_def split: option.splits)
qed

lemma host_gateway_probe_run:
  assumes "run_state (host_gateway_probe h network img inspect_text) l = (res, l')"
  shows "prefix l l' \<and> (res = Proven \<longrightarrow> (\<forall>gateway. oci_extract_gateway inspect_text = Some gateway \<longrightarrow>
      did h l l' (oci_probe_args network img (ping_args gateway)) refused
      \<and> did h l l' (oci_probe_args network img (nc_args gateway 22)) refused
      \<and> did h l l' (oci_probe_args network img (nc_args gateway 80)) refused))"
proof (cases "oci_extract_gateway inspect_text")
  case (Some gateway)
  with assms obtain ping l1 ssh l2 http where a: "run_state (deny_command_probe h network img (ping_args gateway)) l = (ping, l1)"
    and b: "run_state (deny_transport_probe h network img gateway 22) l1 = (ssh, l2)"
    and c: "run_state (deny_transport_probe h network img gateway 80) l2 = (http, l')"
    and r: "res = combine_denials [ping, ssh, http]"
    by (auto simp: host_gateway_probe_def split: prod.splits)
  note s = deny_command_probe_run[OF a] deny_transport_probe_run[OF b] deny_transport_probe_run[OF c]
  then have "prefix l l2" "prefix l1 l'" by (meson prefix_order.trans)+
  with s r Some show ?thesis by (auto simp: combine_denials_Proven intro: did_within)
qed (use assms in \<open>simp add: host_gateway_probe_def\<close>)

lemma run_packet_probes_run:
  assumes run: "run_state (run_packet_probes h peer network inspect_text img notes) l = (packet, l')"
    and all: "pk_target_reachability packet = Proven" "pk_external_egress packet = Proven" "pk_dns_bypass packet = Proven"
      "pk_host_gateway packet = Proven" "pk_ipv6_bypass packet = Proven"
  shows "probe_isolated h l l' network inspect_text"
proof -
  from run obtain reach l3 egress l4 dns1 l5 dns2 l6 gw l7 ip6 l8
    where s3: "run_state (oci_reachability h network img peer) l = (reach, l3)"
      and s4: "run_state (deny_transport_probe h network img ''1.1.1.1'' 80) l3 = (egress, l4)"
      and s5: "run_state (deny_command_probe h network img dns_args) l4 = (dns1, l5)"
      and s6: "run_state (deny_transport_probe h network img ''one.one.one.one'' 80) l5 = (dns2, l6)"
      and s7: "run_state (host_gateway_probe h network img inspect_text) l6 = (gw, l7)"
      and s8: "run_state (deny_command_probe h network img ping6_args) l7 = (ip6, l8)"
      and e: "l' = l8 @ [[''rm'', ''-f'', peer]]"
      and pk: "pk_target_reachability packet = reach" "pk_external_egress packet = egress"
        "pk_dns_bypass packet = combine_denials [dns1, dns2]" "pk_host_gateway packet = gw" "pk_ipv6_bypass packet = ip6"
    unfolding run_packet_probes_def by (elim run_bindE) (auto simp: run_timeout_run Let_def)
  from all pk have ok: "reach = Proven" "egress = Proven" "dns1 = Proven" "dns2 = Proven" "gw = Proven" "ip6 = Proven"
    by (auto simp: combine_denials_Proven)
  note steps = oci_reachability_run[OF s3] deny_transport_probe_run[OF s4] deny_command_probe_run[OF s5]
    deny_transport_probe_run[OF s6] host_gateway_probe_run[OF s7] deny_command_probe_run[OF s8]
  have p: "prefix l l3" "prefix l3 l4" "prefix l4 l5" "prefix l5 l6" "prefix l6 l7" "prefix l7 l8" "prefix l8 l'"
    using steps e by auto
  then have q: "prefix l l4" "prefix l l5" "prefix l l6" "prefix l l7"
      "prefix l3 l'" "prefix l4 l'" "prefix l5 l'" "prefix l6 l'" "prefix l7 l'"
    by (meson prefix_order.trans)+
  from steps ok obtain host where "did h l l3 (oci_probe_args network img (nc_args host 18080)) status_ok" by blast
  then show ?thesis
    unfolding probe_isolated_def using steps ok p q
    by (intro exI[of _ img] exI[of _ peer] exI[of _ host]) (auto intro: did_within did_later)
qed

lemma probe_packet_isolation_run:
  assumes run: "run_state (probe_packet_isolation h debug_code peer network inspect_text) l = (packet, l')"
  shows "prefix l l'"
    and "pk_ran packet \<Longrightarrow> pk_target_reachability packet = Proven \<Longrightarrow> pk_external_egress packet = Proven \<Longrightarrow> pk_dns_bypass packet = Proven
      \<Longrightarrow> pk_host_gateway packet = Proven \<Longrightarrow> pk_ipv6_bypass packet = Proven \<Longrightarrow> probe_isolated h l l' network inspect_text"
proof -
  have any: "emits (\<lambda>_. True) (run_packet_probes h peer network inspect_text img ns)" for img ns
    unfolding run_packet_probes_def oci_reachability_def container_ip_def deny_transport_probe_def allow_transport_probe_def
      deny_command_probe_def nc_probe_def host_gateway_probe_def
    by (intro emits_intros TrueI)
  from run consider (no) "prefix l l'" "\<not> pk_ran packet"
    | (ran) img ns l2 where "prefix l l2" "run_state (run_packet_probes h peer network inspect_text img ns) l2 = (packet, l')"
    unfolding probe_packet_isolation_def
  proof (elim run_bindE)
    fix resolved l1
    assume a: "run_state (resolve_probe_image h) l = (resolved, l1)"
      and b: "run_state (case resolved of
          None \<Rightarrow> State_Monad.return (packet_indeterminate
            ''packet probes not run: no alpine/busybox image (enable the OCI pull compatibility setting to pull)'')
        | Some img \<Rightarrow>
            do {
              preflight \<leftarrow> run_timeout h (oci_probe_args network img preflight_args);
              (case preflight of
                 None \<Rightarrow> State_Monad.return (packet_indeterminate ''packet probe preflight timed out'')
               | Some out \<Rightarrow>
                   if out_code out \<noteq> Some 0 then
                     State_Monad.return (packet_indeterminate (join_with ''; ''
                       [''packet probe image: '' @ img,
                        ''packet probe preflight failed (exit '' @ debug_code (out_code out) @ '')'']))
                   else run_packet_probes h peer network inspect_text img
                          [''packet probe image: '' @ img, ''packet probe tool preflight passed''])
            }) l1 = (packet, l')"
    from emitsD[OF emits_resolve(1) a] have "prefix l l1" by (auto simp: prefix_def)
    then have pre: "prefix l (l1 @ xs)" for xs by (auto simp: prefix_def)
    show thesis
    proof (cases resolved)
      case None
      with b pre[of "[]"] show thesis by (intro that(1)) (auto simp: packet_indeterminate_def)
    next
      case (Some img)
      let ?pre = "oci_probe_args network img preflight_args"
      show thesis
      proof (cases "status_ok (oh_podman h l1 ?pre)")
        case True
        with b Some show thesis
          by (intro that(2)[OF pre[of "[?pre]"]]) (auto simp: run_timeout_def status_ok_def split: option.splits)
      next
        case False
        with b Some pre[of "[?pre]"] show thesis
          by (intro that(1)) (auto simp: run_timeout_def status_ok_def packet_indeterminate_def split: option.splits if_splits)
      qed
    qed
  qed
  then have "prefix l l' \<and> (pk_ran packet \<and> pk_target_reachability packet = Proven \<and> pk_external_egress packet = Proven
      \<and> pk_dns_bypass packet = Proven \<and> pk_host_gateway packet = Proven \<and> pk_ipv6_bypass packet = Proven
      \<longrightarrow> probe_isolated h l l' network inspect_text)"
  proof cases
    case (ran img ns l2)
    from emitsD[OF any ran(2)] have p: "prefix l2 l'" by (auto simp: prefix_def)
    have "probe_isolated h l l' network inspect_text" if "probe_isolated h l2 l' network inspect_text"
      using that ran(1) unfolding probe_isolated_def by (meson did_earlier)
    with p ran run_packet_probes_run[OF ran(2)] show ?thesis by (auto intro: prefix_order.trans)
  qed simp
  then show "prefix l l'"
    and "pk_ran packet \<Longrightarrow> pk_target_reachability packet = Proven \<Longrightarrow> pk_external_egress packet = Proven \<Longrightarrow> pk_dns_bypass packet = Proven
      \<Longrightarrow> pk_host_gateway packet = Proven \<Longrightarrow> pk_ipv6_bypass packet = Proven \<Longrightarrow> probe_isolated h l l' network inspect_text"
    by blast+
qed

lemmas probe_unfolds = probe_containment_uncached_def podman_reachable_def run_timeout_def live_oci_claimable_def
  default_containment_report_def Let_def

text \<open>The probe once its network exists.\<close>

lemma admission_created_run:
  assumes run: "run_state (probe_containment_uncached h debug_code (Some bin) network peer) l = (report, l')"
    and info: "status_ok (oh_podman h l [''info''])"
    and created: "status_ok (oh_podman h (l @ [[''info'']]) (create_args network))"
  defines "l2 \<equiv> l @ [[''info''], create_args network]"
  shows "prefix l2 l' \<and> l' \<noteq> [] \<and> last l' = [''network'', ''rm'', ''-f'', network]
    \<and> (live_oci_claimable report \<longrightarrow> (\<exists>inspect_text. did h l l' (inspect_args network) (inspected h inspect_text)
         \<and> probe_isolated h l l' network inspect_text))"
proof -
  let ?text = "inspect_output h (oh_podman h l2 (inspect_args network))"
  let ?l3 = "l2 @ [inspect_args network]" and ?rm = "[''network'', ''rm'', ''-f'', network]"
  show ?thesis
  proof (cases "reports_internal ?text")
    case False
    with run info created have "\<not> live_oci_claimable report" "l' = ?l3 @ [?rm]" by (auto simp: probe_unfolds l2_def)
    then show ?thesis by simp
  next
    case True
    with run info created obtain packet l4
      where pk: "run_state (probe_packet_isolation h debug_code peer network ?text) ?l3 = (packet, l4)"
        and l': "l' = l4 @ [?rm]"
        and rep: "live_oci_claimable report \<longrightarrow> pk_ran packet \<and> pk_target_reachability packet = Proven
          \<and> pk_external_egress packet = Proven \<and> pk_dns_bypass packet = Proven \<and> pk_host_gateway packet = Proven
          \<and> pk_ipv6_bypass packet = Proven"
      by (auto simp: probe_unfolds l2_def packet_isolation_demonstrated_def with_packet_def split: prod.splits)
    from True have "inspected h ?text (oh_podman h l2 (inspect_args network))"
      by (auto simp: inspected_def inspect_output_def status_ok_def unwrap_or_def reports_internal_def to_ascii_lowercase_def Let_def
          split: option.splits if_splits)
    from did_run[where P = "inspected h ?text", OF this] have insp: "did h l2 ?l3 (inspect_args network) (inspected h ?text)" .
    note pre = probe_packet_isolation_run(1)[OF pk]
    have ends: "prefix l l2" "prefix l ?l3" "prefix ?l3 l'" "prefix l4 l'"
      using pre l' by (auto simp: l2_def intro: prefix_order.trans)
    have "did h l l' (inspect_args network) (inspected h ?text)" by (rule did_within[OF insp ends(1,3)])
    moreover have "probe_isolated h l l' network ?text" if "live_oci_claimable report"
      using probe_packet_isolation_run(2)[OF pk] rep that probe_isolated_within ends by blast
    moreover have "prefix l2 l'" using ends(3) by (rule append_prefixD)
    ultimately show ?thesis using l' by auto
  qed
qed

text \<open>C22. A fresh admission report allows a claim only when the runtime itself reported the network as internal, a
  peer on it was reached, and every attempt to leave it failed; and whatever the answers, a probe
  network that was created is removed by the last command.\<close>

theorem admission_probe_sound:
  assumes run: "run_state (probe_containment_uncached h debug_code runtime network peer) l = (report, l')"
  shows "(live_oci_claimable report \<longrightarrow> runtime \<noteq> None \<and> did h l l' [''info''] status_ok \<and> did h l l' (create_args network) status_ok
        \<and> (\<exists>inspect_text. did h l l' (inspect_args network) (inspected h inspect_text)
             \<and> probe_isolated h l l' network inspect_text))
    \<and> (did h l l' (create_args network) status_ok \<longrightarrow> l' \<noteq> [] \<and> last l' = [''network'', ''rm'', ''-f'', network])"
proof (cases "runtime = None \<or> \<not> status_ok (oh_podman h l [''info''])")
  case True
  with run have "\<not> live_oci_claimable report" "l' = l \<or> l' = l @ [[''info'']]" by (auto simp: probe_unfolds split: if_splits)
  with early_did[of "[]"] early_did[of "[[''info'']]"] show ?thesis by (auto simp: early_def)
next
  case False
  then obtain bin where bin: "runtime = Some bin" and info: "status_ok (oh_podman h l [''info''])" by auto
  let ?l1 = "l @ [[''info'']]" and ?l2 = "l @ [[''info''], create_args network]"
  show ?thesis
  proof (cases "status_ok (oh_podman h ?l1 (create_args network))")
    case created: False
    with run bin info have "\<not> live_oci_claimable report" "l' = l @ [[''info''], create_args network]"
      by (auto simp: probe_unfolds split: if_splits)
    with no_create(1)[of "[[''info'']]" status_ok h l network] created show ?thesis by (simp add: early_def)
  next
    case created: True
    note later = admission_created_run[OF run[unfolded bin] info created]
    have "did h l ?l1 [''info''] status_ok" "did h ?l1 (?l1 @ [create_args network]) (create_args network) status_ok"
      using did_run[where P = status_ok, OF info] did_run[where P = status_ok, OF created] by auto
    moreover from later have "prefix ?l2 l'" by simp
    moreover from this have "prefix ?l1 l'" by (auto simp: prefix_def)
    ultimately have "did h l l' [''info''] status_ok" "did h l l' (create_args network) status_ok"
      by (auto intro: did_within did_later)
    with later bin show ?thesis by blast
  qed
qed

lemma demo_gateway: "oci_extract_gateway demo_inspect = None"
  by code_simp

lemma demo_probe_claims:
  "live_oci_claimable (fst (run_state (probe_containment_uncached demo_host (\<lambda>_. []) (Some ''podman'') ''n'' ''t'') []))"
  by (simp add: demo_host_run probe_containment_uncached_def probe_packet_isolation_def run_packet_probes_def oci_reachability_def
      container_ip_def deny_transport_probe_def allow_transport_probe_def deny_command_probe_def nc_probe_def
      host_gateway_probe_def demo_gateway inspect_output_def unwrap_or_def with_packet_def default_containment_report_def Let_def)

theorem admission_probe_sound_witness:
  "\<exists>report l'. run_state (probe_containment_uncached demo_host (\<lambda>_. []) (Some ''podman'') ''n'' ''t'') [] = (report, l')
    \<and> live_oci_claimable report \<and> did demo_host [] l' (create_args ''n'') status_ok
    \<and> last l' = [''network'', ''rm'', ''-f'', ''n'']"
proof -
  obtain report l' where run: "run_state (probe_containment_uncached demo_host (\<lambda>_. []) (Some ''podman'') ''n'' ''t'') [] = (report, l')"
    by fastforce
  with demo_probe_claims have "live_oci_claimable report" by simp
  with admission_probe_sound[OF run] run show ?thesis by blast
qed

end
