(* ===== verification/Outcome.thy ===== *)
theory Outcome
  imports Policy Sandbox Domain
begin

text \<open>
  The data of \<^verbatim>\<open>aros-core/src/engine.rs\<close> that a campaign run returns, the errors of the engine and its decision
  whether a campaign may run uncontained. An error of another component is carried as the text it
  prints.
\<close>

subsection \<open>Errors\<close>

datatype engine_error =
    EN_FailClosed string
  | EN_Policy string
  | EN_Broker string
  | EN_Snapshot string
  | EN_Store string
  | EN_Cas string
  | EN_Ledger string
  | EN_Types string
  | EN_Http string
  | EN_Io string
  | EN_Json string

definition engine_error_to_string :: "engine_error \<Rightarrow> string" where
  "engine_error_to_string e =
     (case e of
        EN_FailClosed m \<Rightarrow> m
      | EN_Policy m \<Rightarrow> ''policy: '' @ m
      | EN_Broker m \<Rightarrow> ''broker: '' @ m
      | EN_Snapshot m \<Rightarrow> ''snapshot: '' @ m
      | EN_Store m \<Rightarrow> ''store: '' @ m
      | EN_Cas m \<Rightarrow> ''cas: '' @ m
      | EN_Ledger m \<Rightarrow> ''ledger: '' @ m
      | EN_Types m \<Rightarrow> ''types: '' @ m
      | EN_Http m \<Rightarrow> ''http: '' @ m
      | EN_Io m \<Rightarrow> ''io: '' @ m
      | EN_Json m \<Rightarrow> ''json: '' @ m)"

subsection \<open>Results of a campaign\<close>

record patch_candidate =
  pt_id :: patch_id
  pt_finding_id :: finding_id
  pt_worktree_path :: string
  pt_diff_digest :: string
  pt_original_target_unmodified :: bool

record declared_run_meta =
  dr_harness_digest :: "string option"
  dr_required_evidence_met :: bool
  dr_contained :: bool
  dr_run_kind :: string
  dr_environment_notes :: "string option"
  dr_report_path :: "string option"
  dr_surface_results :: "string list"
  dr_control_good_result :: "string option"
  dr_control_mutant_result :: "string option"
  dr_ledger_verified :: bool
  dr_shrink_before :: "nat option"
  dr_shrink_len :: "nat option"
  dr_minimized_digest :: "string option"
  dr_failure_card_id :: "string option"
  dr_independent_reproduced :: bool
  dr_twin_holds :: bool
  dr_variant_holds :: bool
  dr_regression_path :: "string option"
  dr_regression_digest :: "string option"
  dr_certificate_path :: "string option"

definition default_declared_run_meta :: declared_run_meta where
  "default_declared_run_meta =
     \<lparr>dr_harness_digest = None, dr_required_evidence_met = False, dr_contained = False, dr_run_kind = [],
      dr_environment_notes = None, dr_report_path = None, dr_surface_results = [],
      dr_control_good_result = None, dr_control_mutant_result = None, dr_ledger_verified = False,
      dr_shrink_before = None, dr_shrink_len = None, dr_minimized_digest = None, dr_failure_card_id = None,
      dr_independent_reproduced = False, dr_twin_holds = False, dr_variant_holds = False,
      dr_regression_path = None, dr_regression_digest = None, dr_certificate_path = None\<rparr>"

record campaign_outcome =
  oc_campaign :: campaign
  oc_finding :: "finding option"
  oc_evidence_level :: "evidence_level option"
  oc_original_digest :: string
  oc_original_digest_after :: string
  oc_deceptive_rejected :: bool
  oc_patch :: "patch_candidate option"
  oc_live_reattack_confirmed :: bool
  oc_research_card_id :: "string option"
  oc_verifier_isolated :: bool
  oc_declared :: declared_run_meta

text \<open>The names that \<^verbatim>\<open>{:?}\<close> prints.\<close>

primrec level_debug :: "evidence_level \<Rightarrow> string" where
  "level_debug E0HypothesisOnly = ''E0HypothesisOnly''"
| "level_debug E1StaticSupport = ''E1StaticSupport''"
| "level_debug E2DynamicAnomaly = ''E2DynamicAnomaly''"
| "level_debug E3InvariantViolation = ''E3InvariantViolation''"
| "level_debug E4IndependentReproduction = ''E4IndependentReproduction''"
| "level_debug E5MinimizedReproduction = ''E5MinimizedReproduction''"
| "level_debug E6CounterfactualDifferential = ''E6CounterfactualDifferential''"
| "level_debug E7VariantReattackAndRegression = ''E7VariantReattackAndRegression''"

primrec state_debug :: "campaign_state \<Rightarrow> string" where
  "state_debug CS_Discovering = ''Discovering''"
| "state_debug CS_Mapping = ''Mapping''"
| "state_debug CS_Hypothesizing = ''Hypothesizing''"
| "state_debug CS_Experimenting = ''Experimenting''"
| "state_debug CS_Candidate = ''Candidate''"
| "state_debug CS_Verifying = ''Verifying''"
| "state_debug CS_Verified = ''Verified''"
| "state_debug CS_Minimizing = ''Minimizing''"
| "state_debug CS_Remediating = ''Remediating''"
| "state_debug CS_Reattacking = ''Reattacking''"
| "state_debug CS_RegressionProtected = ''RegressionProtected''"
| "state_debug CS_Refuted = ''Refuted''"
| "state_debug CS_NonReproducible = ''NonReproducible''"
| "state_debug CS_InsufficientEvidence = ''InsufficientEvidence''"
| "state_debug CS_OutOfScope = ''OutOfScope''"
| "state_debug CS_PolicyBlocked = ''PolicyBlocked''"
| "state_debug CS_Tampered = ''Tampered''"
| "state_debug CS_Failed = ''Failed''"

subsection \<open>The engine\<close>

record campaign_engine =
  eg_waive_containment :: bool
  eg_bound_sandbox :: "sandbox_identity option"
  eg_twin_root :: "string option"

definition engine_new :: "bool \<Rightarrow> campaign_engine" where
  "engine_new waive = \<lparr>eg_waive_containment = waive, eg_bound_sandbox = None, eg_twin_root = None\<rparr>"

definition with_twin :: "string \<Rightarrow> campaign_engine \<Rightarrow> campaign_engine" where
  "with_twin twin e = e\<lparr>eg_twin_root := Some twin\<rparr>"

definition with_bound_sandbox :: "sandbox_identity \<Rightarrow> campaign_engine" where
  "with_bound_sandbox sandbox =
     \<lparr>eg_waive_containment = False, eg_bound_sandbox = Some sandbox, eg_twin_root = None\<rparr>"

text \<open>\<open>report\<close> is the result of the fresh admission probe, which is consulted for the diagnostic only.\<close>

definition assert_containment_or_fail ::
    "containment_report \<Rightarrow> sandbox_id \<Rightarrow> campaign_engine \<Rightarrow> 'net authorization_manifest \<Rightarrow> engine_error + sandbox_identity" where
  "assert_containment_or_fail report sid e manifest =
     (if \<not> am_require_containment manifest \<or> eg_waive_containment e
      then Inr \<lparr>si_id = sid, si_containment_demonstrated = False\<rparr>
      else case eg_bound_sandbox e of
             Some sandbox \<Rightarrow>
               if si_containment_demonstrated sandbox then Inr sandbox
               else Inl (EN_FailClosed ''bound sandbox exists but containment was not demonstrated'')
           | None \<Rightarrow>
               Inl (EN_FailClosed
                 ((if live_oci_claimable report
                   then ''OCI isolation capability is available, but no concrete campaign target sandbox was bound''
                   else ''OCI containment is not demonstrated on this host'')
                  @ ''; refusing to mint a synthetic sandbox identity'')))"

subsection \<open>Containment is never minted\<close>

text \<open>An engine hands out an identity that claims containment only when it is the one it was bound to, and for a
  manifest that requires containment it hands out nothing else unless containment was waived; what
  the admission probe reports makes no difference.\<close>

theorem containment_not_minted:
  assumes "assert_containment_or_fail report sid e manifest = Inr sandbox"
  shows "(si_containment_demonstrated sandbox \<longrightarrow> eg_bound_sandbox e = Some sandbox)
    \<and> (am_require_containment manifest \<and> \<not> eg_waive_containment e \<longrightarrow> si_containment_demonstrated sandbox)
    \<and> assert_containment_or_fail report' sid e manifest = Inr sandbox"
  using assms by (auto simp: assert_containment_or_fail_def split: if_splits option.splits)

theorem containment_not_minted_witness:
  "assert_containment_or_fail default_containment_report (SandboxId 1)
     (with_bound_sandbox \<lparr>si_id = SandboxId 2, si_containment_demonstrated = True\<rparr>)
     (default_deny_local (CampaignId 3) (TargetId 4) ''/t'')
     = Inr \<lparr>si_id = SandboxId 2, si_containment_demonstrated = True\<rparr>"
proof -
  have "assert_containment_or_fail (campaign_report [] [] Proven Proven Proven Proven Proven) (SandboxId 1)
     (with_bound_sandbox \<lparr>si_id = SandboxId 2, si_containment_demonstrated = True\<rparr>)
     (default_deny_local (CampaignId 3) (TargetId 4) ''/t'')
     = Inr \<lparr>si_id = SandboxId 2, si_containment_demonstrated = True\<rparr>"
    by (simp add: assert_containment_or_fail_def with_bound_sandbox_def default_deny_local_def)
  from containment_not_minted[OF this] show ?thesis by blast
qed

end
