(* ===== verification/Certificate.thy ===== *)
theory Certificate
  imports Outcome Store Cas
begin

text \<open>
  \<^verbatim>\<open>aros-core/src/certificate.rs\<close>: the evidence certificate, how it is written at the end of a campaign and how it
  is checked offline. The JSON value of a certificate is written out; the printer and the parser of
  \<^verbatim>\<open>serde_json\<close>, the hash function, the text of an identifier and the database found in the work
  directory are arguments. The work directory is a function from paths to file contents.
\<close>

subsection \<open>Certificates\<close>

definition CERTIFICATE_FILE :: string where
  "CERTIFICATE_FILE = ''certificate.json''"

definition SCHEMA :: string where
  "SCHEMA = ''aros-certificate/1''"

record evidence_certificate =
  ec_schema :: string
  ec_campaign_id :: string
  ec_spec_id :: string
  ec_state :: string
  ec_evidence_level :: string
  ec_verified_finding :: bool
  ec_original_digest :: string
  ec_original_digest_after :: string
  ec_original_unmodified :: bool
  ec_harness_digest :: "string option"
  ec_independent_reproduced :: bool
  ec_twin_holds :: bool
  ec_variant_holds :: bool
  ec_regression_relpath :: "string option"
  ec_regression_digest :: "string option"
  ec_minimized_relpath :: "string option"
  ec_minimized_digest :: "string option"
  ec_contained :: bool
  ec_required_evidence_met :: bool
  ec_ledger_head :: string
  ec_ledger_events :: u64
  ec_release_eligible :: bool
  ec_limits :: "string list"
  ec_digest :: string

record certificate_check =
  ck_statement_ok :: bool
  ck_release_eligible :: bool
  ck_evidence_level :: string
  ck_campaign_id :: string
  ck_limits :: "string list"
  ck_failures :: "string list"

definition json_opt :: "string option \<Rightarrow> json" where
  "json_opt m = (case m of None \<Rightarrow> JNull | Some s \<Rightarrow> JString s)"

text \<open>The derived \<^verbatim>\<open>Serialize\<close>: the fields in order.\<close>

definition certificate_fields :: "evidence_certificate \<Rightarrow> (string \<times> json) list" where
  "certificate_fields c =
     [(''schema'', JString (ec_schema c)),
      (''campaign_id'', JString (ec_campaign_id c)),
      (''spec_id'', JString (ec_spec_id c)),
      (''state'', JString (ec_state c)),
      (''evidence_level'', JString (ec_evidence_level c)),
      (''verified_finding'', JBool (ec_verified_finding c)),
      (''original_digest'', JString (ec_original_digest c)),
      (''original_digest_after'', JString (ec_original_digest_after c)),
      (''original_unmodified'', JBool (ec_original_unmodified c)),
      (''harness_digest'', json_opt (ec_harness_digest c)),
      (''independent_reproduced'', JBool (ec_independent_reproduced c)),
      (''twin_holds'', JBool (ec_twin_holds c)),
      (''variant_holds'', JBool (ec_variant_holds c)),
      (''regression_relpath'', json_opt (ec_regression_relpath c)),
      (''regression_digest'', json_opt (ec_regression_digest c)),
      (''minimized_relpath'', json_opt (ec_minimized_relpath c)),
      (''minimized_digest'', json_opt (ec_minimized_digest c)),
      (''contained'', JBool (ec_contained c)),
      (''required_evidence_met'', JBool (ec_required_evidence_met c)),
      (''ledger_head'', JString (ec_ledger_head c)),
      (''ledger_events'', JNumber (PosInt (ec_ledger_events c))),
      (''release_eligible'', JBool (ec_release_eligible c)),
      (''limits'', JArray (map JString (ec_limits c))),
      (''digest'', JString (ec_digest c))]"

record cert_env =
  ct_json_to_vec :: "json \<Rightarrow> string + bytes"
  ct_to_vec_pretty :: "evidence_certificate \<Rightarrow> string + bytes"
  ct_from_slice :: "bytes \<Rightarrow> string + evidence_certificate"
  ct_blake3_hex :: "bytes \<Rightarrow> string"
  ct_show_campaign_id :: "campaign_id \<Rightarrow> string"
  ct_parse_campaign_id :: "string \<Rightarrow> string + campaign_id"
  ct_ledger_env :: "string ledger_env"
  ct_entry_codec :: "ledger_entry codec"

definition certificate_digest :: "cert_env \<Rightarrow> evidence_certificate \<Rightarrow> engine_error + string" where
  "certificate_digest env c =
     (let value = JObject (filter (\<lambda>(k, _). k \<noteq> ''digest'') (certificate_fields c)) in
      res_bind (map_err EN_Types (to_canonical_json Inr (ct_json_to_vec env) value)) (\<lambda>bytes.
        Inr (ct_blake3_hex env bytes)))"

definition claims_match_level :: "string \<Rightarrow> bool \<Rightarrow> bool \<Rightarrow> bool \<Rightarrow> bool \<Rightarrow> bool" where
  "claims_match_level level independent twin_holds variant_holds regression =
     (if str_contains level ''E7'' then variant_holds \<and> twin_holds \<and> independent \<and> regression
      else if str_contains level ''E6'' then twin_holds \<and> independent \<and> \<not> variant_holds
      else if str_contains level ''E5'' then \<not> variant_holds \<and> \<not> twin_holds
      else if str_contains level ''E4'' then independent \<and> \<not> variant_holds \<and> \<not> twin_holds
      else if str_contains level ''E3'' \<or> str_contains level ''E2'' \<or> str_contains level ''E1'' \<or> str_contains level ''E0''
      then \<not> variant_holds \<and> \<not> twin_holds
      else False)"

subsection \<open>Writing\<close>

definition ledger_head :: "event_ledger \<Rightarrow> string" where
  "ledger_head l = (if entries l = [] then [] else le_event_hash (last (entries l)))"

definition certificate_limits :: "campaign_outcome \<Rightarrow> string list" where
  "certificate_limits o' =
     (let d = oc_declared o' in
      (if \<not> dr_contained d then [''containment not demonstrated''] else [])
      @ (if oc_original_digest o' \<noteq> oc_original_digest_after o' then [''original target digest changed''] else [])
      @ (if \<not> dr_required_evidence_met d then [''required evidence not met''] else [])
      @ (if \<not> dr_ledger_verified d then [''ledger failed at issue''] else []))"

definition outcome_level :: "campaign_outcome \<Rightarrow> string" where
  "outcome_level o' = (case oc_evidence_level o' of Some l \<Rightarrow> level_debug l | None \<Rightarrow> ''none'')"

definition certificate_of :: "cert_env \<Rightarrow> string \<Rightarrow> campaign_outcome \<Rightarrow> event_ledger \<Rightarrow> evidence_certificate" where
  "certificate_of env spec_id o' ledger =
     (let d = oc_declared o' in
      \<lparr>ec_schema = SCHEMA,
       ec_campaign_id = ct_show_campaign_id env (cp_id (oc_campaign o')),
       ec_spec_id = spec_id,
       ec_state = state_debug (cp_state (oc_campaign o')),
       ec_evidence_level = outcome_level o',
       ec_verified_finding = (case oc_finding o' of Some f \<Rightarrow> fi_verified f | None \<Rightarrow> False),
       ec_original_digest = oc_original_digest o',
       ec_original_digest_after = oc_original_digest_after o',
       ec_original_unmodified = (oc_original_digest o' = oc_original_digest_after o'),
       ec_harness_digest = dr_harness_digest d,
       ec_independent_reproduced = dr_independent_reproduced d,
       ec_twin_holds = dr_twin_holds d,
       ec_variant_holds = dr_variant_holds d,
       ec_regression_relpath = map_option (\<lambda>_. ''e7-regression/regression_test.py'') (dr_regression_digest d),
       ec_regression_digest = dr_regression_digest d,
       ec_minimized_relpath = map_option (\<lambda>_. ''minimized.bin'') (dr_minimized_digest d),
       ec_minimized_digest = dr_minimized_digest d,
       ec_contained = dr_contained d,
       ec_required_evidence_met = dr_required_evidence_met d,
       ec_ledger_head = ledger_head ledger,
       ec_ledger_events = of_nat (ledger_len ledger),
       ec_release_eligible = (certificate_limits o' = []),
       ec_limits = certificate_limits o',
       ec_digest = []\<rparr>)"

text \<open>A failing \<^verbatim>\<open>fs::write\<close> leaves the file alone when it cannot be opened, and a prefix of the data otherwise.\<close>

type_synonym write_fault = "(nat option \<times> string) option"

definition written :: "write_fault \<Rightarrow> string \<Rightarrow> bytes \<Rightarrow> file_system \<Rightarrow> file_system" where
  "written fault path bytes fs =
     (case fault of
        None \<Rightarrow> fs(path \<mapsto> bytes)
      | Some (None, _) \<Rightarrow> fs
      | Some (Some n, _) \<Rightarrow> fs(path \<mapsto> take n bytes))"

definition write_certificate ::
    "cert_env \<Rightarrow> write_fault \<Rightarrow> string \<Rightarrow> string \<Rightarrow> campaign_outcome \<Rightarrow> event_ledger \<Rightarrow> file_system
      \<Rightarrow> (engine_error + string) \<times> file_system" where
  "write_certificate env fault work_root spec_id o' ledger fs =
     (let d = oc_declared o' in
      if \<not> claims_match_level (outcome_level o') (dr_independent_reproduced d) (dr_twin_holds d) (dr_variant_holds d)
             (dr_regression_digest d \<noteq> None)
      then (Inl (EN_FailClosed ''certificate refused: evidence level does not match the recorded measurements''), fs)
      else
        let c = certificate_of env spec_id o' ledger in
        case certificate_digest env c of
          Inl e \<Rightarrow> (Inl e, fs)
        | Inr digest \<Rightarrow>
            let path = path_join work_root CERTIFICATE_FILE in
            case ct_to_vec_pretty env (c\<lparr>ec_digest := digest\<rparr>) of
              Inl e \<Rightarrow> (Inl (EN_Json e), fs)
            | Inr bytes \<Rightarrow>
                (case fault of Some (_, e) \<Rightarrow> Inl (EN_Io e) | None \<Rightarrow> Inr path, written fault path bytes fs))"

subsection \<open>Checking\<close>

definition issued_flags :: "event_ledger \<Rightarrow> (bool \<times> bool) option" where
  "issued_flags l =
     fold (\<lambda>e found. case ev_event (le_record e) of CertificateIssued _ cont unmod \<Rightarrow> Some (cont, unmod)
                     | _ \<Rightarrow> found) (entries l) None"

text \<open>\<open>open_db\<close> is the result of opening the database of the work directory.\<close>

definition check_ledger :: "cert_env \<Rightarrow> store_error + store \<Rightarrow> evidence_certificate \<Rightarrow> string + unit" where
  "check_ledger env open_db c =
     res_bind (ct_parse_campaign_id env (ec_campaign_id c)) (\<lambda>campaign_id.
     res_bind (map_err store_error_to_string open_db) (\<lambda>db.
     res_bind (map_err store_error_to_string
       (load_ledger_for (ct_ledger_env env) id (ct_show_campaign_id env) (ct_entry_codec env) campaign_id db)) (\<lambda>ledger.
     res_bind (map_err (ledger_error_to_string id) (ledger_verify (ct_ledger_env env) ledger)) (\<lambda>_.
     if ledger_head ledger \<noteq> ec_ledger_head c then Inl ''ledger head does not match the certificate''
     else if of_nat (ledger_len ledger) \<noteq> ec_ledger_events c then Inl ''ledger length does not match the certificate''
     else if (case ec_harness_digest c of
                Some harness \<Rightarrow> \<not> list_ex (\<lambda>e. List.member (le_artifact_digests e) harness) (entries ledger)
              | None \<Rightarrow> False)
     then Inl ''harness digest is not in the ledger''
     else case issued_flags ledger of
            Some (cont, unmod) \<Rightarrow>
              if cont = ec_contained c \<and> unmod = ec_original_unmodified c then Inr ()
              else Inl ''certificate containment flags disagree with the ledger''
          | None \<Rightarrow> Inl ''ledger has no CertificateIssued event''))))"

definition work_path :: "string \<Rightarrow> string \<Rightarrow> string" where
  "work_path work_root rel =
     foldl path_join work_root (filter (\<lambda>p. p \<noteq> [] \<and> p \<noteq> ''.'' \<and> p \<noteq> ''..'') (split_on (CHR ''/'') rel))"

text \<open>\<open>io_error\<close> is the text of the error for a file that cannot be read.\<close>

definition hash_work_file :: "cert_env \<Rightarrow> (string \<Rightarrow> string) \<Rightarrow> string \<Rightarrow> file_system \<Rightarrow> string \<Rightarrow> string + string" where
  "hash_work_file env io_error work_root fs rel =
     (case fs (work_path work_root rel) of
        None \<Rightarrow> Inl (work_path work_root rel @ '': '' @ io_error (work_path work_root rel))
      | Some bytes \<Rightarrow> Inr (ct_blake3_hex env bytes))"

definition file_failures ::
    "cert_env \<Rightarrow> (string \<Rightarrow> string) \<Rightarrow> string \<Rightarrow> file_system \<Rightarrow> string option \<Rightarrow> string option \<Rightarrow> string \<Rightarrow> string list" where
  "file_failures env io_error work_root fs relpath digest message =
     (case (relpath, digest) of
        (Some rel, Some d) \<Rightarrow>
          (case hash_work_file env io_error work_root fs rel of
             Inr actual \<Rightarrow> if actual = d then [] else [message]
           | Inl e \<Rightarrow> [e])
      | _ \<Rightarrow> [])"

definition certificate_matches_level :: "evidence_certificate \<Rightarrow> bool" where
  "certificate_matches_level c =
     claims_match_level (ec_evidence_level c) (ec_independent_reproduced c) (ec_twin_holds c) (ec_variant_holds c)
       (ec_regression_digest c \<noteq> None)"

definition recomputed_release :: "evidence_certificate \<Rightarrow> bool" where
  "recomputed_release c =
     (ec_limits c = [] \<and> ec_contained c \<and> ec_original_unmodified c \<and> ec_required_evidence_met c
      \<and> certificate_matches_level c)"

definition certificate_failures ::
    "cert_env \<Rightarrow> (string \<Rightarrow> string) \<Rightarrow> string \<Rightarrow> file_system \<Rightarrow> store_error + store \<Rightarrow> evidence_certificate \<Rightarrow> string list" where
  "certificate_failures env io_error work_root fs open_db c =
     (case certificate_digest env c of
        Inr digest \<Rightarrow> if digest = ec_digest c then [] else [''certificate digest does not match the claims'']
      | Inl e \<Rightarrow> [engine_error_to_string e])
     @ (if ec_schema c \<noteq> SCHEMA then [''unknown certificate schema '' @ ec_schema c] else [])
     @ (if ec_original_unmodified c \<noteq> (ec_original_digest c = ec_original_digest_after c)
        then [''original_unmodified disagrees with the two digests''] else [])
     @ (if \<not> certificate_matches_level c then [''evidence level does not match the recorded measurements''] else [])
     @ (if ec_release_eligible c \<noteq> recomputed_release c then [''release_eligible disagrees with the recorded limits''] else [])
     @ (if ec_release_eligible c \<and> \<not> ec_contained c then [''release_eligible cannot be set without containment''] else [])
     @ (case check_ledger env open_db c of Inr _ \<Rightarrow> [] | Inl e \<Rightarrow> [e])
     @ file_failures env io_error work_root fs (ec_regression_relpath c) (ec_regression_digest c)
         ''regression file digest does not match''
     @ file_failures env io_error work_root fs (ec_minimized_relpath c) (ec_minimized_digest c)
         ''minimized payload digest does not match''"

definition verify_certificate ::
    "cert_env \<Rightarrow> (string \<Rightarrow> string) \<Rightarrow> string \<Rightarrow> file_system \<Rightarrow> store_error + store \<Rightarrow> engine_error + certificate_check" where
  "verify_certificate env io_error work_root fs open_db =
     (let path = path_join work_root CERTIFICATE_FILE in
      res_bind (ok_or (fs path) (EN_Io (io_error path))) (\<lambda>raw.
      res_bind (map_err EN_Json (ct_from_slice env raw)) (\<lambda>c.
      let failures = certificate_failures env io_error work_root fs open_db c in
      Inr \<lparr>ck_statement_ok = (failures = []), ck_release_eligible = (ec_release_eligible c \<and> failures = []),
           ck_evidence_level = ec_evidence_level c, ck_campaign_id = ec_campaign_id c, ck_limits = ec_limits c,
           ck_failures = failures\<rparr>)))"

subsection \<open>What a check establishes\<close>

text \<open>The file named by \<open>rel\<close>, if any, has the recorded digest.\<close>

definition file_recorded :: "cert_env \<Rightarrow> string \<Rightarrow> file_system \<Rightarrow> string option \<Rightarrow> string option \<Rightarrow> bool" where
  "file_recorded env work_root fs relpath digest =
     (case (relpath, digest) of
        (Some rel, Some d) \<Rightarrow> map_option (ct_blake3_hex env) (fs (work_path work_root rel)) = Some d
      | _ \<Rightarrow> True)"

text \<open>The ledger bears out the certificate.\<close>

definition ledger_supports :: "event_ledger \<Rightarrow> evidence_certificate \<Rightarrow> bool" where
  "ledger_supports l c =
     (ledger_head l = ec_ledger_head c \<and> of_nat (ledger_len l) = ec_ledger_events c
      \<and> (case ec_harness_digest c of
           Some harness \<Rightarrow> list_ex (\<lambda>e. harness \<in> set (le_artifact_digests e)) (entries l)
         | None \<Rightarrow> True)
      \<and> issued_flags l = Some (ec_contained c, ec_original_unmodified c))"

lemma file_failures_Nil: "file_failures env io_error work_root fs relpath digest m = [] \<longleftrightarrow> file_recorded env work_root fs relpath digest"
  by (auto simp: file_failures_def file_recorded_def hash_work_file_def split: option.splits)

lemma check_ledger_Inr:
  "check_ledger env open_db c = Inr u \<longleftrightarrow>
     (\<exists>cid db l. ct_parse_campaign_id env (ec_campaign_id c) = Inr cid \<and> open_db = Inr db
        \<and> load_ledger_for (ct_ledger_env env) id (ct_show_campaign_id env) (ct_entry_codec env) cid db = Inr l
        \<and> ledger_verify (ct_ledger_env env) l = Inr () \<and> ledger_supports l c)"
proof -
  have step: "(if ledger_head l \<noteq> ec_ledger_head c then Inl m1 else if of_nat (ledger_len l) \<noteq> ec_ledger_events c then Inl m2
      else if (case ec_harness_digest c of
                Some harness \<Rightarrow> \<not> list_ex (\<lambda>e. List.member (le_artifact_digests e) harness) (entries l)
              | None \<Rightarrow> False) then Inl m3
      else case issued_flags l of
            Some (cont, unmod) \<Rightarrow> if cont = ec_contained c \<and> unmod = ec_original_unmodified c then Inr () else Inl m4
          | None \<Rightarrow> Inl m5) = Inr u \<longleftrightarrow> ledger_supports l c" for l and m1 m2 m3 m4 m5 :: string
    by (cases "ec_harness_digest c"; cases "issued_flags l") (auto simp: ledger_supports_def split: if_splits)
  show ?thesis
    unfolding check_ledger_def res_bind_eq_Inr map_err_eq_Inr step by auto
qed

lemma digest_ignores_itself [simp]: "certificate_digest env (c\<lparr>ec_digest := d\<rparr>) = certificate_digest env c"
  by (simp add: certificate_digest_def certificate_fields_def)

lemma certificate_failures_Nil:
  "certificate_failures env io_error work_root fs open_db c = [] \<longleftrightarrow>
     certificate_digest env c = Inr (ec_digest c) \<and> ec_schema c = SCHEMA
     \<and> ec_original_unmodified c = (ec_original_digest c = ec_original_digest_after c)
     \<and> certificate_matches_level c \<and> ec_release_eligible c = recomputed_release c
     \<and> is_ok (check_ledger env open_db c)
     \<and> file_recorded env work_root fs (ec_regression_relpath c) (ec_regression_digest c)
     \<and> file_recorded env work_root fs (ec_minimized_relpath c) (ec_minimized_digest c)"
  by (cases "certificate_digest env c"; cases "check_ledger env open_db c")
    (auto simp: certificate_failures_def file_failures_Nil recomputed_release_def)

lemma verify_certificate_Inr:
  "verify_certificate env io_error work_root fs open_db = Inr ck \<longleftrightarrow>
     (\<exists>raw c. fs (path_join work_root CERTIFICATE_FILE) = Some raw \<and> ct_from_slice env raw = Inr c
        \<and> ck = (let failures = certificate_failures env io_error work_root fs open_db c in
             \<lparr>ck_statement_ok = (failures = []), ck_release_eligible = (ec_release_eligible c \<and> failures = []),
              ck_evidence_level = ec_evidence_level c, ck_campaign_id = ec_campaign_id c, ck_limits = ec_limits c,
              ck_failures = failures\<rparr>))"
  by (auto simp: verify_certificate_def res_simps Let_def)

text \<open>What is on disk bears out the certificate \<open>c\<close>.\<close>

definition certificate_borne_out ::
    "cert_env \<Rightarrow> string \<Rightarrow> file_system \<Rightarrow> store \<Rightarrow> evidence_certificate \<Rightarrow> bool" where
  "certificate_borne_out env work_root fs db c \<longleftrightarrow>
     certificate_digest env c = Inr (ec_digest c) \<and> ec_schema c = SCHEMA
     \<and> ec_original_unmodified c = (ec_original_digest c = ec_original_digest_after c)
     \<and> certificate_matches_level c
     \<and> (\<exists>cid l. ct_parse_campaign_id env (ec_campaign_id c) = Inr cid
          \<and> load_ledger_for (ct_ledger_env env) id (ct_show_campaign_id env) (ct_entry_codec env) cid db = Inr l
          \<and> ledger_verify (ct_ledger_env env) l = Inr () \<and> ledger_supports l c)
     \<and> file_recorded env work_root fs (ec_regression_relpath c) (ec_regression_digest c)
     \<and> file_recorded env work_root fs (ec_minimized_relpath c) (ec_minimized_digest c)"

text \<open>C14. The offline check of a certificate accepts a statement exactly when what is on disk bears it out: the
  digest covers the claims, the level agrees with the recorded measurements, the ledger loads, verifies,
  has the recorded head and length, holds the harness digest and an issue event with the same flags, and the
  named files have the recorded digests. It calls the statement fit for release exactly when moreover no
  limit is recorded, the run was contained, the target was not modified and the required evidence was met.\<close>

theorem certificate_check_exact:
  assumes "verify_certificate env io_error work_root fs (Inr db) = Inr ck"
  shows "\<exists>raw c. fs (path_join work_root CERTIFICATE_FILE) = Some raw \<and> ct_from_slice env raw = Inr c
    \<and> ck_evidence_level ck = ec_evidence_level c \<and> ck_campaign_id ck = ec_campaign_id c \<and> ck_limits ck = ec_limits c
    \<and> (ck_statement_ok ck \<longleftrightarrow> certificate_borne_out env work_root fs db c
         \<and> ec_release_eligible c = (ec_limits c = [] \<and> ec_contained c \<and> ec_original_unmodified c \<and> ec_required_evidence_met c))
    \<and> (ck_release_eligible ck \<longleftrightarrow> certificate_borne_out env work_root fs db c \<and> ec_release_eligible c
         \<and> ec_limits c = [] \<and> ec_contained c \<and> ec_original_digest c = ec_original_digest_after c \<and> ec_required_evidence_met c)"
proof -
  from assms obtain raw c where c: "fs (path_join work_root CERTIFICATE_FILE) = Some raw" "ct_from_slice env raw = Inr c"
    and ck: "ck_statement_ok ck = (certificate_failures env io_error work_root fs (Inr db) c = [])"
      "ck_release_eligible ck = (ec_release_eligible c \<and> certificate_failures env io_error work_root fs (Inr db) c = [])"
      "ck_evidence_level ck = ec_evidence_level c" "ck_campaign_id ck = ec_campaign_id c" "ck_limits ck = ec_limits c"
    by (auto simp: verify_certificate_Inr Let_def)
  have "certificate_failures env io_error work_root fs (Inr db) c = [] \<longleftrightarrow> certificate_borne_out env work_root fs db c
      \<and> ec_release_eligible c = (ec_limits c = [] \<and> ec_contained c \<and> ec_original_unmodified c \<and> ec_required_evidence_met c)"
    unfolding certificate_failures_Nil certificate_borne_out_def is_ok_iff check_ledger_Inr recomputed_release_def by auto
  moreover have "certificate_borne_out env work_root fs db c \<Longrightarrow>
      ec_original_unmodified c = (ec_original_digest c = ec_original_digest_after c)"
    by (simp add: certificate_borne_out_def)
  ultimately show ?thesis using c ck by blast
qed

subsection \<open>Written certificates check\<close>

lemma write_certificate_Inr:
  assumes "write_certificate env fault work_root spec_id o' l fs = (Inr path, fs')"
  obtains digest bytes where "certificate_digest env (certificate_of env spec_id o' l) = Inr digest"
    "ct_to_vec_pretty env ((certificate_of env spec_id o' l)\<lparr>ec_digest := digest\<rparr>) = Inr bytes"
    "path = path_join work_root CERTIFICATE_FILE" "fs' = fs(path \<mapsto> bytes)"
    "claims_match_level (outcome_level o') (dr_independent_reproduced (oc_declared o')) (dr_twin_holds (oc_declared o'))
       (dr_variant_holds (oc_declared o')) (dr_regression_digest (oc_declared o') \<noteq> None)"
  using assms by (auto simp: write_certificate_def Let_def written_def split: if_splits sum.splits option.splits)

lemma certificate_of_sel:
  "ec_schema (certificate_of env spec_id o' l) = SCHEMA"
  "certificate_matches_level (certificate_of env spec_id o' l) =
     claims_match_level (outcome_level o') (dr_independent_reproduced (oc_declared o')) (dr_twin_holds (oc_declared o'))
       (dr_variant_holds (oc_declared o')) (dr_regression_digest (oc_declared o') \<noteq> None)"
  "recomputed_release (certificate_of env spec_id o' l) =
     (certificate_limits o' = [] \<and> certificate_matches_level (certificate_of env spec_id o' l))"
  by (auto simp: certificate_of_def certificate_matches_level_def recomputed_release_def certificate_limits_def Let_def)

text \<open>The ledger of the outcome is the one in the database, and it bears the outcome out.\<close>

definition run_recorded :: "cert_env \<Rightarrow> store \<Rightarrow> campaign_outcome \<Rightarrow> event_ledger \<Rightarrow> bool" where
  "run_recorded env db o' l \<longleftrightarrow>
     load_ledger_for (ct_ledger_env env) id (ct_show_campaign_id env) (ct_entry_codec env) (cp_id (oc_campaign o')) db = Inr l
     \<and> issued_flags l = Some (dr_contained (oc_declared o'), oc_original_digest o' = oc_original_digest_after o')
     \<and> (case dr_harness_digest (oc_declared o') of
          Some harness \<Rightarrow> list_ex (\<lambda>e. harness \<in> set (le_artifact_digests e)) (entries l) | None \<Rightarrow> True)"

text \<open>The regression test and the minimized payload are in the work directory as the outcome records them.\<close>

definition files_recorded :: "cert_env \<Rightarrow> string \<Rightarrow> file_system \<Rightarrow> campaign_outcome \<Rightarrow> bool" where
  "files_recorded env work_root fs o' \<longleftrightarrow>
     file_recorded env work_root fs (Some ''e7-regression/regression_test.py'') (dr_regression_digest (oc_declared o'))
     \<and> file_recorded env work_root fs (Some ''minimized.bin'') (dr_minimized_digest (oc_declared o'))"

lemma written_certificate_checks:
  assumes wr: "write_certificate env fault work_root spec_id o' l fs = (Inr path, fs')"
    and json: "\<And>c bytes. ct_to_vec_pretty env c = Inr bytes \<Longrightarrow> ct_from_slice env bytes = Inr c"
    and id: "ct_parse_campaign_id env (ct_show_campaign_id env (cp_id (oc_campaign o'))) = Inr (cp_id (oc_campaign o'))"
    and rec: "run_recorded env db o' l"
    and kept: "fs2 path = fs' path"
  shows "\<exists>ck. verify_certificate env io_error work_root fs2 (Inr db) = Inr ck
    \<and> ck_statement_ok ck = files_recorded env work_root fs2 o'
    \<and> ck_release_eligible ck = (files_recorded env work_root fs2 o' \<and> certificate_limits o' = [])
    \<and> ck_evidence_level ck = outcome_level o' \<and> ck_limits ck = certificate_limits o'"
proof -
  from wr obtain digest bytes where d: "certificate_digest env (certificate_of env spec_id o' l) = Inr digest"
    and b: "ct_to_vec_pretty env ((certificate_of env spec_id o' l)\<lparr>ec_digest := digest\<rparr>) = Inr bytes"
    and p: "path = path_join work_root CERTIFICATE_FILE" "fs' = fs(path \<mapsto> bytes)"
    and level: "claims_match_level (outcome_level o') (dr_independent_reproduced (oc_declared o')) (dr_twin_holds (oc_declared o'))
       (dr_variant_holds (oc_declared o')) (dr_regression_digest (oc_declared o') \<noteq> None)"
    by (rule write_certificate_Inr)
  let ?c = "(certificate_of env spec_id o' l)\<lparr>ec_digest := digest\<rparr>"
  have sel: "ec_release_eligible ?c = (certificate_limits o' = [])" "ec_evidence_level ?c = outcome_level o'"
    "ec_limits ?c = certificate_limits o'" "ec_digest ?c = digest" "ec_schema ?c = SCHEMA"
    "ec_original_unmodified ?c = (ec_original_digest ?c = ec_original_digest_after ?c)"
    "ct_parse_campaign_id env (ec_campaign_id ?c) = Inr (cp_id (oc_campaign o'))"
    using id by (simp_all add: certificate_of_def Let_def)
  have m: "certificate_matches_level ?c" "recomputed_release ?c = (certificate_limits o' = [])"
    using level certificate_of_sel(2,3)[of env spec_id o' l]
    by (simp_all add: certificate_matches_level_def recomputed_release_def)
  have "ledger_supports l ?c"
    using rec by (simp add: run_recorded_def ledger_supports_def certificate_of_def Let_def)
  then have "is_ok (check_ledger env (Inr db) ?c)"
    using rec sel(7) load_verified[of "ct_ledger_env env" id "ct_show_campaign_id env" "ct_entry_codec env" "cp_id (oc_campaign o')" db l]
    unfolding is_ok_iff check_ledger_Inr run_recorded_def by blast
  moreover have "files_recorded env work_root fs2 o' \<longleftrightarrow>
      file_recorded env work_root fs2 (ec_regression_relpath ?c) (ec_regression_digest ?c)
      \<and> file_recorded env work_root fs2 (ec_minimized_relpath ?c) (ec_minimized_digest ?c)"
    by (auto simp: files_recorded_def file_recorded_def certificate_of_def Let_def split: option.splits)
  ultimately have "certificate_failures env io_error work_root fs2 (Inr db) ?c = [] \<longleftrightarrow> files_recorded env work_root fs2 o'"
    unfolding certificate_failures_Nil using d m sel by simp
  then show ?thesis
    using json[OF b] kept p sel by (simp add: verify_certificate_def Let_def) blast
qed

subsection \<open>A certificate that checks\<close>

definition sample_entry :: ledger_entry where
  "sample_entry = \<lparr>le_index = 0, le_previous_hash = GENESIS, le_event_hash = ''h'', le_campaign_id = Some (CampaignId 7),
     le_payload_digest = ''h'', le_artifact_digests = [],
     le_record = \<lparr>ev_occurred_unix_ms = 0, ev_event = CertificateIssued (CampaignId 7) True True\<rparr>\<rparr>"

definition sample_certificate :: evidence_certificate where
  "sample_certificate =
     \<lparr>ec_schema = SCHEMA, ec_campaign_id = ''7'', ec_spec_id = ''s'', ec_state = ''Verified'',
      ec_evidence_level = ''E4IndependentReproduction'', ec_verified_finding = True, ec_original_digest = ''h'',
      ec_original_digest_after = ''h'', ec_original_unmodified = True, ec_harness_digest = None,
      ec_independent_reproduced = True, ec_twin_holds = False, ec_variant_holds = False, ec_regression_relpath = None,
      ec_regression_digest = None, ec_minimized_relpath = None, ec_minimized_digest = None, ec_contained = True,
      ec_required_evidence_met = True, ec_ledger_head = ''h'', ec_ledger_events = 1, ec_release_eligible = True,
      ec_limits = [], ec_digest = ''h''\<rparr>"

definition sample_env :: cert_env where
  "sample_env =
     \<lparr>ct_json_to_vec = (\<lambda>_. Inr []), ct_to_vec_pretty = (\<lambda>_. Inr [1]), ct_from_slice = (\<lambda>_. Inr sample_certificate),
      ct_blake3_hex = (\<lambda>_. ''h''), ct_show_campaign_id = (\<lambda>_. ''7''), ct_parse_campaign_id = (\<lambda>_. Inr (CampaignId 7)),
      ct_ledger_env = \<lparr>env_record_value = (\<lambda>_. Inr JNull), env_material_value = (\<lambda>_. Inr JNull), env_to_vec = (\<lambda>_. Inr []),
        env_blake3_hex = (\<lambda>_. ''h'')\<rparr>,
      ct_entry_codec = demo_codec sample_entry\<rparr>"

definition sample_db :: store where
  "sample_db = store_empty\<lparr>st_ledger_events := [ledger_row_of (CampaignId 7) sample_entry ''payload'']\<rparr>"

lemma sample_ledger:
  "ledger_verify (ct_ledger_env sample_env) \<lparr>entries = [sample_entry]\<rparr> = Inr ()"
  "load_ledger_for (ct_ledger_env sample_env) id (ct_show_campaign_id sample_env) (ct_entry_codec sample_env) (CampaignId 7) sample_db
     = Inr \<lparr>entries = [sample_entry]\<rparr>"
  by (simp_all add: load_ledger_for_def select_ledger_def read_ledger_row_def from_stored_entries_def ledger_verify_def entry_hash_def
      record_bytes_def material_bytes_def to_canonical_json_def sample_env_def sample_db_def store_empty_def demo_codec_def
      ledger_row_of_def sample_entry_def Let_def)

lemma sample_failures: "certificate_failures sample_env io_error ''/w'' fs (Inr sample_db) sample_certificate = []"
proof -
  have "certificate_matches_level sample_certificate" by code_simp
  moreover have "certificate_digest sample_env sample_certificate = Inr ''h''"
    by (simp add: certificate_digest_def to_canonical_json_def sample_env_def)
  moreover have "ledger_supports \<lparr>entries = [sample_entry]\<rparr> sample_certificate"
    by (simp add: ledger_supports_def ledger_head_def ledger_len_def issued_flags_def sample_entry_def sample_certificate_def)
  moreover have "ct_parse_campaign_id sample_env s = Inr (CampaignId 7)" for s by (simp add: sample_env_def)
  ultimately show ?thesis
    using sample_ledger unfolding certificate_failures_Nil is_ok_iff check_ledger_Inr
    by (simp add: recomputed_release_def file_recorded_def) (simp add: sample_certificate_def)
qed

lemma certificate_check_exact_witness:
  "\<exists>ck. verify_certificate sample_env id ''/w'' [''/w/certificate.json'' \<mapsto> [1]] (Inr sample_db) = Inr ck
    \<and> ck_release_eligible ck \<and> certificate_borne_out sample_env ''/w'' [''/w/certificate.json'' \<mapsto> [1]] sample_db sample_certificate"
proof -
  have p: "path_join ''/w'' CERTIFICATE_FILE = ''/w/certificate.json''" by code_simp
  have f: "ct_from_slice sample_env raw = Inr sample_certificate" for raw by (simp add: sample_env_def)
  have v: "verify_certificate sample_env id ''/w'' [''/w/certificate.json'' \<mapsto> [1]] (Inr sample_db) =
      Inr \<lparr>ck_statement_ok = True, ck_release_eligible = True, ck_evidence_level = ec_evidence_level sample_certificate,
           ck_campaign_id = ec_campaign_id sample_certificate, ck_limits = ec_limits sample_certificate, ck_failures = []\<rparr>"
    by (simp add: verify_certificate_def p f sample_failures) (simp add: sample_certificate_def)
  from certificate_check_exact[OF v] show ?thesis using v by (auto simp: p f)
qed

end
