(* ===== verification/Generator.thy ===== *)
theory Generator
  imports Verifier Certificate Claims
begin

text \<open>
  The generators of a declared campaign (\<^verbatim>\<open>aros-core/src/campaign_loader.rs\<close>): how the oracle judges an output, how a
  command line becomes an argument vector, how a catalog harness is staged, and how one arm is run, in
  a container or on the host.

  A run is a computation of the state monad. Its state holds the files of the host, the ledger and the
  database of the campaign, the container commands issued and the host processes started so far. What
  the host answers is a function of a counter that every observation advances, so that clocks, fresh
  identifiers, directory listings and failures of system calls are arbitrary at every moment.
\<close>

subsection \<open>Oracles\<close>

datatype oracle_judgement = OJ_AttackSucceeded | OJ_InvariantHolds | OJ_Indeterminate

definition judgement_debug :: "oracle_judgement \<Rightarrow> string" where
  "judgement_debug j =
     (case j of
        OJ_AttackSucceeded \<Rightarrow> ''AttackSucceeded''
      | OJ_InvariantHolds \<Rightarrow> ''InvariantHolds''
      | OJ_Indeterminate \<Rightarrow> ''Indeterminate'')"

definition negative_control_token :: "string \<Rightarrow> string" where
  "negative_control_token control =
     (if str_contains control ''OPEN_OK'' then ''OPEN_OK''
      else if str_contains control ''BOUNDED_OK'' then ''BOUNDED_OK''
      else [])"

definition evaluate_oracle :: "string \<Rightarrow> campaign_oracle \<Rightarrow> oracle_judgement" where
  "evaluate_oracle stdout oracle =
     (if (case co_negative_control oracle of
            Some control \<Rightarrow>
              negative_control_token control \<noteq> [] \<and> \<not> str_contains stdout (negative_control_token control)
          | None \<Rightarrow> False)
      then OJ_Indeterminate
      else case co_decides oracle of
        StdoutContains \<Rightarrow>
          (case co_match oracle of
             None \<Rightarrow> OJ_Indeterminate
           | Some needle \<Rightarrow> if str_contains stdout needle then OJ_AttackSucceeded else OJ_InvariantHolds)
      | StdoutNotContains \<Rightarrow>
          (case co_match oracle of
             None \<Rightarrow> OJ_Indeterminate
           | Some needle \<Rightarrow> if str_contains stdout needle then OJ_InvariantHolds else OJ_AttackSucceeded)
      | _ \<Rightarrow> OJ_Indeterminate)"

subsection \<open>Command lines\<close>

text \<open>\<^verbatim>\<open>Path::file_name\<close>: the last component, unless it is the parent directory.\<close>

definition file_name :: "string \<Rightarrow> string option" where
  "file_name p =
     (let parts = filter (\<lambda>x. x \<noteq> [] \<and> x \<noteq> ''.'') (split_on (CHR ''/'') p)
      in if parts = [] \<or> last parts = ''..'' then None else Some (last parts))"

definition generator_names :: "string list" where
  "generator_names = [''cargo'', ''cargo.exe'', ''python'', ''python3'', ''python.exe'']"

definition generator_argv :: "string \<Rightarrow> engine_error + argv" where
  "generator_argv command =
     (let args = split_whitespace command in
      if args = [] then Inl (EN_FailClosed ''generator.command is empty'')
      else if executable_is_shell (hd args) then Inl (EN_FailClosed ''generator.command must not invoke a shell'')
      else if argv_contains_shell_metacharacters args
      then Inl (EN_FailClosed ''generator.command contains shell metacharacters'')
      else
        let exe = to_ascii_lowercase (unwrap_or (hd args) (file_name (hd args))) in
        if \<not> List.member generator_names exe
        then Inl (EN_FailClosed (''generator executable '' @ exe @ '' is not allowlisted''))
        else Inr args)"

definition expand_command :: "string \<Rightarrow> string option \<Rightarrow> engine_error + string" where
  "expand_command command harness_dir =
     (if \<not> str_contains command ''{harness}'' then Inr command
      else res_bind (ok_or harness_dir
             (EN_FailClosed ''generator.command uses {harness} but generator.harness is unset'')) (\<lambda>dir.
        Inr (replace_str ''{harness}'' dir command)))"

text \<open>\<^verbatim>\<open>replacen(host, _, 1)\<close> of an argument that starts with \<open>host\<close>.\<close>

definition rewrite_argv_for_container :: "argv \<Rightarrow> string \<Rightarrow> argv" where
  "rewrite_argv_for_container args harness_dir =
     map (\<lambda>arg. if starts_with arg harness_dir then ''/aros-harness'' @ drop (length harness_dir) arg else arg) args"

subsection \<open>The harness catalog\<close>

text \<open>What the process sees of the host when it looks for the catalog; \<open>ch_manifest_dir\<close> is fixed at build time.\<close>

record catalog_host =
  ch_env_var :: "string \<Rightarrow> string option"
  ch_is_dir :: "string \<Rightarrow> bool"
  ch_is_file :: "string \<Rightarrow> bool"
  ch_manifest_dir :: string
  ch_current_dir :: "string option"

text \<open>\<open>search_up is_dir sub dir\<close> is the loop that pops \<open>dir\<close> until the directory \<open>sub\<close> of the loader is found below it.\<close>

lemma join_with_Cons: "join_with sep (x # xs) = (if xs = [] then x else x @ sep @ join_with sep xs)"
  by (cases xs) auto

lemma join_with_snoc: "join_with sep (xs @ [x]) = (if xs = [] then x else join_with sep xs @ sep @ x)"
  by (simp add: join_with_append)

lemma length_join_filter: "length (join_with [c] (filter P xs)) \<le> length (join_with [c] xs)"
  by (induction "[c]" xs rule: join_with.induct) (auto simp: join_with_Cons split: if_splits)

lemma path_parent_shorter: "path_parent p = Some q \<Longrightarrow> length q < length p"
proof -
  assume q: "path_parent p = Some q"
  define comps where "comps = filter (\<lambda>c. c \<noteq> []) (split_on (CHR ''/'') p)"
  from q have ne: "comps \<noteq> []" and q': "q = (if starts_with p ''/'' then ''/'' else []) @ join_with ''/'' (butlast comps)"
    by (auto simp: path_parent_def comps_def Let_def split: if_splits)
  have "last comps \<noteq> []"
    using last_in_set[OF ne] by (auto simp: comps_def)
  then have short: "length (join_with ''/'' (butlast comps)) < length (join_with ''/'' comps)"
    using ne by (cases comps rule: rev_cases) (auto simp: join_with_snoc)
  show ?thesis
  proof (cases "starts_with p ''/''")
    case True
    then obtain t where p: "p = CHR ''/'' # t" by (cases p) (auto simp: starts_with_def split: if_splits)
    have "length (join_with ''/'' comps) \<le> length t"
      using length_join_filter[of "CHR ''/''" "\<lambda>c. c \<noteq> []" "split_on (CHR ''/'') t"] by (simp add: comps_def p join_split)
    with short True q' p show ?thesis by simp
  next
    case False
    have "length (join_with ''/'' comps) \<le> length p"
      using length_join_filter[of "CHR ''/''" "\<lambda>c. c \<noteq> []" "split_on (CHR ''/'') p"] by (simp add: comps_def join_split)
    with short False q' show ?thesis by simp
  qed
qed

function search_up :: "(string \<Rightarrow> bool) \<Rightarrow> string \<Rightarrow> string \<Rightarrow> string option" where
  "search_up is_dir sub dir =
     (if is_dir (path_join (path_join dir ''campaign-loader'') sub)
      then Some (path_join (path_join dir ''campaign-loader'') sub)
      else case path_parent dir of None \<Rightarrow> None | Some up \<Rightarrow> search_up is_dir sub up)"
  by pat_completeness auto
termination
  by (relation "measure (\<lambda>(is_dir, sub, dir). length dir)") (auto dest: path_parent_shorter)

declare search_up.simps [simp del]

definition loader_dir :: "string \<Rightarrow> string \<Rightarrow> catalog_host \<Rightarrow> string option" where
  "loader_dir var sub h =
     (let from_crate = path_join (path_join (path_join (ch_manifest_dir h) ''../..'') ''campaign-loader'') sub;
          found = (if ch_is_dir h from_crate then Some from_crate
                   else Option.bind (ch_current_dir h) (\<lambda>dir. search_up (ch_is_dir h) sub dir))
      in case ch_env_var h (env_name var) of
           Some explicit \<Rightarrow> if ch_is_dir h explicit then Some explicit else found
         | None \<Rightarrow> found)"

definition harness_catalog_root :: "catalog_host \<Rightarrow> string option" where
  "harness_catalog_root h = loader_dir ''HARNESS_CATALOG'' ''harnesses'' h"

definition class_campaign_dir :: "catalog_host \<Rightarrow> string option" where
  "class_campaign_dir h = loader_dir ''CLASS_CAMPAIGNS'' ''classes'' h"

definition catalog_harness_entry :: "catalog_host \<Rightarrow> string \<Rightarrow> string option" where
  "catalog_harness_entry h i =
     Option.bind (harness_catalog_root h) (\<lambda>root.
       let harness = path_join (path_join root i) ''run.py'' in
       if ch_is_file h harness then Some harness
       else Option.bind (path_parent root) (\<lambda>up.
         let adapters = path_join (path_join (path_join up ''adapters'') i) ''run.py''
         in if ch_is_file h adapters then Some adapters else None))"

definition missing_generator_reason :: "catalog_host \<Rightarrow> string \<Rightarrow> string \<Rightarrow> campaign_generator \<Rightarrow> string option" where
  "missing_generator_reason h target_root spec_id g =
     (case cg_harness g of
        Some i \<Rightarrow>
          if catalog_harness_entry h i = None
          then Some (''campaign '' @ spec_id @ '' catalog harness '' @ i @ '' is not in the AROS catalog'')
          else None
      | None \<Rightarrow>
          (case cg_corpus g of
             None \<Rightarrow> None
           | Some corpus \<Rightarrow>
               if ch_is_file h (path_join target_root corpus) then None
               else Some (''campaign '' @ spec_id @ '' generator corpus '' @ corpus @ '' is not present under ''
                          @ target_root @ ''; zero evidence'')))"

subsection \<open>Host and state\<close>

record dir_item =
  di_name :: string
  di_meta :: "string + bool"
  di_bytes :: "string + bytes"

record host_cmd =
  hc_argv :: argv
  hc_cwd :: "string option"
  hc_vars :: "(string \<times> string) list"

text \<open>What becomes of a host process: whether it starts, the polls of it before the deadline, its exit code and
  output, and what it does to the files of the host.\<close>

record host_answer =
  hw_spawned :: "string + unit"
  hw_polls :: "exit_poll list"
  hw_output :: "string + i32 option \<times> bytes \<times> bytes"
  hw_effect :: "file_system \<Rightarrow> file_system"

record build_cfg =
  cfg_windows :: bool
  cfg_unix :: bool
  cfg_macos :: bool
  cfg_gnu :: bool
  cfg_msvc :: bool

text \<open>Everything a run relies on. \<open>dn_tree\<close> is a directory as a walk that does not follow the root sees it,
  \<open>dn_walk\<close> the entries that reading the directory gives.\<close>

record declared_env =
  dn_cert :: cert_env
  dn_sha256_hex :: "bytes \<Rightarrow> string"
  dn_from_utf8 :: "bytes \<Rightarrow> string option"
  dn_lossy :: "bytes \<Rightarrow> string"
  dn_show_uuid :: "uuid \<Rightarrow> string"
  dn_bind_json :: "(string \<times> string) list \<Rightarrow> string + bytes"
  dn_json_pretty :: "json \<Rightarrow> string + bytes"
  dn_campaign_codec :: "campaign codec"
  dn_node_codec :: "graph_node codec"
  dn_edge_codec :: "graph_edge codec"
  dn_card_codec :: "research_failure_card codec"
  dn_regression_py :: string
  dn_cfg :: build_cfg
  dn_clock :: "nat \<Rightarrow> u64"
  dn_uuid :: "nat \<Rightarrow> uuid"
  dn_io :: "nat \<Rightarrow> string option"
  dn_write :: "nat \<Rightarrow> write_fault"
  dn_put :: "nat \<Rightarrow> put_faults \<times> string"
  dn_sql :: "nat \<Rightarrow> string option"
  dn_tree :: "nat \<Rightarrow> string \<Rightarrow> bool \<times> fs_tree"
  dn_walk :: "nat \<Rightarrow> string \<Rightarrow> string + entries"
  dn_text :: "nat \<Rightarrow> string \<Rightarrow> string option"
  dn_catalog :: "nat \<Rightarrow> catalog_host"
  dn_list :: "nat \<Rightarrow> string \<Rightarrow> string + (string + dir_item) list"
  dn_read :: "nat \<Rightarrow> string \<Rightarrow> string + bytes"
  dn_python :: "nat \<Rightarrow> string \<Rightarrow> bool"
  dn_oci :: "nat \<Rightarrow> oci_host"
  dn_host :: "nat \<Rightarrow> host_cmd \<Rightarrow> host_answer"

record drun =
  ds_fs :: file_system
  ds_ledger :: event_ledger
  ds_db :: store
  ds_log :: podman_log
  ds_host :: "host_cmd list"
  ds_tick :: nat

definition observe :: "(nat \<Rightarrow> 'a) \<Rightarrow> (drun, 'a) state" where
  "observe f = State (\<lambda>s. (f (ds_tick s), s\<lparr>ds_tick := Suc (ds_tick s)\<rparr>))"

definition lift_res :: "engine_error + 'a \<Rightarrow> (drun, engine_error + 'a) state" where
  "lift_res r = State_Monad.return r"

text \<open>A loop over a list whose body may return early.\<close>

fun try_fold :: "('b \<Rightarrow> 'a \<Rightarrow> ('s, 'e + 'b) state) \<Rightarrow> 'b \<Rightarrow> 'a list \<Rightarrow> ('s, 'e + 'b) state" where
  "try_fold f b [] = State_Monad.return (Inr b)"
| "try_fold f b (x # xs) = try_bind (f b x) (\<lambda>b'. try_fold f b' xs)"

definition io_step :: "declared_env \<Rightarrow> (drun, engine_error + unit) state" where
  "io_step env = do {
     fault \<leftarrow> observe (dn_io env);
     lift_res (case fault of Some e \<Rightarrow> Inl (EN_Io e) | None \<Rightarrow> Inr ())
   }"

definition write_file :: "declared_env \<Rightarrow> string \<Rightarrow> bytes \<Rightarrow> (drun, engine_error + unit) state" where
  "write_file env path bytes = do {
     fault \<leftarrow> observe (dn_write env);
     _ \<leftarrow> State_Monad.update (\<lambda>s. s\<lparr>ds_fs := written fault path bytes (ds_fs s)\<rparr>);
     lift_res (case fault of Some (_, e) \<Rightarrow> Inl (EN_Io e) | None \<Rightarrow> Inr ())
   }"

subsection \<open>Running one arm\<close>

definition copy_item :: "declared_env \<Rightarrow> string \<Rightarrow> unit \<Rightarrow> string + dir_item \<Rightarrow> (drun, engine_error + unit) state" where
  "copy_item env dest _ item =
     (case item of
        Inl e \<Rightarrow> lift_res (Inl (EN_Io e))
      | Inr it \<Rightarrow>
          (case di_meta it of
             Inl e \<Rightarrow> lift_res (Inl (EN_Io e))
           | Inr False \<Rightarrow> lift_res (Inr ())
           | Inr True \<Rightarrow>
               try_bind (lift_res (map_err EN_Io (di_bytes it))) (\<lambda>bytes.
                 write_file env (path_join dest (di_name it)) bytes)))"

definition stage_catalog_harness ::
    "declared_env \<Rightarrow> string \<Rightarrow> campaign_generator \<Rightarrow> (drun, engine_error + string option) state" where
  "stage_catalog_harness env work_root g =
     (case cg_harness g of
        None \<Rightarrow> lift_res (Inr None)
      | Some i \<Rightarrow> do {
          h \<leftarrow> observe (dn_catalog env);
          try_bind (lift_res (ok_or (catalog_harness_entry h i)
                     (EN_FailClosed (''catalog harness '' @ i @ '' is missing'')))) (\<lambda>entry.
          try_bind (lift_res (ok_or (path_parent entry)
                     (EN_FailClosed ''catalog harness has no directory''))) (\<lambda>src.
          let dest = path_join (path_join work_root ''aros-harness'') i in
          try_bind (io_step env) (\<lambda>_. do {
            listing \<leftarrow> observe (dn_list env);
            try_bind (lift_res (map_err EN_Io (listing src))) (\<lambda>items.
            try_bind (try_fold (copy_item env dest) () items) (\<lambda>_.
            try_bind (lift_res (map_err EN_Json (dn_bind_json env (cg_bind g)))) (\<lambda>bytes.
            try_bind (write_file env (path_join dest ''bind.json'') bytes) (\<lambda>_.
              lift_res (Inr (Some dest))))))})))
        })"

definition start_host :: "declared_env \<Rightarrow> host_cmd \<Rightarrow> (drun, host_answer) state" where
  "start_host env cmd = do {
     host \<leftarrow> observe (dn_host env);
     _ \<leftarrow> State_Monad.update (\<lambda>s. s\<lparr>ds_host := ds_host s @ [cmd],
            ds_fs := (if is_ok (hw_spawned (host cmd)) then hw_effect (host cmd) (ds_fs s) else ds_fs s)\<rparr>);
     State_Monad.return (host cmd)
   }"

text \<open>The polls until the deadline; past it the child is killed.\<close>

fun await_generator :: "exit_poll list \<Rightarrow> engine_error + unit" where
  "await_generator [] = Inl (EN_FailClosed ''generator exceeded wall_clock_seconds'')"
| "await_generator (Exit_Err e # ps) = Inl (EN_Io e)"
| "await_generator (Exit_Done # ps) = Inr ()"
| "await_generator (Exit_Running # ps) = await_generator ps"

definition generator_cmd :: "string \<Rightarrow> argv \<Rightarrow> string \<Rightarrow> string option \<Rightarrow> host_cmd" where
  "generator_cmd cwd args target_root bind_file =
     \<lparr>hc_argv = args, hc_cwd = Some cwd,
      hc_vars = [(env_name ''TARGET_ROOT'', target_root)]
        @ (case bind_file of Some b \<Rightarrow> [(env_name ''BIND_FILE'', b)] | None \<Rightarrow> [])\<rparr>"

definition run_generator ::
    "declared_env \<Rightarrow> string \<Rightarrow> argv \<Rightarrow> string \<Rightarrow> string option \<Rightarrow> (drun, engine_error + string) state" where
  "run_generator env cwd args target_root bind_file = do {
     ans \<leftarrow> start_host env (generator_cmd cwd args target_root bind_file);
     lift_res
       (res_bind (map_err (\<lambda>e. EN_FailClosed (''generator spawn: '' @ e)) (hw_spawned ans)) (\<lambda>_.
        res_bind (await_generator (hw_polls ans)) (\<lambda>_.
        res_bind (map_err EN_Io (hw_output ans)) (\<lambda>(_, out, err).
          Inr (dn_lossy env out @ (if err = [] then [] else newline # dn_lossy env err))))))
   }"

definition on_log :: "(podman_log, 'a) state \<Rightarrow> (drun, 'a) state" where
  "on_log m = State (\<lambda>s. case run_state m (ds_log s) of (r, log) \<Rightarrow> (r, s\<lparr>ds_log := log\<rparr>))"

definition run_arm ::
    "declared_env \<Rightarrow> string \<Rightarrow> string \<Rightarrow> campaign_generator \<Rightarrow> u32 \<Rightarrow> bool \<Rightarrow> (drun, engine_error + string) state" where
  "run_arm env target_root work_root g memory_mb require_container =
     try_bind (stage_catalog_harness env work_root g) (\<lambda>staged.
     try_bind (lift_res (expand_command (cg_command g) staged)) (\<lambda>command.
     try_bind (lift_res (generator_argv command)) (\<lambda>args.
       if require_container then do {
         let container_argv = (case staged of Some dir \<Rightarrow> rewrite_argv_for_container args dir | None \<Rightarrow> args);
         h \<leftarrow> observe (dn_oci env);
         sid \<leftarrow> observe (dn_uuid env);
         pid \<leftarrow> observe (dn_uuid env);
         r \<leftarrow> on_log (exec_generator_ex h (dn_show_uuid env sid) (dn_show_uuid env pid) target_root container_argv
                memory_mb staged);
         lift_res (map_err (\<lambda>e. EN_FailClosed (sandbox_error_to_string e)) r)
       }
       else run_generator env target_root args target_root (map_option (\<lambda>dir. path_join dir ''bind.json'') staged))))"

end
