(* ===== verification/Evidence.thy ===== *)
theory Evidence
  imports Generator Lab
begin

text \<open>
  How a declared campaign gathers evidence (\<^verbatim>\<open>aros-core/src/campaign_loader.rs\<close>): the minimized payload a generator
  prints, the replica on which the result is reproduced, the patched twin on which the effect must be
  absent, the variant of the attack and the regression test, and the decision which evidence meets the
  requirements of a specification.
\<close>

subsection \<open>Minimized payloads\<close>

record shrink_proof =
  sh_before :: nat
  sh_after :: nat
  sh_hex :: string

text \<open>\<^verbatim>\<open>u8::from_str_radix(pair, 16)\<close>: an optional plus sign and at least one digit.\<close>

definition hex_digit :: "u8 \<Rightarrow> nat option" where
  "hex_digit b =
     (let n = unat b in
      if 48 \<le> n \<and> n \<le> 57 then Some (n - 48)
      else if 97 \<le> n \<and> n \<le> 102 then Some (n - 87)
      else if 65 \<le> n \<and> n \<le> 70 then Some (n - 55)
      else None)"

definition hex_pair :: "u8 \<Rightarrow> u8 \<Rightarrow> u8 option" where
  "hex_pair a b =
     (if a = 43 then map_option of_nat (hex_digit b)
      else Option.bind (hex_digit a) (\<lambda>x. map_option (\<lambda>y. of_nat (16 * x + y)) (hex_digit b)))"

text \<open>The loop over the pairs; a pair that is not text is not a number either.\<close>

fun hex_pairs :: "bytes \<Rightarrow> bytes option" where
  "hex_pairs (a # b # bs) =
     Option.bind (hex_pair a b) (\<lambda>x. map_option (\<lambda>xs. x # xs) (hex_pairs bs))"
| "hex_pairs _ = Some []"

definition decode_hex :: "string \<Rightarrow> bytes option" where
  "decode_hex raw =
     (let bs = as_bytes (trim raw) in
      if bs = [] \<or> length bs mod 2 \<noteq> 0 then None else hex_pairs bs)"

definition shrink_bytes_of :: "shrink_proof \<Rightarrow> bytes option" where
  "shrink_bytes_of p = decode_hex (sh_hex p)"

definition shrink_line ::
    "nat option \<times> nat option \<times> string option \<Rightarrow> string \<Rightarrow> nat option \<times> nat option \<times> string option" where
  "shrink_line = (\<lambda>(before, after, hex) raw.
     let line = trim raw in
     case strip_prefix ''SHRINK_BEFORE '' line of
       Some rest \<Rightarrow> (parse_uint (2 ^ 64) (trim rest), after, hex)
     | None \<Rightarrow>
         (case strip_prefix ''SHRINK_LEN '' line of
            Some rest \<Rightarrow> (before, parse_uint (2 ^ 64) (trim rest), hex)
          | None \<Rightarrow>
              (case strip_prefix ''SHRINK_HEX '' line of
                 Some rest \<Rightarrow> (before, after, Some (trim rest))
               | None \<Rightarrow> (before, after, hex))))"

definition parse_shrink :: "string \<Rightarrow> shrink_proof option" where
  "parse_shrink stdout =
     (case foldl shrink_line (None, None, None) (str_lines stdout) of
        (before, after, hex) \<Rightarrow>
          Option.bind after (\<lambda>after.
          Option.bind hex (\<lambda>hex.
            if after = 0 \<or> map_option length (decode_hex hex) \<noteq> Some after then None
            else if after > unwrap_or after before then None
            else Some \<lparr>sh_before = unwrap_or after before, sh_after = after, sh_hex = hex\<rparr>)))"

subsection \<open>Levels\<close>

definition parse_level :: "string \<Rightarrow> evidence_level option" where
  "parse_level label =
     map_of [(''E0'', E0HypothesisOnly), (''E1'', E1StaticSupport), (''E2'', E2DynamicAnomaly),
       (''E3'', E3InvariantViolation), (''E4'', E4IndependentReproduction), (''E5'', E5MinimizedReproduction),
       (''E6'', E6CounterfactualDifferential), (''E7'', E7VariantReattackAndRegression)] label"

definition evidence_satisfies_required :: "campaign_spec \<Rightarrow> evidence_level \<Rightarrow> bool \<Rightarrow> bool \<Rightarrow> bool" where
  "evidence_satisfies_required spec achieved independent twin_holds =
     list_all (\<lambda>label. case parse_level label of
         None \<Rightarrow> False
       | Some E4IndependentReproduction \<Rightarrow> independent
       | Some E6CounterfactualDifferential \<Rightarrow> twin_holds \<and> independent
       | Some E7VariantReattackAndRegression \<Rightarrow> achieved = E7VariantReattackAndRegression
       | Some E5MinimizedReproduction \<Rightarrow> achieved = E5MinimizedReproduction
       | Some required \<Rightarrow> required \<le> achieved) (sp_required_evidence spec)"

subsection \<open>Snapshots and copies\<close>

definition take_snapshot ::
    "declared_env \<Rightarrow> target_id \<Rightarrow> string \<Rightarrow> (drun, engine_error + target_snapshot) state" where
  "take_snapshot env target_id root = do {
     tree \<leftarrow> observe (dn_tree env);
     sid \<leftarrow> observe (dn_uuid env);
     now \<leftarrow> observe (dn_clock env);
     lift_res (map_err (\<lambda>e. EN_Snapshot (snapshot_error_to_string e))
       (snapshot_tree (ct_blake3_hex (dn_cert env)) (dn_from_utf8 env) (SnapshotId sid) now target_id root
          (fst (tree root)) (snd (tree root))))
   }"

text \<open>The copy leaves out version control, build output, compiled Python and the files of earlier runs; it fails at
  the first entry that cannot be copied. What the destination then holds is observed by the next snapshot.\<close>

fun copy_source_tree :: "string \<Rightarrow> string list \<Rightarrow> entries \<Rightarrow> engine_error + entries" where
  "copy_source_tree root at [] = Inr []"
| "copy_source_tree root at ((name, t) # es) =
     (if name = ''.git'' \<or> name = ''target'' \<or> name = ''__pycache__'' \<or> name = ''.aros''
      then copy_source_tree root at es
      else (case t of
        Stat_Err e \<Rightarrow> Inl (EN_Io e)
      | Link \<Rightarrow> Inl (EN_FailClosed (''symlink not allowed in E4 replica: '' @ display_path root (at @ [name])))
      | Dir_Err e \<Rightarrow> Inl (EN_Io e)
      | Dir sub \<Rightarrow>
          res_bind (copy_source_tree root (at @ [name]) sub) (\<lambda>inner.
          res_bind (copy_source_tree root at es) (\<lambda>outer. Inr ((name, Dir inner) # outer)))
      | File bs \<Rightarrow> res_bind (copy_source_tree root at es) (\<lambda>outer. Inr ((name, File bs) # outer))
      | File_Err e \<Rightarrow> Inl (EN_Io e)
      | Special \<Rightarrow> copy_source_tree root at es))"

definition copy_tree :: "declared_env \<Rightarrow> string \<Rightarrow> (drun, engine_error + entries) state" where
  "copy_tree env src =
     try_bind (io_step env) (\<lambda>_. do {
       walk \<leftarrow> observe (dn_walk env);
       lift_res (res_bind (map_err EN_Io (walk src)) (copy_source_tree src []))
     })"

subsection \<open>Replica and twin\<close>

definition cas_store ::
    "declared_env \<Rightarrow> cas \<Rightarrow> bytes \<Rightarrow> string \<Rightarrow> (drun, engine_error + evidence_artifact) state" where
  "cas_store env c bytes media = do {
     put \<leftarrow> observe (dn_put env);
     aid \<leftarrow> observe (dn_uuid env);
     State (\<lambda>s. case cas_put (ct_blake3_hex (dn_cert env)) (dn_sha256_hex env) (fst put) (snd put) (ArtifactId aid) c
                    bytes media (ds_fs s) of
                (r, fs) \<Rightarrow> (map_err (\<lambda>e. EN_Cas (cas_error_to_string e)) r, s\<lparr>ds_fs := fs\<rparr>))
   }"

fun twin_plans ::
    "declared_env \<Rightarrow> string \<Rightarrow> string \<Rightarrow> u32 \<Rightarrow> bool \<Rightarrow> (string \<times> campaign_generator \<times> campaign_oracle) list
      \<Rightarrow> (drun, bool) state" where
  "twin_plans env replica work memory_mb require_container [] = State_Monad.return True"
| "twin_plans env replica work memory_mb require_container ((_, g, oracle) # plans) = do {
     r \<leftarrow> run_arm env replica work g memory_mb require_container;
     (case r of
        Inl _ \<Rightarrow> State_Monad.return False
      | Inr stdout \<Rightarrow>
          if evaluate_oracle stdout oracle \<noteq> OJ_InvariantHolds then State_Monad.return False
          else twin_plans env replica work memory_mb require_container plans)
   }"

text \<open>\<^verbatim>\<open>snapshot_tree(..).ok().is_some_and(..)\<close>\<close>

definition still_has_digest :: "declared_env \<Rightarrow> target_id \<Rightarrow> string \<Rightarrow> string \<Rightarrow> (drun, bool) state" where
  "still_has_digest env target_id root digest = do {
     snap \<leftarrow> take_snapshot env target_id root;
     State_Monad.return (case snap of Inl _ \<Rightarrow> False | Inr s \<Rightarrow> ts_source_tree_digest s = digest)
   }"

definition twin_invariant_holds ::
    "declared_env \<Rightarrow> campaign_spec \<Rightarrow> string \<Rightarrow> string \<Rightarrow> target_id \<Rightarrow> u32 \<Rightarrow> bool \<Rightarrow> (drun, bool) state" where
  "twin_invariant_holds env spec twin work_root target_id memory_mb require_container = do {
     tree \<leftarrow> observe (dn_tree env);
     if \<not> fst (tree twin) then State_Monad.return False
     else do {
       before \<leftarrow> take_snapshot env target_id twin;
       (case before of
          Inl _ \<Rightarrow> State_Monad.return False
        | Inr snap \<Rightarrow> do {
            copied \<leftarrow> copy_tree env twin;
            (case copied of
               Inl _ \<Rightarrow> State_Monad.return False
             | Inr _ \<Rightarrow> do {
                 holds \<leftarrow> twin_plans env (path_join work_root ''e6-twin'') (path_join work_root ''e6-twin-work'')
                            memory_mb require_container (attack_plans spec);
                 if \<not> holds then State_Monad.return False
                 else still_has_digest env target_id twin (ts_source_tree_digest snap)
               })
          })
     }
   }"

fun replay_plans ::
    "declared_env \<Rightarrow> string \<Rightarrow> string \<Rightarrow> u32 \<Rightarrow> bool \<Rightarrow> (string \<times> oracle_judgement) list
      \<Rightarrow> (string \<times> campaign_generator \<times> campaign_oracle) list \<Rightarrow> (drun, bool) state" where
  "replay_plans env replica work memory_mb require_container expected [] = State_Monad.return True"
| "replay_plans env replica work memory_mb require_container expected ((name, g, oracle) # plans) = do {
     r \<leftarrow> run_arm env replica work g memory_mb require_container;
     (case r of
        Inl _ \<Rightarrow> State_Monad.return False
      | Inr stdout \<Rightarrow>
          (case find (\<lambda>(item, _). item = name) expected of
             None \<Rightarrow> State_Monad.return False
           | Some (_, judgement) \<Rightarrow>
               if evaluate_oracle stdout oracle \<noteq> judgement then State_Monad.return False
               else replay_plans env replica work memory_mb require_container expected plans))
   }"

definition independently_reproduce ::
    "declared_env \<Rightarrow> campaign_spec \<Rightarrow> string \<Rightarrow> string \<Rightarrow> string \<Rightarrow> target_id \<Rightarrow> u32 \<Rightarrow> bool
      \<Rightarrow> (string \<times> oracle_judgement) list \<Rightarrow> (drun, bool) state" where
  "independently_reproduce env spec target_root work_root original_digest target_id memory_mb require_container expected = do {
     let replica = path_join work_root ''e4-replica'';
     copied \<leftarrow> copy_tree env target_root;
     (case copied of
        Inl _ \<Rightarrow> State_Monad.return False
      | Inr _ \<Rightarrow> do {
          same \<leftarrow> still_has_digest env target_id replica original_digest;
          if \<not> same then State_Monad.return False
          else do {
            agrees \<leftarrow> replay_plans env replica (path_join work_root ''e4-work'') memory_mb require_container expected
                        (attack_plans spec);
            if \<not> agrees then State_Monad.return False
            else still_has_digest env target_id target_root original_digest
          }
        })
   }"

subsection \<open>Variants and regressions\<close>

record e7_proof =
  e7_regression_path :: string
  e7_regression_digest :: string

type_synonym bind_map = "(string \<times> string) list"

definition attack_cookie :: "bind_map \<Rightarrow> string" where
  "attack_cookie bnd = unwrap_or [] (case map_of bnd ''attack_cookie'' of Some c \<Rightarrow> Some c | None \<Rightarrow> map_of bnd ''cookie'')"

definition derive_variant_binds :: "bind_map \<Rightarrow> bind_map list" where
  "derive_variant_binds bnd =
     (if attack_cookie bnd = [] then []
      else let variant = btree_insert ''cookie'' [] (btree_insert ''attack_cookie'' [] bnd)
           in if variant \<noteq> bnd then [variant] else [])
     @ (case map_of bnd ''attack_path'' of
          None \<Rightarrow> []
        | Some path \<Rightarrow>
            if str_contains path ''../'' then [btree_insert ''attack_path'' (replace_str ''../'' ''..%2F'' path) bnd]
            else if str_contains (to_ascii_lowercase path) ''..%2f''
            then [btree_insert ''attack_path'' (replace_str ''..%2f'' ''../'' (replace_str ''..%2F'' ''../'' path)) bnd]
            else [])"

fun holding_variant ::
    "declared_env \<Rightarrow> campaign_spec \<Rightarrow> string \<Rightarrow> string \<Rightarrow> string \<Rightarrow> u32 \<Rightarrow> bool \<Rightarrow> bind_map list
      \<Rightarrow> (drun, campaign_generator option) state" where
  "holding_variant env spec replica twin work_root memory_mb require_container [] = State_Monad.return None"
| "holding_variant env spec replica twin work_root memory_mb require_container (bnd # binds) = do {
     let g = (sp_generator spec)\<lparr>cg_bind := bnd\<rparr>;
     on_original \<leftarrow> run_arm env replica (path_join work_root ''e7-variant-original'') g memory_mb require_container;
     if \<not> (case on_original of Inl _ \<Rightarrow> False | Inr out \<Rightarrow> evaluate_oracle out (sp_oracle spec) = OJ_AttackSucceeded)
     then holding_variant env spec replica twin work_root memory_mb require_container binds
     else do {
       on_twin \<leftarrow> run_arm env twin (path_join work_root ''e7-variant-twin'') g memory_mb require_container;
       if (case on_twin of Inl _ \<Rightarrow> False | Inr out \<Rightarrow> evaluate_oracle out (sp_oracle spec) = OJ_InvariantHolds)
       then State_Monad.return (Some g)
       else holding_variant env spec replica twin work_root memory_mb require_container binds
     }
   }"

definition find_holding_variant ::
    "declared_env \<Rightarrow> campaign_spec \<Rightarrow> string \<Rightarrow> string \<Rightarrow> string \<Rightarrow> u32 \<Rightarrow> bool \<Rightarrow> (drun, campaign_generator option) state" where
  "find_holding_variant env spec replica twin work_root memory_mb require_container =
     holding_variant env spec replica twin work_root memory_mb require_container
       (derive_variant_binds (cg_bind (sp_generator spec)))"

definition bind_attack :: "bind_map \<Rightarrow> json" where
  "bind_attack bnd =
     JObject [(''path'', JString (unwrap_or ''/'' (map_of bnd ''attack_path''))),
              (''cookie'', JString (attack_cookie bnd)),
              (''must_not_contain'', JString (unwrap_or [] (map_of bnd ''attack_contains'')))]"

definition regression_recipe :: "bind_map \<Rightarrow> bind_map \<Rightarrow> json" where
  "regression_recipe bnd variant =
     JObject [(''health_path'', JString (unwrap_or ''/health'' (map_of bnd ''health_path''))),
              (''attacks'', JArray [bind_attack bnd, bind_attack variant])]"

definition regression_cmd :: "string \<Rightarrow> string \<Rightarrow> string \<Rightarrow> string \<Rightarrow> host_cmd" where
  "regression_cmd python script twin recipe =
     \<lparr>hc_argv = [python, script], hc_cwd = None,
      hc_vars = [(''AROS_REGRESSION_TARGET'', twin), (''AROS_REGRESSION_FILE'', recipe)]\<rparr>"

text \<open>Every failure of \<^verbatim>\<open>try_declared_e7\<close> is the answer \<^verbatim>\<open>None\<close>; \<open>no_proof\<close> is a step that gives up.\<close>

definition no_proof :: "engine_error + 'a" where
  "no_proof = Inl (EN_FailClosed [])"

definition regression_run ::
    "declared_env \<Rightarrow> cas \<Rightarrow> string \<Rightarrow> bind_map \<Rightarrow> bind_map \<Rightarrow> (drun, engine_error + e7_proof) state" where
  "regression_run env c work_root bnd variant =
     (let dir = path_join work_root ''e7-regression'';
          recipe_path = path_join dir ''regression.json'';
          script_path = path_join dir ''regression_test.py'' in
      try_bind (io_step env) (\<lambda>_.
      try_bind (lift_res (map_err EN_Json (dn_json_pretty env (regression_recipe bnd variant)))) (\<lambda>recipe.
      try_bind (write_file env recipe_path recipe) (\<lambda>_.
      try_bind (write_file env script_path (as_bytes (dn_regression_py env))) (\<lambda>_.
      try_bind (cas_store env c (as_bytes (dn_regression_py env)) ''text/x-python'') (\<lambda>artifact. do {
        h \<leftarrow> observe (dn_catalog env);
        answers \<leftarrow> observe (dn_python env);
        (case resolve_python (ch_env_var h) answers of
           None \<Rightarrow> lift_res no_proof
         | Some python \<Rightarrow> do {
             ans \<leftarrow> start_host env (regression_cmd python script_path (path_join work_root ''e6-twin'') recipe_path);
             lift_res
               (if is_ok (hw_spawned ans) \<and> (case hw_output ans of Inl _ \<Rightarrow> False | Inr (code, _) \<Rightarrow> code = Some 0)
                then Inr \<lparr>e7_regression_path = script_path, e7_regression_digest = ea_digest_blake3 artifact\<rparr>
                else no_proof)
           })
      }))))))"

definition try_declared_e7 ::
    "declared_env \<Rightarrow> campaign_spec \<Rightarrow> string \<Rightarrow> cas \<Rightarrow> u32 \<Rightarrow> bool \<Rightarrow> (drun, e7_proof option) state" where
  "try_declared_e7 env spec work_root c memory_mb require_container = do {
     let replica = path_join work_root ''e4-replica'';
     let twin = path_join work_root ''e6-twin'';
     tree \<leftarrow> observe (dn_tree env);
     if \<not> fst (tree replica) \<or> \<not> fst (tree twin) then State_Monad.return None
     else do {
       variant \<leftarrow> find_holding_variant env spec replica twin work_root memory_mb require_container;
       (case variant of
          None \<Rightarrow> State_Monad.return None
        | Some g \<Rightarrow> do {
            r \<leftarrow> regression_run env c work_root (cg_bind (sp_generator spec)) (cg_bind g);
            State_Monad.return (res_ok r)
          })
     }
   }"

subsection \<open>What a payload and a replica are\<close>

lemma hex_pairs_length: "hex_pairs bs = Some xs \<Longrightarrow> length bs mod 2 = 0 \<Longrightarrow> 2 * length xs = length bs"
  by (induction bs arbitrary: xs rule: hex_pairs.induct) (auto simp: bind_eq_Some_conv)

lemma decode_hex_length: "decode_hex raw = Some bytes \<Longrightarrow> 2 * length bytes = length (as_bytes (trim raw)) \<and> bytes \<noteq> []"
  using hex_pairs_length by (fastforce simp: decode_hex_def Let_def split: if_splits)

lemma shrink_line_bound:
  assumes "pred_option (\<lambda>n. n < 2 ^ 64) (fst acc)" "pred_option (\<lambda>n. n < 2 ^ 64) (fst (snd acc))"
  shows "pred_option (\<lambda>n. n < 2 ^ 64) (fst (shrink_line acc line)) \<and> pred_option (\<lambda>n. n < 2 ^ 64) (fst (snd (shrink_line acc line)))"
proof -
  have "pred_option (\<lambda>n. n < 2 ^ 64) (parse_uint (2 ^ 64) s)" for s
    by (cases "parse_uint (2 ^ 64) s") (auto dest: parse_uint_bound)
  with assms show ?thesis
    by (cases acc) (simp add: shrink_line_def Let_def split: option.split del: power_numeral)
qed

lemma shrink_lines_bound:
  "pred_option (\<lambda>n. n < 2 ^ 64) (fst acc) \<Longrightarrow> pred_option (\<lambda>n. n < 2 ^ 64) (fst (snd acc))
    \<Longrightarrow> pred_option (\<lambda>n. n < 2 ^ 64) (fst (foldl shrink_line acc ls)) \<and> pred_option (\<lambda>n. n < 2 ^ 64) (fst (snd (foldl shrink_line acc ls)))"
proof (induction ls arbitrary: acc)
  case (Cons l ls)
  from Cons.IH[OF conjunct1 conjunct2, OF shrink_line_bound shrink_line_bound, OF Cons.prems Cons.prems] show ?case by simp
qed simp

text \<open>C30. A minimized payload that a generator reports is one: it is not empty, it has the reported length, it is not longer
  than the input it was minimized from, and both lengths are those of a machine word.\<close>

theorem parse_shrink_bounds:
  assumes "parse_shrink stdout = Some p"
  shows "0 < sh_after p \<and> sh_after p \<le> sh_before p \<and> sh_before p < 2 ^ 64
    \<and> (\<exists>bytes. shrink_bytes_of p = Some bytes \<and> length bytes = sh_after p \<and> 2 * sh_after p = length (as_bytes (trim (sh_hex p))))"
proof -
  obtain before after hex where acc: "foldl shrink_line (None, None, None) (str_lines stdout) = (before, after, hex)" by (cases rule: prod_cases3)
  from shrink_lines_bound[of "(None, None, None)" "str_lines stdout"] acc
  have bound: "pred_option (\<lambda>n. n < 2 ^ 64) before" "pred_option (\<lambda>n. n < 2 ^ 64) after" by (simp_all del: power_numeral)
  from assms acc obtain n h where n: "after = Some n" "hex = Some h" "n \<noteq> 0" "map_option length (decode_hex h) = Some n"
    "n \<le> unwrap_or n before" and p: "p = \<lparr>sh_before = unwrap_or n before, sh_after = n, sh_hex = h\<rparr>"
    by (auto simp: parse_shrink_def bind_eq_Some_conv split: if_splits)
  from n(4) obtain bytes where "decode_hex h = Some bytes" "length bytes = n" by auto
  with n p bound decode_hex_length[of h bytes] show ?thesis
    by (cases before) (auto simp: shrink_bytes_of_def unwrap_or_def simp del: power_numeral)
qed

lemma parse_shrink_bounds_witness:
  "\<exists>p. parse_shrink (''SHRINK_BEFORE 9'' @ [newline] @ ''SHRINK_LEN 2'' @ [newline] @ ''SHRINK_HEX 0aff'') = Some p
    \<and> sh_after p \<le> sh_before p \<and> 0 < sh_after p"
proof -
  have digits: "parse_digits 0 ''9'' = Some 9" "parse_digits 0 ''2'' = Some 2" by code_simp+
  have t: "trim ''9'' = ''9''" "trim ''2'' = ''2''" "trim ''0aff'' = ''0aff''" "trim ''SHRINK_BEFORE 9'' = ''SHRINK_BEFORE 9''"
    "trim ''SHRINK_LEN 2'' = ''SHRINK_LEN 2''" "trim ''SHRINK_HEX 0aff'' = ''SHRINK_HEX 0aff''" by code_simp+
  have l: "str_lines (''SHRINK_BEFORE 9'' @ [newline] @ ''SHRINK_LEN 2'' @ [newline] @ ''SHRINK_HEX 0aff'')
      = [''SHRINK_BEFORE 9'', ''SHRINK_LEN 2'', ''SHRINK_HEX 0aff'']" by code_simp
  have d: "decode_hex ''0aff'' = Some [10, 255]" by code_simp
  have "parse_shrink (''SHRINK_BEFORE 9'' @ [newline] @ ''SHRINK_LEN 2'' @ [newline] @ ''SHRINK_HEX 0aff'')
      = Some \<lparr>sh_before = 9, sh_after = 2, sh_hex = ''0aff''\<rparr>"
    unfolding parse_shrink_def l
    by (simp add: shrink_line_def t Let_def parse_uint_def digits d unwrap_or_def is_ascii_digit_def)
  with parse_shrink_bounds[OF this] show ?thesis by blast
qed

lemma source_copy_plain: "copy_source_tree root at es = Inr c \<Longrightarrow> plain_tree c"
proof (induction root at es arbitrary: c rule: copy_source_tree.induct)
  case (2 root at name t es)
  then show ?case by (cases t) (fastforce simp: res_simps split: if_splits)+
qed simp

text \<open>A file of an earlier run, below a directory or a file named \<^verbatim>\<open>.aros\<close>.\<close>

definition earlier_run :: "string list \<Rightarrow> bool" where
  "earlier_run names \<longleftrightarrow> ''.aros'' \<in> set names"

lemma tree_files_below: "f \<in> set (tree_files at es) \<Longrightarrow> \<exists>ns. fst f = at @ ns"
proof (induction at es rule: tree_files.induct)
  case (2 at name t es)
  then show ?case by (cases t) (fastforce split: if_splits)+
qed simp

lemma tree_files_at: "tree_files (at @ at') es = map (\<lambda>(ns, t). (at @ ns, t)) (tree_files at' es)"
proof (induction at' es rule: tree_files.induct)
  case (2 at' name t es)
  then show ?case by (cases t) (auto split: if_splits)
qed simp

lemma tree_files_below_earlier: "filter (\<lambda>f. \<not> earlier_run (fst f)) (tree_files (at @ [''.aros'']) es) = []"
  using tree_files_below by (fastforce simp: filter_empty_conv earlier_run_def)

lemma source_copy_files:
  "copy_source_tree root at es = Inr c \<Longrightarrow> \<not> earlier_run at'
    \<Longrightarrow> tree_files at' c = filter (\<lambda>f. \<not> earlier_run (fst f)) (tree_files at' es)"
proof (induction root at es arbitrary: c at' rule: copy_source_tree.induct)
  case (2 root at name t es)
  show ?case
  proof (cases "name = ''.aros''")
    case True
    with 2 show ?thesis
      by (cases t) (auto simp: skipped_name_def earlier_run_def tree_files_below_earlier[unfolded earlier_run_def])
  next
    case False
    with 2 show ?thesis
      by (cases t) (auto simp: res_simps skipped_name_def earlier_run_def split: if_splits)
  qed
qed simp


definition demo_target :: entries where
  "demo_target = [(''a.py'', File [1]), (''.aros'', Dir [(''x'', File [2])])]"


end
