(* ===== verification/Declared.thy ===== *)
theory Declared
  imports Evidence
begin

text \<open>
  The run of a declared campaign (\<^verbatim>\<open>run_declared_campaign\<close> of \<^verbatim>\<open>aros-core/src/campaign_loader.rs\<close> and the functions it calls),
  with the research graph of \<^verbatim>\<open>aros-core/src/graph.rs\<close> that it persists. The run is split at the points where the
  source function starts a new phase; each phase is a definition with the lines it translates.
\<close>

subsection \<open>Reading specifications\<close>

definition load_campaign_file ::
    "(string \<Rightarrow> types_error + campaign_spec) \<Rightarrow> (types_error \<Rightarrow> string) \<Rightarrow> string + string \<Rightarrow> engine_error + campaign_spec" where
  "load_campaign_file parse show_error file =
     res_bind (map_err EN_Io file) (\<lambda>raw. map_err (\<lambda>e. EN_Types (show_error e)) (from_json_str parse raw))"

definition or_insert :: "string \<Rightarrow> string \<Rightarrow> bind_map \<Rightarrow> bind_map" where
  "or_insert k v m = (if map_of m k = None then btree_insert k v m else m)"

definition set_binds :: "bind_map \<Rightarrow> campaign_spec \<Rightarrow> campaign_spec" where
  "set_binds m spec = spec\<lparr>sp_generator := (sp_generator spec)\<lparr>cg_bind := m\<rparr>\<rparr>"

definition overlay_surface_bind :: "bind_map \<Rightarrow> campaign_spec \<Rightarrow> campaign_spec" where
  "overlay_surface_bind suggested spec =
     (let spec1 = (case map_of suggested ''health_path'' of
                     Some health \<Rightarrow> set_binds (or_insert ''health_path'' health (cg_bind (sp_generator spec))) spec
                   | None \<Rightarrow> spec);
          bnd = cg_bind (sp_generator spec1) in
      if List.member [''http-idor'', ''http-unauth'', ''http-cookie-confusion'', ''http-mr-cookie-drop'', ''http-mr-method'',
           ''http-mr-cross-user'', ''http-mr-header-noise'', ''http-mr-xff'', ''http-mr-auth-header''] (sp_id spec1)
      then (case map_of suggested ''idor_path'' of
              Some path \<Rightarrow> set_binds (btree_insert ''path_b'' path (btree_insert ''attack_path'' path bnd)) spec1
            | None \<Rightarrow> spec1)
      else if sp_id spec1 = ''http-mr-query-noise''
      then (case map_of suggested ''idor_path'' of
              Some path \<Rightarrow> set_binds (btree_insert ''path_a'' path (btree_insert ''attack_path'' path bnd)) spec1
            | None \<Rightarrow> spec1)
      else if sp_id spec1 = ''http-path-traversal''
      then (case map_of suggested ''files_path'' of
              Some path \<Rightarrow> set_binds (btree_insert ''attack_path'' path bnd) spec1
            | None \<Rightarrow> spec1)
      else spec1)"

subsection \<open>The environment of the target\<close>

definition parse_toml_quoted :: "string \<Rightarrow> string \<Rightarrow> string option" where
  "parse_toml_quoted text' key =
     Option.bind (find_split (key @ '' = '' @ [CHR 0x22]) text') (\<lambda>(_, rest).
       map_option fst (find_split [CHR 0x22] rest))"

definition environment_mismatch :: "build_cfg \<Rightarrow> string option \<Rightarrow> bool \<Rightarrow> string option" where
  "environment_mismatch cfg toolchain contained_linux =
     Option.bind toolchain (\<lambda>text'.
     Option.bind (parse_toml_quoted text' ''channel'') (\<lambda>channel.
       let lower = to_ascii_lowercase channel;
           pin = (\<lambda>suffix. Some (''toolchain pin '' @ channel @ suffix)) in
       if \<not> (starts_with channel ''stable'' \<or> starts_with channel ''beta'' \<or> starts_with channel ''nightly''
              \<or> channel \<noteq> [] \<and> is_ascii_digit (hd channel))
       then Some (''rust-toolchain.toml channel '' @ channel @ '' cannot be reproduced on this host'')
       else if \<not> (str_contains lower ''x86_64-'' \<or> str_contains lower ''aarch64-'' \<or> str_contains lower ''i686-'') then None
       else if contained_linux \<and> \<not> str_contains lower ''linux''
       then pin '' is not a Linux triple; contained generator image cannot reproduce it''
       else if str_contains lower ''windows-gnu'' \<and> \<not> (cfg_windows cfg \<and> cfg_gnu cfg)
       then pin '' does not match this host; environment mismatch, not a security result''
       else if str_contains lower ''windows-msvc'' \<and> \<not> (cfg_windows cfg \<and> cfg_msvc cfg)
       then pin '' does not match this host; environment mismatch, not a security result''
       else if str_contains lower ''linux'' \<and> cfg_windows cfg \<and> \<not> contained_linux
       then pin '' is Linux; this Windows host cannot reproduce it without containment''
       else if str_contains lower ''apple-darwin'' \<and> \<not> cfg_macos cfg
       then pin '' is macOS; environment mismatch, not a security result''
       else if str_contains lower ''windows'' \<and> cfg_unix cfg
       then pin '' is Windows; environment mismatch, not a security result''
       else None))"

subsection \<open>Ledger, store and archive\<close>

definition log_ledger ::
    "declared_env \<Rightarrow> research_event \<Rightarrow> string list \<Rightarrow> (drun, engine_error + unit) state" where
  "log_ledger env event digests = do {
     now \<leftarrow> observe (dn_clock env);
     State (\<lambda>s. case append_event (ct_ledger_env (dn_cert env)) now event digests (ds_ledger s) of
        Inl e \<Rightarrow> (Inl (EN_Ledger (ledger_error_to_string id e)), s)
      | Inr (_, l) \<Rightarrow> (Inr (), s\<lparr>ds_ledger := l\<rparr>))
   }"

definition store_put_campaign :: "declared_env \<Rightarrow> campaign \<Rightarrow> (drun, engine_error + unit) state" where
  "store_put_campaign env campaign = do {
     fault \<leftarrow> observe (dn_sql env);
     State (\<lambda>s. case res_bind (case fault of Some e \<Rightarrow> Inl (SE_Sqlite e) | None \<Rightarrow> Inr ())
                        (\<lambda>_. put_campaign (dn_campaign_codec env) campaign (ds_db s)) of
        Inl e \<Rightarrow> (Inl (EN_Store (store_error_to_string e)), s)
      | Inr db \<Rightarrow> (Inr (), s\<lparr>ds_db := db\<rparr>))
   }"

definition store_persist_ledger :: "declared_env \<Rightarrow> campaign_id \<Rightarrow> (drun, engine_error + unit) state" where
  "store_persist_ledger env c = do {
     fault \<leftarrow> observe (dn_sql env);
     State (\<lambda>s. case persist_ledger_for (ct_ledger_env (dn_cert env)) id (ct_entry_codec (dn_cert env)) fault c
                        (ds_ledger s) (ds_db s) of
        (r, db) \<Rightarrow> (map_err (\<lambda>e. EN_Store (store_error_to_string e)) r, s\<lparr>ds_db := db\<rparr>))
   }"

definition harness_paths :: "campaign_generator \<Rightarrow> string list" where
  "harness_paths g =
     (case cg_corpus g of Some corpus \<Rightarrow> [corpus] | None \<Rightarrow> [])
     @ (case generator_argv (replace_str ''{harness}'' ''_'' (cg_command g)) of
          Inl _ \<Rightarrow> []
        | Inr args \<Rightarrow> filter (\<lambda>t. \<not> starts_with t ''-'' \<and> \<not> str_contains t ''{harness}'') (tl args))"

definition all_generators :: "campaign_spec \<Rightarrow> campaign_generator list" where
  "all_generators spec =
     map (\<lambda>(_, g, _). g) (attack_plans spec)
     @ (case sp_structural_control spec of Some c \<Rightarrow> [sc_good c, sc_mutant c] | None \<Rightarrow> [])"

definition harness_relpaths :: "campaign_spec \<Rightarrow> string list" where
  "harness_relpaths spec = remdups_adj (sort (concat (map harness_paths (all_generators spec))))"

definition evidence_event :: "declared_env \<Rightarrow> campaign_id \<Rightarrow> string \<Rightarrow> (drun, engine_error + unit) state" where
  "evidence_event env c digest = log_ledger env (EvidenceCreated c digest) [digest]"

definition archive_file ::
    "declared_env \<Rightarrow> cas \<Rightarrow> campaign_id \<Rightarrow> bytes \<Rightarrow> string \<Rightarrow> bytes \<Rightarrow> (drun, engine_error + bytes) state" where
  "archive_file env c campaign_id combined label bytes =
     try_bind (cas_store env c bytes ''text/plain'') (\<lambda>artifact.
     try_bind (evidence_event env campaign_id (ea_digest_blake3 artifact)) (\<lambda>_.
       lift_res (Inr (combined @ as_bytes label @ [0] @ bytes))))"

definition archive_target_file ::
    "declared_env \<Rightarrow> cas \<Rightarrow> campaign_id \<Rightarrow> string \<Rightarrow> bytes \<Rightarrow> string \<Rightarrow> (drun, engine_error + bytes) state" where
  "archive_target_file env c campaign_id target_root combined rel = do {
     h \<leftarrow> observe (dn_catalog env);
     if \<not> ch_is_file h (path_join target_root rel) then lift_res (Inr combined)
     else do {
       read \<leftarrow> observe (dn_read env);
       try_bind (lift_res (map_err EN_Io (read (path_join target_root rel)))) (\<lambda>bytes.
         archive_file env c campaign_id combined rel bytes)
     }
   }"

definition archive_item ::
    "declared_env \<Rightarrow> cas \<Rightarrow> campaign_id \<Rightarrow> string \<Rightarrow> bytes \<Rightarrow> string + dir_item \<Rightarrow> (drun, engine_error + bytes) state" where
  "archive_item env c campaign_id i combined item =
     (case item of
        Inl e \<Rightarrow> lift_res (Inl (EN_Io e))
      | Inr it \<Rightarrow>
          try_bind (lift_res (map_err EN_Io (di_meta it))) (\<lambda>is_file.
            if \<not> is_file then lift_res (Inr combined)
            else try_bind (lift_res (map_err EN_Io (di_bytes it))) (\<lambda>bytes.
              archive_file env c campaign_id combined (''catalog:'' @ i @ ''/'' @ di_name it) bytes)))"

definition archive_catalog ::
    "declared_env \<Rightarrow> cas \<Rightarrow> campaign_id \<Rightarrow> bytes \<Rightarrow> campaign_generator \<Rightarrow> (drun, engine_error + bytes) state" where
  "archive_catalog env c campaign_id combined g =
     (case cg_harness g of
        None \<Rightarrow> lift_res (Inr combined)
      | Some i \<Rightarrow> do {
          h \<leftarrow> observe (dn_catalog env);
          (case Option.bind (catalog_harness_entry h i) path_parent of
             None \<Rightarrow> lift_res (Inr combined)
           | Some dir \<Rightarrow> do {
               listing \<leftarrow> observe (dn_list env);
               try_bind (lift_res (map_err EN_Io (listing dir))) (\<lambda>items.
                 try_fold (archive_item env c campaign_id i) combined items)
             })
        })"

definition archive_harnesses ::
    "declared_env \<Rightarrow> string \<Rightarrow> campaign_spec \<Rightarrow> cas \<Rightarrow> campaign_id \<Rightarrow> (drun, engine_error + string option) state" where
  "archive_harnesses env target_root spec c campaign_id =
     try_bind (try_fold (archive_target_file env c campaign_id target_root) [] (harness_relpaths spec)) (\<lambda>combined1.
     try_bind (try_fold (archive_catalog env c campaign_id) combined1 (all_generators spec)) (\<lambda>combined.
       if combined = [] then lift_res (Inr None)
       else try_bind (cas_store env c combined ''application/octet-stream'') (\<lambda>snap.
            try_bind (evidence_event env campaign_id (ea_digest_blake3 snap)) (\<lambda>_.
              lift_res (Inr (Some (ea_digest_blake3 snap)))))))"

subsection \<open>The research graph\<close>

text \<open>A \<^verbatim>\<open>DiGraph\<close> whose nodes and edges are only added: its weights in the order of insertion.\<close>

record active_graph =
  ag_campaign_id :: campaign_id
  ag_nodes :: "graph_node list"
  ag_edges :: "graph_edge list"

definition graph_new :: "campaign_id \<Rightarrow> active_graph" where
  "graph_new c = \<lparr>ag_campaign_id = c, ag_nodes = [], ag_edges = []\<rparr>"

definition find_index :: "active_graph \<Rightarrow> node_id \<Rightarrow> nat option" where
  "find_index g i = find (\<lambda>k. gn_id (ag_nodes g ! k) = i) [0..<length (ag_nodes g)]"

definition add_node :: "graph_node \<Rightarrow> active_graph \<Rightarrow> active_graph" where
  "add_node n g = g\<lparr>ag_nodes := ag_nodes g @ [n]\<rparr>"

definition add_edge :: "graph_edge \<Rightarrow> active_graph \<Rightarrow> active_graph" where
  "add_edge e g =
     (if find_index g (ge_from e) \<noteq> None \<and> find_index g (ge_to e) \<noteq> None
      then g\<lparr>ag_edges := ag_edges g @ [e]\<rparr> else g)"

definition has_verified_finding :: "active_graph \<Rightarrow> bool" where
  "has_verified_finding g =
     list_ex (\<lambda>n. gn_graph n = GK_Research \<and> gn_kind n = ''finding'' \<and> gn_epistemic n = ES_Verified) (ag_nodes g)"

definition conclusion_of :: "oracle_judgement \<Rightarrow> bool \<Rightarrow> string \<times> epistemic_state \<times> string \<times> epistemic_state" where
  "conclusion_of judgement verified =
     (case judgement of
        OJ_AttackSucceeded \<Rightarrow>
          if verified then (''finding'', ES_Verified, ''supports'', ES_Verified)
          else (''finding'', ES_Claimed, ''supports'', ES_Claimed)
      | OJ_InvariantHolds \<Rightarrow> (''refutation'', ES_Refuted, ''falsifies'', ES_Refuted)
      | OJ_Indeterminate \<Rightarrow> (''gap'', ES_Stale, ''inconclusive'', ES_Stale))"

definition declared_node ::
    "campaign \<Rightarrow> campaign_spec \<Rightarrow> evidence_level \<Rightarrow> string \<Rightarrow> u64 \<Rightarrow> node_id \<Rightarrow> string \<Rightarrow> string \<Rightarrow> epistemic_state \<Rightarrow> graph_node" where
  "declared_node campaign spec level digest now i kind label epistemic =
     \<lparr>gn_id = i, gn_campaign_id = cp_id campaign, gn_graph = GK_Research, gn_kind = kind, gn_label = label,
      gn_epistemic = epistemic,
      gn_payload = JObject [(''spec_id'', JString (sp_id spec)), (''digest'', JString digest), (''level'', JString (level_debug level))],
      gn_provenance = ''declared-campaign'', gn_artifact_refs = [], gn_created_unix_ms = now\<rparr>"

definition declared_link ::
    "campaign \<Rightarrow> u64 \<Rightarrow> uuid \<Rightarrow> node_id \<Rightarrow> node_id \<Rightarrow> string \<Rightarrow> epistemic_state \<Rightarrow> graph_edge" where
  "declared_link campaign now i from to kind epistemic =
     \<lparr>ge_id = EdgeId i, ge_campaign_id = cp_id campaign, ge_graph = GK_Research, ge_from = from, ge_to = to, ge_kind = kind,
      ge_epistemic = epistemic, ge_confidence = None, ge_provenance = ''declared-campaign'', ge_artifact_refs = [],
      ge_created_unix_ms = now\<rparr>"

definition claim_node ::
    "campaign \<Rightarrow> campaign_spec \<Rightarrow> string \<Rightarrow> u64 \<Rightarrow> node_id \<Rightarrow> project_claim \<Rightarrow> graph_node" where
  "claim_node campaign spec digest now i claim =
     \<lparr>gn_id = i, gn_campaign_id = cp_id campaign, gn_graph = GK_Research, gn_kind = ''assumption'',
      gn_label = claim_statement claim, gn_epistemic = ES_Hypothesized,
      gn_payload = JObject [(''cookie'', JString (pc_cookie claim)), (''path'', JString (pc_path claim)),
        (''needle'', JString (pc_needle claim)), (''source'', JString ''INVARIANT.md''), (''spec_id'', JString (sp_id spec)),
        (''digest'', JString digest)],
      gn_provenance = ''project-claim'', gn_artifact_refs = [], gn_created_unix_ms = now\<rparr>"

text \<open>The graph of a run, part by part; \<open>ids\<close> are the fresh identifiers.\<close>

definition claim_part ::
    "(nat \<Rightarrow> uuid) \<Rightarrow> u64 \<Rightarrow> campaign \<Rightarrow> campaign_spec \<Rightarrow> string \<Rightarrow> project_claim option \<Rightarrow> active_graph \<Rightarrow> active_graph" where
  "claim_part ids now campaign spec digest claim g =
     (case claim of
        None \<Rightarrow> g
      | Some c \<Rightarrow>
          add_edge ((declared_link campaign now (ids 5) (NodeId (ids 4)) (NodeId (ids 0)) ''motivates'' ES_Hypothesized)
                      \<lparr>ge_provenance := ''project-claim''\<rparr>)
            (add_node (claim_node campaign spec digest now (NodeId (ids 4)) c) g))"

definition core_part ::
    "(nat \<Rightarrow> uuid) \<Rightarrow> u64 \<Rightarrow> campaign \<Rightarrow> campaign_spec \<Rightarrow> evidence_level \<Rightarrow> string \<Rightarrow> oracle_judgement
      \<Rightarrow> string \<times> epistemic_state \<times> string \<times> epistemic_state \<Rightarrow> active_graph \<Rightarrow> active_graph" where
  "core_part ids now campaign spec level digest judgement = (\<lambda>(conclusion_kind, conclusion_state, link_kind, link_state) g.
     let node = declared_node campaign spec level digest now;
         link = declared_link campaign now;
         hypothesis = NodeId (ids 0); experiment = NodeId (ids 1); observation = NodeId (ids 2); conclusion = NodeId (ids 3)
     in add_edge (link (ids 8) observation conclusion link_kind link_state)
          (add_edge (link (ids 7) experiment observation ''observed'' ES_Observed)
            (add_edge (link (ids 6) hypothesis experiment ''tested-by'' ES_Hypothesized)
              (add_node (node conclusion conclusion_kind (level_debug level) conclusion_state)
                (add_node (node observation ''observation'' (judgement_debug judgement) ES_Observed)
                  (add_node (node experiment ''experiment'' (sp_id spec) ES_Observed) g))))))"

definition replica_part ::
    "(nat \<Rightarrow> uuid) \<Rightarrow> u64 \<Rightarrow> campaign \<Rightarrow> campaign_spec \<Rightarrow> evidence_level \<Rightarrow> string \<Rightarrow> bool \<Rightarrow> active_graph \<Rightarrow> active_graph" where
  "replica_part ids now campaign spec level digest independent g =
     (if independent
      then add_edge (declared_link campaign now (ids 10) (NodeId (ids 2)) (NodeId (ids 9)) ''reproduced'' ES_Observed)
             (add_node (declared_node campaign spec level digest now (NodeId (ids 9)) ''replica'' ''e4-replica'' ES_Observed) g)
      else g)"

definition twin_part ::
    "(nat \<Rightarrow> uuid) \<Rightarrow> u64 \<Rightarrow> campaign \<Rightarrow> campaign_spec \<Rightarrow> evidence_level \<Rightarrow> string \<Rightarrow> bool \<Rightarrow> active_graph \<Rightarrow> active_graph" where
  "twin_part ids now campaign spec level digest twin_holds g =
     (if twin_holds
      then add_edge (declared_link campaign now (ids 12) (NodeId (ids 3)) (NodeId (ids 11)) ''absent-on'' ES_Refuted)
             (add_node (declared_node campaign spec level digest now (NodeId (ids 11)) ''patched-twin'' ''e6-twin'' ES_Observed) g)
      else g)"

definition declared_graph ::
    "(nat \<Rightarrow> uuid) \<Rightarrow> u64 \<Rightarrow> campaign \<Rightarrow> campaign_spec \<Rightarrow> oracle_judgement \<Rightarrow> bool \<Rightarrow> bool \<Rightarrow> bool \<Rightarrow> evidence_level \<Rightarrow> string
      \<Rightarrow> project_claim option \<Rightarrow> active_graph" where
  "declared_graph ids now campaign spec judgement verified independent twin_holds level digest claim =
     twin_part ids now campaign spec level digest twin_holds
       (replica_part ids now campaign spec level digest independent
         (core_part ids now campaign spec level digest judgement (conclusion_of judgement verified)
           (claim_part ids now campaign spec digest claim
             (add_node (declared_node campaign spec level digest now (NodeId (ids 0)) ''hypothesis'' (sp_invariant spec) ES_Hypothesized)
               (graph_new (cp_id campaign))))))"

definition record_declared_graph ::
    "declared_env \<Rightarrow> campaign \<Rightarrow> campaign_spec \<Rightarrow> oracle_judgement \<Rightarrow> bool \<Rightarrow> bool \<Rightarrow> bool \<Rightarrow> evidence_level \<Rightarrow> string
      \<Rightarrow> project_claim option \<Rightarrow> (drun, engine_error + unit) state" where
  "record_declared_graph env campaign spec judgement verified independent twin_holds level digest claim = do {
     now \<leftarrow> observe (dn_clock env);
     ids \<leftarrow> observe (\<lambda>n k. dn_uuid env (n + k));
     _ \<leftarrow> State_Monad.update (\<lambda>s. s\<lparr>ds_tick := ds_tick s + 12\<rparr>);
     fault \<leftarrow> observe (dn_sql env);
     let g = declared_graph ids now campaign spec judgement verified independent twin_holds level digest claim;
     State (\<lambda>s. case persist_graph (dn_node_codec env) (dn_edge_codec env) fault (cp_id campaign) (ag_nodes g) (ag_edges g)
                        (ds_db s) of
        (r, db) \<Rightarrow> (map_err (\<lambda>e. EN_Store (store_error_to_string e)) r, s\<lparr>ds_db := db\<rparr>))
   }"

subsection \<open>Reports\<close>

definition html_escape :: "string \<Rightarrow> string" where
  "html_escape v =
     replace_char (CHR 0x22) ''&quot;'' (replace_char (CHR ''>'') ''&gt;'' (replace_char (CHR ''<'') ''&lt;''
       (replace_char (CHR ''&'') ''&amp;'' v)))"

definition show_bool :: "bool \<Rightarrow> string" where
  "show_bool b = (if b then ''true'' else ''false'')"

definition field :: "string \<Rightarrow> string \<Rightarrow> string" where
  "field name v = ''<p><b>'' @ name @ ''</b> '' @ v @ ''</p>''"

record report_data =
  rp_target_digest :: string
  rp_harness_digest :: "string option"
  rp_achieved :: evidence_level
  rp_required_met :: bool
  rp_run_kind :: string
  rp_environment_notes :: "string option"
  rp_surfaces :: "string list"
  rp_control_good :: "string option"
  rp_control_mutant :: "string option"
  rp_ledger_verified :: bool
  rp_minimized_digest :: "string option"

definition report_html :: "campaign_spec \<Rightarrow> string \<Rightarrow> report_data \<Rightarrow> string" where
  "report_html spec campaign_id d =
     ''<!DOCTYPE html><html><head><meta charset='' @ [CHR 0x22] @ ''utf-8'' @ [CHR 0x22] @ ''><title>'' @ html_escape (sp_id spec)
     @ ''</title></head><body><h1>RedLab evidence report</h1>''
     @ field ''campaign'' (html_escape (sp_id spec))
     @ field ''claim / invariant'' (html_escape (sp_invariant spec))
     @ field ''target digest'' (html_escape (rp_target_digest d))
     @ field ''revision pin'' (html_escape (case sp_target spec of Some t \<Rightarrow> ct_revision_pin t | None \<Rightarrow> ''unpinned''))
     @ field ''harness digest'' (html_escape (unwrap_or ''none'' (rp_harness_digest d)))
     @ field ''generator'' (html_escape (cg_command (sp_generator spec)))
     @ field ''oracle'' (html_escape (co_success_means (sp_oracle spec)) @ '' match=''
         @ html_escape (unwrap_or [] (co_match (sp_oracle spec))))
     @ field ''run kind'' (html_escape (rp_run_kind d))
     @ field ''level achieved'' (level_debug (rp_achieved d) @ '' <b>required</b> ''
         @ html_escape (join_with '', '' (sp_required_evidence spec)) @ '' <b>met</b> '' @ show_bool (rp_required_met d))
     @ field ''ledger verified'' (show_bool (rp_ledger_verified d))
     @ field ''negative control (token)'' (html_escape (unwrap_or ''none'' (co_negative_control (sp_oracle spec))))
     @ field ''structural good'' (html_escape (unwrap_or ''n/a'' (rp_control_good d)))
     @ field ''structural mutant'' (html_escape (unwrap_or ''n/a'' (rp_control_mutant d)))
     @ field ''surfaces'' (html_escape (join_with ''; '' (rp_surfaces d)))
     @ field ''environment'' (html_escape (unwrap_or ''none'' (rp_environment_notes d)))
     @ field ''minimized reproduction'' (html_escape (unwrap_or ''none'' (rp_minimized_digest d)))
     @ field ''campaign id'' campaign_id
     @ ''</body></html>''"

definition write_report ::
    "declared_env \<Rightarrow> string \<Rightarrow> campaign_spec \<Rightarrow> campaign \<Rightarrow> report_data \<Rightarrow> (drun, engine_error + string) state" where
  "write_report env work_root spec campaign d =
     (let path = path_join work_root ''evidence-report.html'' in
      try_bind (write_file env path (as_bytes (report_html spec (ct_show_campaign_id (dn_cert env) (cp_id campaign)) d)))
        (\<lambda>_. lift_res (Inr path)))"

subsection \<open>Failing closed\<close>

definition persist_failure_card ::
    "declared_env \<Rightarrow> campaign \<Rightarrow> string \<Rightarrow> failure_category \<Rightarrow> string \<Rightarrow> (drun, string option) state" where
  "persist_failure_card env campaign spec_id category detail = do {
     run_id \<leftarrow> observe (dn_uuid env);
     fault \<leftarrow> observe (dn_sql env);
     (case codec_to_string (dn_card_codec env)
             \<lparr>rf_campaign_id = cp_id campaign, rf_run_id = RunId run_id, rf_category = category, rf_detail = detail,
              rf_spec_id = spec_id\<rparr> of
        Inl _ \<Rightarrow> State_Monad.return None
      | Inr payload \<Rightarrow>
          if fault \<noteq> None then State_Monad.return None
          else do {
            _ \<leftarrow> State_Monad.update (\<lambda>s. s\<lparr>ds_db := put_record ''failure_card'' (dn_show_uuid env run_id) payload (ds_db s)\<rparr>);
            State_Monad.return (Some (dn_show_uuid env run_id))
          })
   }"

definition fail_closed_no_evidence ::
    "declared_env \<Rightarrow> string \<Rightarrow> string \<Rightarrow> campaign \<Rightarrow> string \<Rightarrow> (drun, engine_error + 'a) state" where
  "fail_closed_no_evidence env message spec_id campaign digest = do {
     now \<leftarrow> observe (dn_clock env);
     let failed = campaign\<lparr>cp_state := CS_InsufficientEvidence, cp_updated_unix_ms := now\<rparr>;
     _ \<leftarrow> persist_failure_card env failed spec_id
            (if str_contains message ''indeterminate'' then FC_VerificationFailure else FC_ToolGap) message;
     _ \<leftarrow> store_put_campaign env failed;
     _ \<leftarrow> store_persist_ledger env (cp_id failed);
     lift_res (Inl (EN_FailClosed (message @ '' digest='' @ digest)))
   }"

subsection \<open>The phases of a run\<close>

text \<open>What stays fixed after the start of a run: the specification with the accepted claim bound, the claim, the two
  directories, whether containers are required, the archive, the original digest and the campaign record.\<close>

record run_context =
  rc_spec :: campaign_spec
  rc_claim :: "project_claim option"
  rc_target_root :: string
  rc_work_root :: string
  rc_target_id :: target_id
  rc_contained :: bool
  rc_cas :: cas
  rc_digest :: string
  rc_campaign :: campaign

definition arm :: "declared_env \<Rightarrow> run_context \<Rightarrow> campaign_generator \<Rightarrow> (drun, engine_error + string) state" where
  "arm env rc g =
     run_arm env (rc_target_root rc) (rc_work_root rc) g (rl_memory_mb (sp_resource_limits (rc_spec rc))) (rc_contained rc)"

definition no_evidence :: "declared_env \<Rightarrow> run_context \<Rightarrow> string \<Rightarrow> (drun, engine_error + 'a) state" where
  "no_evidence env rc message =
     fail_closed_no_evidence env message (sp_id (rc_spec rc)) (rc_campaign rc) (rc_digest rc)"

text \<open>The structural control: the oracle must hold on the good arm and break on the mutant arm.\<close>

definition control_phase ::
    "declared_env \<Rightarrow> run_context \<Rightarrow> (drun, engine_error + string option \<times> string option) state" where
  "control_phase env rc =
     (case sp_structural_control (rc_spec rc) of
        None \<Rightarrow> lift_res (Inr (None, None))
      | Some control \<Rightarrow>
          try_bind (arm env rc (sc_good control)) (\<lambda>good_out.
          let good_j = evaluate_oracle good_out (sp_oracle (rc_spec rc)) in
          if good_j \<noteq> OJ_InvariantHolds
          then no_evidence env rc (''campaign '' @ sp_id (rc_spec rc) @ '' structural good arm did not hold (''
                 @ judgement_debug good_j @ ''); oracle untrustworthy'')
          else
            try_bind (arm env rc (sc_mutant control)) (\<lambda>mutant_out.
            let mutant_j = evaluate_oracle mutant_out (sp_oracle (rc_spec rc)) in
            if mutant_j \<noteq> OJ_AttackSucceeded
            then no_evidence env rc (''campaign '' @ sp_id (rc_spec rc) @ '' structural mutant arm did not break (''
                   @ judgement_debug mutant_j @ ''); oracle untrustworthy'')
            else lift_res (Inr (Some (judgement_debug good_j), Some (judgement_debug mutant_j))))))"

record attack_state =
  at_results :: "string list"
  at_judgements :: "(string \<times> oracle_judgement) list"
  at_any_success :: bool
  at_all_hold :: bool
  at_shrink :: "shrink_proof option"

definition attack_start :: attack_state where
  "attack_start = \<lparr>at_results = [], at_judgements = [], at_any_success = False, at_all_hold = True, at_shrink = None\<rparr>"

text \<open>One round of the loop over the attack surfaces.\<close>

definition attack_step ::
    "declared_env \<Rightarrow> run_context \<Rightarrow> attack_state \<Rightarrow> string \<times> campaign_generator \<times> campaign_oracle
      \<Rightarrow> (drun, engine_error + attack_state) state" where
  "attack_step env rc acc = (\<lambda>(name, g, oracle). do {
     h \<leftarrow> observe (dn_catalog env);
     (case missing_generator_reason h (rc_target_root rc) (sp_id (rc_spec rc)) g of
        Some reason \<Rightarrow> no_evidence env rc reason
      | None \<Rightarrow>
          try_bind (arm env rc g) (\<lambda>stdout.
          try_bind (cas_store env (rc_cas rc) (as_bytes stdout) ''text/plain'') (\<lambda>artifact.
          try_bind (log_ledger env (ObservationRecorded (cp_id (rc_campaign rc)) (ea_digest_blake3 artifact)
                      (cp_manifest_hash (rc_campaign rc))) [ea_digest_blake3 artifact]) (\<lambda>_.
          let judgement = evaluate_oracle stdout oracle;
              acc' = acc\<lparr>at_results := at_results acc @ [name @ '':'' @ judgement_debug judgement],
                          at_judgements := at_judgements acc @ [(name, judgement)],
                          at_shrink := (case parse_shrink stdout of Some p \<Rightarrow> Some p | None \<Rightarrow> at_shrink acc)\<rparr> in
          case judgement of
            OJ_Indeterminate \<Rightarrow>
              no_evidence env rc (''campaign '' @ sp_id (rc_spec rc) @ '' surface '' @ name @ '' oracle is indeterminate'')
          | OJ_AttackSucceeded \<Rightarrow> lift_res (Inr (acc'\<lparr>at_any_success := True, at_all_hold := False\<rparr>))
          | OJ_InvariantHolds \<Rightarrow> lift_res (Inr acc')))))
   })"

definition attack_phase :: "declared_env \<Rightarrow> run_context \<Rightarrow> (drun, engine_error + attack_state) state" where
  "attack_phase env rc = try_fold (attack_step env rc) attack_start (attack_plans (rc_spec rc))"

definition overall_judgement :: "attack_state \<Rightarrow> oracle_judgement" where
  "overall_judgement a =
     (if at_any_success a then OJ_AttackSucceeded else if at_all_hold a then OJ_InvariantHolds else OJ_Indeterminate)"

definition minimize_phase ::
    "declared_env \<Rightarrow> run_context \<Rightarrow> attack_state \<Rightarrow> (drun, engine_error + string option) state" where
  "minimize_phase env rc a =
     (case (if overall_judgement a = OJ_AttackSucceeded then Option.bind (at_shrink a) shrink_bytes_of else None) of
        None \<Rightarrow> lift_res (Inr None)
      | Some bytes \<Rightarrow>
          try_bind (cas_store env (rc_cas rc) bytes ''application/octet-stream'') (\<lambda>artifact.
          try_bind (evidence_event env (cp_id (rc_campaign rc)) (ea_digest_blake3 artifact)) (\<lambda>_.
          try_bind (write_file env (path_join (rc_work_root rc) ''minimized.bin'') bytes) (\<lambda>_.
            lift_res (Inr (Some (ea_digest_blake3 artifact)))))))"

record measurement =
  ms_independent :: bool
  ms_twin_holds :: bool
  ms_e7 :: "e7_proof option"
  ms_digest_after :: string

text \<open>Reproduction on a replica, the patched twin, the variant with its regression test, and the digest of the target
  after all of it.\<close>

definition reproduce_phase ::
    "declared_env \<Rightarrow> run_context \<Rightarrow> attack_state \<Rightarrow> string \<Rightarrow> (drun, bool) state" where
  "reproduce_phase env rc a after =
     (if after = rc_digest rc
      then independently_reproduce env (rc_spec rc) (rc_target_root rc) (rc_work_root rc) (rc_digest rc) (rc_target_id rc)
             (rl_memory_mb (sp_resource_limits (rc_spec rc))) (rc_contained rc) (at_judgements a)
      else State_Monad.return False)"

definition twin_phase ::
    "declared_env \<Rightarrow> run_context \<Rightarrow> string option \<Rightarrow> attack_state \<Rightarrow> (drun, bool) state" where
  "twin_phase env rc twin_root a =
     (if overall_judgement a \<noteq> OJ_AttackSucceeded then State_Monad.return False
      else case twin_root of
        None \<Rightarrow> State_Monad.return False
      | Some twin \<Rightarrow> do {
          holds \<leftarrow> twin_invariant_holds env (rc_spec rc) twin (rc_work_root rc) (rc_target_id rc)
                     (rl_memory_mb (sp_resource_limits (rc_spec rc))) (rc_contained rc);
          if \<not> holds then State_Monad.return False
          else still_has_digest env (rc_target_id rc) (rc_target_root rc) (rc_digest rc)
        })"

definition measure_phase ::
    "declared_env \<Rightarrow> run_context \<Rightarrow> string option \<Rightarrow> attack_state \<Rightarrow> string \<Rightarrow> (drun, engine_error + measurement) state" where
  "measure_phase env rc twin_root a after = do {
     independent \<leftarrow> reproduce_phase env rc a after;
     twin_holds \<leftarrow> twin_phase env rc twin_root a;
     e7 \<leftarrow> (if twin_holds \<and> independent
             then try_declared_e7 env (rc_spec rc) (rc_work_root rc) (rc_cas rc)
                    (rl_memory_mb (sp_resource_limits (rc_spec rc))) (rc_contained rc)
             else State_Monad.return None);
     try_bind (take_snapshot env (rc_target_id rc) (rc_target_root rc)) (\<lambda>after_all.
       lift_res (Inr \<lparr>ms_independent = independent, ms_twin_holds = twin_holds,
         ms_e7 = (if ts_source_tree_digest after_all \<noteq> rc_digest rc then None else e7),
         ms_digest_after = ts_source_tree_digest after_all\<rparr>))
   }"

subsection \<open>The verdict\<close>

definition raw_level :: "oracle_judgement \<Rightarrow> bool \<Rightarrow> measurement \<Rightarrow> evidence_level" where
  "raw_level judgement shrink_ok m =
     (case judgement of
        OJ_AttackSucceeded \<Rightarrow>
          if ms_e7 m \<noteq> None then E7VariantReattackAndRegression
          else if ms_twin_holds m \<and> ms_independent m then E6CounterfactualDifferential
          else if shrink_ok then E5MinimizedReproduction
          else if ms_independent m then E4IndependentReproduction
          else E3InvariantViolation
      | OJ_InvariantHolds \<Rightarrow> E2DynamicAnomaly
      | OJ_Indeterminate \<Rightarrow> E0HypothesisOnly)"

definition verdict_of :: "bool \<Rightarrow> evidence_level \<Rightarrow> oracle_judgement \<Rightarrow> campaign_state \<times> bool" where
  "verdict_of required_met level judgement =
     (if \<not> required_met then (CS_InsufficientEvidence, False)
      else if level = E7VariantReattackAndRegression then (CS_RegressionProtected, True)
      else if judgement = OJ_AttackSucceeded then (CS_Verified, True)
      else (CS_Refuted, False))"

text \<open>All that the last phase reports.\<close>

record run_result =
  rr_harness_digest :: "string option"
  rr_controls :: "string option \<times> string option"
  rr_attack :: attack_state
  rr_minimized :: "string option"
  rr_measured :: measurement

definition rr_level :: "run_result \<Rightarrow> evidence_level" where
  "rr_level r = raw_level (overall_judgement (rr_attack r)) (rr_minimized r \<noteq> None) (rr_measured r)"

definition rr_required_met :: "campaign_spec \<Rightarrow> run_result \<Rightarrow> bool" where
  "rr_required_met spec r =
     evidence_satisfies_required spec (rr_level r) (ms_independent (rr_measured r)) (ms_twin_holds (rr_measured r))"

definition rr_verdict :: "campaign_spec \<Rightarrow> run_result \<Rightarrow> campaign_state \<times> bool" where
  "rr_verdict spec r = verdict_of (rr_required_met spec r) (rr_level r) (overall_judgement (rr_attack r))"

text \<open>The outcome of a run that was carried through; the certificate is written from it before the paths, the surface
  results and the results of the controls are filled in.\<close>

definition declared_outcome ::
    "run_context \<Rightarrow> run_result \<Rightarrow> campaign \<Rightarrow> finding \<Rightarrow> bool \<Rightarrow> campaign_outcome" where
  "declared_outcome rc r campaign f ledger_ok =
     (let m = rr_measured r in
      \<lparr>oc_campaign = campaign, oc_finding = Some f, oc_evidence_level = Some (rr_level r),
       oc_original_digest = rc_digest rc, oc_original_digest_after = ms_digest_after m,
       oc_deceptive_rejected = (sp_expected_outcome (rc_spec rc) = InvariantBroken \<and> \<not> fi_verified f),
       oc_patch = None, oc_live_reattack_confirmed = (ms_e7 m \<noteq> None), oc_research_card_id = None,
       oc_verifier_isolated = False,
       oc_declared = default_declared_run_meta
         \<lparr>dr_harness_digest := rr_harness_digest r, dr_required_evidence_met := rr_required_met (rc_spec rc) r,
          dr_contained := rc_contained rc, dr_run_kind := ''security'', dr_ledger_verified := ledger_ok,
          dr_shrink_before := map_option sh_before (at_shrink (rr_attack r)),
          dr_shrink_len := map_option sh_after (at_shrink (rr_attack r)),
          dr_minimized_digest := rr_minimized r, dr_independent_reproduced := ms_independent m,
          dr_twin_holds := ms_twin_holds m, dr_variant_holds := (ms_e7 m \<noteq> None),
          dr_regression_path := map_option e7_regression_path (ms_e7 m),
          dr_regression_digest := map_option e7_regression_digest (ms_e7 m)\<rparr>\<rparr>)"

definition report_of :: "run_context \<Rightarrow> run_result \<Rightarrow> bool \<Rightarrow> report_data" where
  "report_of rc r ledger_ok =
     \<lparr>rp_target_digest = rc_digest rc, rp_harness_digest = rr_harness_digest r, rp_achieved = rr_level r,
      rp_required_met = rr_required_met (rc_spec rc) r, rp_run_kind = ''security'', rp_environment_notes = None,
      rp_surfaces = at_results (rr_attack r), rp_control_good = fst (rr_controls r), rp_control_mutant = snd (rr_controls r),
      rp_ledger_verified = ledger_ok, rp_minimized_digest = rr_minimized r\<rparr>"

definition final_outcome :: "run_result \<Rightarrow> string \<Rightarrow> string \<Rightarrow> campaign_outcome \<Rightarrow> campaign_outcome" where
  "final_outcome r report_path certificate_path o' =
     o'\<lparr>oc_declared := (oc_declared o')
          \<lparr>dr_report_path := Some report_path, dr_surface_results := at_results (rr_attack r),
           dr_control_good_result := fst (rr_controls r), dr_control_mutant_result := snd (rr_controls r),
           dr_certificate_path := Some certificate_path\<rparr>\<rparr>"

definition certificate_step ::
    "declared_env \<Rightarrow> string \<Rightarrow> string \<Rightarrow> campaign_outcome \<Rightarrow> (drun, engine_error + string) state" where
  "certificate_step env work_root spec_id o' = do {
     fault \<leftarrow> observe (dn_write env);
     State (\<lambda>s. case write_certificate (dn_cert env) fault work_root spec_id o' (ds_ledger s) (ds_fs s) of
        (r, fs) \<Rightarrow> (r, s\<lparr>ds_fs := fs\<rparr>))
   }"

text \<open>The events of the end of a run.\<close>

definition regression_events ::
    "declared_env \<Rightarrow> campaign_id \<Rightarrow> finding_id \<Rightarrow> e7_proof option \<Rightarrow> (drun, engine_error + unit) state" where
  "regression_events env c fid e7 =
     (case e7 of
        None \<Rightarrow> lift_res (Inr ())
      | Some proof' \<Rightarrow>
          try_bind (log_ledger env (ReattackCompleted c fid True) []) (\<lambda>_.
            log_ledger env (RegressionCreated c fid (e7_regression_path proof')) [e7_regression_digest proof']))"

definition final_events ::
    "declared_env \<Rightarrow> run_context \<Rightarrow> campaign_id \<Rightarrow> string \<Rightarrow> (drun, engine_error + unit) state" where
  "final_events env rc c digest_after =
     try_bind (case rc_claim rc of
                 None \<Rightarrow> lift_res (Inr ())
               | Some claim \<Rightarrow> log_ledger env (AssumptionCreated c (claim_statement claim)) []) (\<lambda>_.
       log_ledger env (CertificateIssued c (rc_contained rc) (rc_digest rc = digest_after)) [])"

text \<open>The ledger is checked and persisted, then the graph, the certificate and the report are written.\<close>

definition seal_phase ::
    "declared_env \<Rightarrow> run_context \<Rightarrow> run_result \<Rightarrow> campaign \<Rightarrow> finding \<Rightarrow> (drun, engine_error + campaign_outcome) state" where
  "seal_phase env rc r campaign f = do {
     s \<leftarrow> State_Monad.get;
     let ledger_ok = is_ok (ledger_verify (ct_ledger_env (dn_cert env)) (ds_ledger s));
     try_bind (store_persist_ledger env (cp_id campaign)) (\<lambda>_.
     try_bind (record_declared_graph env campaign (rc_spec rc) (overall_judgement (rr_attack r)) (fi_verified f)
                 (ms_independent (rr_measured r)) (ms_twin_holds (rr_measured r)) (rr_level r) (rc_digest rc) (rc_claim rc)) (\<lambda>_.
     try_bind (certificate_step env (rc_work_root rc) (sp_id (rc_spec rc)) (declared_outcome rc r campaign f ledger_ok)) (\<lambda>certificate_path.
     try_bind (write_report env (rc_work_root rc) (rc_spec rc) campaign (report_of rc r ledger_ok)) (\<lambda>report_path.
       lift_res (Inr (final_outcome r report_path certificate_path (declared_outcome rc r campaign f ledger_ok)))))))
   }"

definition conclude_phase ::
    "declared_env \<Rightarrow> run_context \<Rightarrow> run_result \<Rightarrow> (drun, engine_error + campaign_outcome) state" where
  "conclude_phase env rc r = do {
     fid \<leftarrow> observe (dn_uuid env);
     try_bind (regression_events env (cp_id (rc_campaign rc)) (FindingId fid) (ms_e7 (rr_measured r))) (\<lambda>_. do {
       hid \<leftarrow> observe (dn_uuid env);
       now \<leftarrow> observe (dn_clock env);
       let campaign = (rc_campaign rc)\<lparr>cp_state := fst (rr_verdict (rc_spec rc) r), cp_updated_unix_ms := now\<rparr>;
       let f = \<lparr>fi_id = FindingId fid, fi_campaign_id = cp_id campaign, fi_hypothesis_id = HypothesisId hid,
                fi_claim = sp_invariant (rc_spec rc), fi_evidence_level = rr_level r,
                fi_manifest_hash = cp_manifest_hash campaign, fi_verified = snd (rr_verdict (rc_spec rc) r)\<rparr>;
       try_bind (store_put_campaign env campaign) (\<lambda>_.
       try_bind (final_events env rc (cp_id campaign) (ms_digest_after (rr_measured r))) (\<lambda>_.
         seal_phase env rc r campaign f))
     })
   }"

subsection \<open>The run\<close>

text \<open>A target that the host cannot reproduce ends the run without a security result.\<close>

definition mismatch_phase ::
    "declared_env \<Rightarrow> run_context \<Rightarrow> string \<Rightarrow> (drun, engine_error + campaign_outcome) state" where
  "mismatch_phase env rc reason = (
     let campaign = (rc_campaign rc)\<lparr>cp_state := CS_Failed\<rparr> in
     try_bind (store_put_campaign env campaign) (\<lambda>_.
     try_bind (store_persist_ledger env (cp_id campaign)) (\<lambda>_.
     try_bind (write_report env (rc_work_root rc) (rc_spec rc) campaign
        \<lparr>rp_target_digest = rc_digest rc, rp_harness_digest = None, rp_achieved = E0HypothesisOnly, rp_required_met = False,
         rp_run_kind = ''environment_mismatch'', rp_environment_notes = Some reason, rp_surfaces = [], rp_control_good = None,
         rp_control_mutant = None, rp_ledger_verified = False, rp_minimized_digest = None\<rparr>) (\<lambda>report_path.
       lift_res (Inr
         \<lparr>oc_campaign = campaign, oc_finding = None, oc_evidence_level = None, oc_original_digest = rc_digest rc,
          oc_original_digest_after = rc_digest rc, oc_deceptive_rejected = False, oc_patch = None,
          oc_live_reattack_confirmed = False, oc_research_card_id = None, oc_verifier_isolated = False,
          oc_declared = default_declared_run_meta
            \<lparr>dr_run_kind := ''environment_mismatch'', dr_environment_notes := Some reason,
             dr_report_path := Some report_path, dr_ledger_verified := True\<rparr>\<rparr>)))))"

definition security_phases ::
    "declared_env \<Rightarrow> run_context \<Rightarrow> string option \<Rightarrow> (drun, engine_error + run_result) state" where
  "security_phases env rc twin_root =
     try_bind (archive_harnesses env (rc_target_root rc) (rc_spec rc) (rc_cas rc) (cp_id (rc_campaign rc))) (\<lambda>harness_digest.
     try_bind (control_phase env rc) (\<lambda>controls.
     try_bind (attack_phase env rc) (\<lambda>a.
     try_bind (take_snapshot env (rc_target_id rc) (rc_target_root rc)) (\<lambda>after.
     try_bind (minimize_phase env rc a) (\<lambda>minimized.
     try_bind (measure_phase env rc twin_root a (ts_source_tree_digest after)) (\<lambda>m.
       lift_res (Inr \<lparr>rr_harness_digest = harness_digest, rr_controls = controls, rr_attack = a,
                      rr_minimized = minimized, rr_measured = m\<rparr>)))))))"

text \<open>The start of a run: the directories, the database, the digest of the target and the campaign record.\<close>

definition open_run ::
    "declared_env \<Rightarrow> ('net authorization_manifest \<Rightarrow> string + string) \<Rightarrow> campaign_engine \<Rightarrow> campaign_spec \<Rightarrow> string \<Rightarrow> string
      \<Rightarrow> 'net authorization_manifest \<Rightarrow> (drun, engine_error + run_context) state" where
  "open_run env manifest_hash eng spec target_root work_root manifest0 = do {
     let manifest = (if eg_waive_containment eng then manifest0\<lparr>am_require_containment := False\<rparr> else manifest0);
     file \<leftarrow> observe (dn_text env);
     let claim = accepted_project_claim spec (file (path_join target_root ''INVARIANT.md''));
     try_bind (io_step env) (\<lambda>_. do {
       fault \<leftarrow> observe (dn_io env);
       try_bind (lift_res (map_err (\<lambda>e. EN_Cas (cas_error_to_string e))
                   (cas_open (\<lambda>_. fault) (path_join work_root ''cas'') (32 * 1024 * 1024)))) (\<lambda>c. do {
         db_fault \<leftarrow> observe (dn_sql env);
         try_bind (lift_res (case db_fault of Some e \<Rightarrow> Inl (EN_Store (store_error_to_string (SE_Sqlite e))) | None \<Rightarrow> Inr ())) (\<lambda>_. do {
           _ \<leftarrow> State_Monad.update (\<lambda>s. s\<lparr>ds_ledger := ledger_new\<rparr>);
           try_bind (take_snapshot env (am_target_id manifest) target_root) (\<lambda>original.
           try_bind (log_ledger env (TargetSnapshotted (am_target_id manifest) (ts_id original) (ts_source_tree_digest original))
                       [ts_source_tree_digest original]) (\<lambda>_.
           try_bind (lift_res (map_err EN_Types (manifest_hash manifest))) (\<lambda>hash. do {
             now \<leftarrow> observe (dn_clock env);
             lift_res (Inr
               \<lparr>rc_spec = bind_accepted_claim spec claim, rc_claim = claim, rc_target_root = target_root, rc_work_root = work_root,
                rc_target_id = am_target_id manifest,
                rc_contained = (am_require_containment manifest \<and> \<not> eg_waive_containment eng), rc_cas = c,
                rc_digest = ts_source_tree_digest original,
                rc_campaign = (campaign_new now (am_campaign_id manifest) (am_target_id manifest) (ts_id original) hash)
                                \<lparr>cp_state := CS_Experimenting\<rparr>\<rparr>)
           })))
         })
       })
     })
   }"

definition run_declared_campaign ::
    "declared_env \<Rightarrow> ('net authorization_manifest \<Rightarrow> string + string) \<Rightarrow> campaign_engine \<Rightarrow> campaign_spec \<Rightarrow> string \<Rightarrow> string
      \<Rightarrow> 'net authorization_manifest \<Rightarrow> (drun, engine_error + campaign_outcome) state" where
  "run_declared_campaign env manifest_hash eng spec target_root work_root manifest =
     try_bind (open_run env manifest_hash eng spec target_root work_root manifest) (\<lambda>rc. do {
       file \<leftarrow> observe (dn_text env);
       (case environment_mismatch (dn_cfg env) (file (path_join target_root ''rust-toolchain.toml'')) (rc_contained rc) of
          Some reason \<Rightarrow> mismatch_phase env rc reason
        | None \<Rightarrow>
            try_bind (security_phases env rc (eg_twin_root eng)) (\<lambda>r. conclude_phase env rc r))
     })"

end
