(* ===== verification/Run_Rules.thy ===== *)
theory Run_Rules
  imports Declared
begin

text \<open>
  Reasoning about the runs of \<^verbatim>\<open>Declared\<close>. A property of what a run does to its state is a preorder on states; a
  locale states what such a preorder must allow for the single steps of a run and gives it for every phase
  and for the whole run. It is interpreted for the host processes, the container commands, the ledger and
  single files.
\<close>

subsection \<open>Preorders on states\<close>

named_theorems step_intros \<open>compositional rules for the steps of a computation\<close>

definition steps :: "('s \<Rightarrow> 's \<Rightarrow> bool) \<Rightarrow> ('s, 'a) state \<Rightarrow> bool" where
  "steps R m \<longleftrightarrow> (\<forall>s. R s (snd (run_state m s)))"

lemma stepsD: "steps R m \<Longrightarrow> run_state m s = (r, s') \<Longrightarrow> R s s'"
  by (metis snd_conv steps_def)

lemma run_try_bind:
  "run_state (try_bind m f) s = (case run_state m s of (Inl e, s') \<Rightarrow> (Inl e, s') | (Inr x, s') \<Rightarrow> run_state (f x) s')"
  by (simp add: try_bind_def split: prod.splits sum.splits)

lemma try_bind_Inr:
  assumes "run_state (try_bind m f) s = (Inr y, s')"
  obtains x s1 where "run_state m s = (Inr x, s1)" "run_state (f x) s1 = (Inr y, s')"
  using assms by (auto simp: run_try_bind split: prod.splits sum.splits)

lemma run_lift_res [simp]: "run_state (lift_res r) s = (r, s)"
  by (simp add: lift_res_def)

lemma lift_InrE:
  assumes "run_state (lift_res (Inr x)) s = (Inr y, s')"
  obtains "x = y" "s = s'"
  using assms by simp

lemma run_observe [simp]: "run_state (observe f) s = (f (ds_tick s), s\<lparr>ds_tick := Suc (ds_tick s)\<rparr>)"
  by (simp add: observe_def)

lemma observe_bindE:
  assumes "run_state (State_Monad.bind (observe f) k) s = (r, s')"
  obtains s1 where "s1 = s\<lparr>ds_tick := Suc (ds_tick s)\<rparr>" "run_state (k (f (ds_tick s))) s1 = (r, s')"
  using assms by simp

text \<open>What every value a computation returns satisfies.\<close>

named_theorems result_intros \<open>compositional rules for the value of a computation\<close>

definition results :: "('a \<Rightarrow> bool) \<Rightarrow> ('s, 'e + 'a) state \<Rightarrow> bool" where
  "results P m \<longleftrightarrow> (\<forall>s x s'. run_state m s = (Inr x, s') \<longrightarrow> P x)"

lemma resultsD: "results P m \<Longrightarrow> run_state m s = (Inr x, s') \<Longrightarrow> P x"
  by (auto simp: results_def)

lemma results_lift [result_intros]: "(\<And>x. r = Inr x \<Longrightarrow> P x) \<Longrightarrow> results P (lift_res r)"
  by (simp add: results_def lift_res_def)

lemma results_try_bind [result_intros]: "(\<And>x. results P (f x)) \<Longrightarrow> results P (try_bind m f)"
  unfolding results_def by (metis try_bind_Inr)

lemma results_bind [result_intros]: "(\<And>x. results P (f x)) \<Longrightarrow> results P (State_Monad.bind m f)"
  unfolding results_def by (auto split: prod.splits)

lemma results_if [result_intros]: "(c \<Longrightarrow> results P m) \<Longrightarrow> (\<not> c \<Longrightarrow> results P n) \<Longrightarrow> results P (if c then m else n)"
  by simp

locale step_preorder =
  fixes R :: "'s \<Rightarrow> 's \<Rightarrow> bool"
  assumes step_refl: "R s s"
    and step_trans: "R s t \<Longrightarrow> R t u \<Longrightarrow> R s u"
begin

lemma steps_return [step_intros]: "steps R (State_Monad.return x)"
  by (simp add: steps_def step_refl)

lemma steps_bind [step_intros]:
  "steps R m \<Longrightarrow> (\<And>x. steps R (f x)) \<Longrightarrow> steps R (State_Monad.bind m f)"
  unfolding steps_def by (auto split: prod.splits) (metis snd_conv step_trans)

lemma steps_try_bind [step_intros]:
  "steps R m \<Longrightarrow> (\<And>x. steps R (f x)) \<Longrightarrow> steps R (try_bind m f)"
  unfolding try_bind_def by (rule steps_bind) (auto simp: steps_return split: sum.splits)

lemma steps_try_bind_Inr:
  assumes "steps R m" "\<And>s s' x. run_state m s = (Inr x, s') \<Longrightarrow> steps R (f x)"
  shows "steps R (try_bind m f)"
  unfolding steps_def run_try_bind
  using assms by (auto simp: steps_def split: prod.splits sum.splits) (metis snd_conv step_trans)+

lemma steps_try_fold [step_intros]:
  "(\<And>b x. x \<in> set xs \<Longrightarrow> steps R (f b x)) \<Longrightarrow> steps R (try_fold f b xs)"
  by (induction xs arbitrary: b) (auto intro: steps_return steps_try_bind)

lemma steps_if [step_intros]: "(c \<Longrightarrow> steps R m) \<Longrightarrow> (\<not> c \<Longrightarrow> steps R n) \<Longrightarrow> steps R (if c then m else n)"
  by simp

lemma steps_sum [step_intros]:
  "(\<And>e. x = Inl e \<Longrightarrow> steps R (f e)) \<Longrightarrow> (\<And>y. x = Inr y \<Longrightarrow> steps R (g y))
    \<Longrightarrow> steps R (case x of Inl e \<Rightarrow> f e | Inr y \<Rightarrow> g y)"
  by (cases x) auto

lemma steps_option [step_intros]:
  "(x = None \<Longrightarrow> steps R f) \<Longrightarrow> (\<And>y. x = Some y \<Longrightarrow> steps R (g y))
    \<Longrightarrow> steps R (case x of None \<Rightarrow> f | Some y \<Rightarrow> g y)"
  by (cases x) auto

lemma steps_prod [step_intros]: "(\<And>a b. x = (a, b) \<Longrightarrow> steps R (f a b)) \<Longrightarrow> steps R (case x of (a, b) \<Rightarrow> f a b)"
  by (cases x) auto

lemma steps_State [step_intros]: "(\<And>s. R s (snd (g s))) \<Longrightarrow> steps R (State g)"
  by (simp add: steps_def)

lemma steps_update [step_intros]: "(\<And>s. R s (g s)) \<Longrightarrow> steps R (State_Monad.update g)"
  by (simp add: steps_def State_Monad.update_def)

lemma steps_get [step_intros]: "steps R State_Monad.get"
  by (simp add: steps_def step_refl State_Monad.get_def)

end

subsection \<open>The steps of a run\<close>

text \<open>What an arm may start, in a container or on the host; the regression test is a host process of its own.\<close>

definition arm_allowed :: "(host_cmd \<Rightarrow> bool) \<Rightarrow> bool \<Rightarrow> bool \<Rightarrow> bool" where
  "arm_allowed may_run may_contain c \<longleftrightarrow>
     (if c then may_contain
      else \<forall>cwd command args bind_file. generator_argv command = Inr args
             \<longrightarrow> may_run (generator_cmd cwd args cwd bind_file))"

definition regression_of :: "string \<Rightarrow> string \<Rightarrow> host_cmd" where
  "regression_of work_root python =
     regression_cmd python (path_join (path_join work_root ''e7-regression'') ''regression_test.py'')
       (path_join work_root ''e6-twin'') (path_join (path_join work_root ''e7-regression'') ''regression.json'')"

locale run_preorder = step_preorder R for R :: "drun \<Rightarrow> drun \<Rightarrow> bool" +
  fixes env :: declared_env
    and may_run :: "host_cmd \<Rightarrow> bool"
    and may_contain :: bool
  assumes step_tick: "R s (s\<lparr>ds_tick := n\<rparr>)"
    and step_db: "R s (s\<lparr>ds_db := db\<rparr>)"
    and step_append: "append_event (ct_ledger_env (dn_cert env)) now event digests (ds_ledger s) = Inr (e, l)
      \<Longrightarrow> R s (s\<lparr>ds_ledger := l\<rparr>)"
    and step_files: "R s (s\<lparr>ds_fs := fs\<rparr>)"
    and step_host: "may_run cmd \<Longrightarrow> R s (s\<lparr>ds_host := ds_host s @ [cmd], ds_fs := fs\<rparr>)"
    and step_podman: "may_contain \<Longrightarrow> run_state (exec_generator_ex (dn_oci env n) sid pid root args mem harness) (ds_log s) = (r, log)
      \<Longrightarrow> R s (s\<lparr>ds_log := log\<rparr>)"
begin

lemma steps_observe [step_intros]: "steps R (observe f)"
  unfolding observe_def by (rule steps_State) (simp add: step_tick)

lemma steps_observe_bind [step_intros]: "(\<And>n. steps R (k (f n))) \<Longrightarrow> steps R (State_Monad.bind (observe f) k)"
  unfolding steps_def by (auto intro: step_trans[OF step_tick])

lemma steps_lift_res [step_intros]: "steps R (lift_res r)"
  unfolding lift_res_def by (rule steps_return)

lemma steps_try_lift [step_intros]: "(\<And>x. r = Inr x \<Longrightarrow> steps R (k x)) \<Longrightarrow> steps R (try_bind (lift_res r) k)"
  by (cases r) (simp_all add: steps_def run_try_bind step_refl)

lemma steps_io [step_intros]: "steps R (io_step env)"
  unfolding io_step_def by (intro step_intros)

lemma steps_write_file [step_intros]: "steps R (write_file env p bytes)"
  unfolding write_file_def by (intro step_intros step_files)

lemma steps_log_ledger [step_intros]: "steps R (log_ledger env event digests)"
  unfolding log_ledger_def
  by (intro step_intros) (auto simp: step_refl intro: step_append split: sum.splits)

lemma steps_start_host [step_intros]: "may_run cmd \<Longrightarrow> steps R (start_host env cmd)"
  unfolding start_host_def by (intro step_intros step_host)

lemma steps_on_log [step_intros]:
  "may_contain \<Longrightarrow> steps R (on_log (exec_generator_ex (dn_oci env n) sid pid root args mem harness))"
  unfolding on_log_def by (rule steps_State) (auto intro: step_podman split: prod.splits)

lemma steps_copy_item [step_intros]: "steps R (copy_item env dest u item)"
  unfolding copy_item_def by (auto intro!: step_intros split: sum.splits bool.splits)

lemma steps_stage [step_intros]: "steps R (stage_catalog_harness env work_root g)"
  unfolding stage_catalog_harness_def Let_def by (intro step_intros)

lemma steps_run_generator [step_intros]:
  "may_run (generator_cmd cwd args root bind_file) \<Longrightarrow> steps R (run_generator env cwd args root bind_file)"
  unfolding run_generator_def by (intro step_intros)

lemma steps_run_arm [step_intros]: "arm_allowed may_run may_contain c \<Longrightarrow> steps R (run_arm env root work g mem c)"
  unfolding run_arm_def Let_def
  by (intro steps_try_lift steps_observe_bind step_intros) (auto simp: arm_allowed_def)

lemma steps_cas_store [step_intros]: "steps R (cas_store env c bytes media)"
  unfolding cas_store_def by (intro step_intros) (auto intro: step_files split: prod.splits)

lemma steps_take_snapshot [step_intros]: "steps R (take_snapshot env tid root)"
  unfolding take_snapshot_def by (intro step_intros)

lemma steps_still_has_digest [step_intros]: "steps R (still_has_digest env tid root d)"
  unfolding still_has_digest_def by (intro step_intros)

lemma steps_copy_tree [step_intros]: "steps R (copy_tree env src)"
  unfolding copy_tree_def by (intro step_intros)

lemma steps_twin_plans [step_intros]: "arm_allowed may_run may_contain c \<Longrightarrow> steps R (twin_plans env replica work mem c plans)"
proof (induction plans)
  case (Cons p plans)
  then show ?case by (cases p) (auto intro!: step_intros)
qed (auto intro: step_intros)

lemma steps_replay_plans [step_intros]: "arm_allowed may_run may_contain c \<Longrightarrow> steps R (replay_plans env replica work mem c expected plans)"
proof (induction plans)
  case (Cons p plans)
  then show ?case by (cases p) (auto intro!: step_intros)
qed (auto intro: step_intros)

lemma steps_twin [step_intros]: "arm_allowed may_run may_contain c \<Longrightarrow> steps R (twin_invariant_holds env spec twin work tid mem c)"
  unfolding twin_invariant_holds_def by (intro step_intros)

lemma steps_reproduce [step_intros]:
  "arm_allowed may_run may_contain c \<Longrightarrow> steps R (independently_reproduce env spec root work d tid mem c expected)"
  unfolding independently_reproduce_def Let_def by (intro step_intros)

lemma steps_holding_variant [step_intros]: "arm_allowed may_run may_contain c \<Longrightarrow> steps R (holding_variant env spec replica twin work mem c binds)"
  by (induction binds) (auto simp: Let_def intro!: step_intros)

lemma steps_regression_run [step_intros]: "(\<And>python. may_run (regression_of work python)) \<Longrightarrow> steps R (regression_run env c work b v)"
  unfolding regression_run_def Let_def by (intro step_intros) (simp_all add: regression_of_def)

lemma steps_e7 [step_intros]: "arm_allowed may_run may_contain c \<Longrightarrow> (\<And>python. may_run (regression_of work python)) \<Longrightarrow> steps R (try_declared_e7 env spec work cas mem c)"
  unfolding try_declared_e7_def find_holding_variant_def Let_def by (intro step_intros)

lemma steps_store_campaign [step_intros]: "steps R (store_put_campaign env campaign)"
  unfolding store_put_campaign_def by (intro step_intros) (auto simp: step_refl intro: step_db split: sum.splits)

lemma steps_store_ledger [step_intros]: "steps R (store_persist_ledger env c)"
  unfolding store_persist_ledger_def by (intro step_intros) (auto intro: step_db split: prod.splits)

lemma steps_graph [step_intros]: "steps R (record_declared_graph env campaign spec j v i t level d claim)"
  unfolding record_declared_graph_def Let_def
  by (intro step_intros) (auto intro: step_db step_tick split: prod.splits)

lemma steps_archive_file [step_intros]: "steps R (archive_file env c cid combined label bytes)"
  unfolding archive_file_def evidence_event_def by (intro step_intros)

lemma steps_archive [step_intros]: "steps R (archive_harnesses env root spec c cid)"
  unfolding archive_harnesses_def archive_target_file_def archive_catalog_def archive_item_def evidence_event_def
  by (intro step_intros)

lemma steps_report [step_intros]: "steps R (write_report env work spec campaign d)"
  unfolding write_report_def Let_def by (intro step_intros)

lemma steps_card [step_intros]: "steps R (persist_failure_card env campaign sid cat detail)"
  unfolding persist_failure_card_def by (intro step_intros step_db)

lemma steps_no_evidence [step_intros]: "steps R (no_evidence env rc message)"
  unfolding no_evidence_def fail_closed_no_evidence_def Let_def by (intro step_intros)

lemma steps_certificate [step_intros]: "steps R (certificate_step env work sid o')"
  unfolding certificate_step_def by (intro step_intros) (auto intro: step_files split: prod.splits)

lemma steps_control [step_intros]: "arm_allowed may_run may_contain (rc_contained rc) \<Longrightarrow> steps R (control_phase env rc)"
  unfolding control_phase_def arm_def Let_def by (intro step_intros)

lemma steps_attack_step [step_intros]:
  "arm_allowed may_run may_contain (rc_contained rc) \<Longrightarrow> steps R (attack_step env rc acc plan)"
  unfolding attack_step_def arm_def Let_def
  by (cases plan) (auto intro!: step_intros split: oracle_judgement.split)

lemma steps_attack [step_intros]: "arm_allowed may_run may_contain (rc_contained rc) \<Longrightarrow> steps R (attack_phase env rc)"
  unfolding attack_phase_def by (intro step_intros)

lemma steps_minimize [step_intros]: "steps R (minimize_phase env rc a)"
  unfolding minimize_phase_def evidence_event_def by (intro step_intros)

lemma steps_measure [step_intros]:
  "arm_allowed may_run may_contain (rc_contained rc) \<Longrightarrow> (\<And>python. may_run (regression_of (rc_work_root rc) python))
    \<Longrightarrow> steps R (measure_phase env rc twin a after)"
  unfolding measure_phase_def reproduce_phase_def twin_phase_def by (intro step_intros)

lemma steps_security [step_intros]:
  "arm_allowed may_run may_contain (rc_contained rc) \<Longrightarrow> (\<And>python. may_run (regression_of (rc_work_root rc) python))
    \<Longrightarrow> steps R (security_phases env rc twin)"
  unfolding security_phases_def by (intro step_intros)

lemma steps_seal [step_intros]: "steps R (seal_phase env rc r campaign f)"
  unfolding seal_phase_def Let_def by (intro step_intros)

lemma steps_conclude [step_intros]: "steps R (conclude_phase env rc r)"
  unfolding conclude_phase_def regression_events_def final_events_def Let_def by (intro step_intros)

lemma steps_mismatch [step_intros]: "steps R (mismatch_phase env rc reason)"
  unfolding mismatch_phase_def Let_def by (intro step_intros)

end

subsection \<open>Whole runs\<close>

text \<open>The containers and the directories of a run are those of its manifest, its engine and its arguments.\<close>

lemma open_run_fixed:
  assumes "run_state (open_run env mh eng spec target_root work_root manifest) s = (Inr rc, s')"
  shows "rc_contained rc = (am_require_containment manifest \<and> \<not> eg_waive_containment eng) \<and> rc_work_root rc = work_root
    \<and> rc_target_root rc = target_root \<and> rc_spec rc = bind_accepted_claim spec (rc_claim rc)"
  by (rule resultsD[OF _ assms], unfold open_run_def Let_def, intro result_intros) auto

text \<open>A run starts with an empty ledger, whatever it was before.\<close>

locale whole_run_preorder = run_preorder R env may_run may_contain
  for R :: "drun \<Rightarrow> drun \<Rightarrow> bool" and env :: declared_env and may_run :: "host_cmd \<Rightarrow> bool" and may_contain :: bool +
  assumes step_reset: "R s (s\<lparr>ds_ledger := ledger_new\<rparr>)"
begin

lemma steps_open [step_intros]: "steps R (open_run env mh eng spec target_root work_root manifest)"
  unfolding open_run_def Let_def by (intro step_intros step_reset)

lemma steps_run:
  "arm_allowed may_run may_contain (am_require_containment manifest \<and> \<not> eg_waive_containment eng)
    \<Longrightarrow> (\<And>python. may_run (regression_of work_root python))
    \<Longrightarrow> steps R (run_declared_campaign env mh eng spec target_root work_root manifest)"
  unfolding run_declared_campaign_def
proof (rule steps_try_bind_Inr[OF steps_open])
  fix s s' rc
  assume "arm_allowed may_run may_contain (am_require_containment manifest \<and> \<not> eg_waive_containment eng)"
    "\<And>python. may_run (regression_of work_root python)"
    "run_state (open_run env mh eng spec target_root work_root manifest) s = (Inr rc, s')"
  then have "arm_allowed may_run may_contain (rc_contained rc)" "\<And>python. may_run (regression_of (rc_work_root rc) python)"
    using open_run_fixed[of env mh eng spec target_root work_root manifest s rc s'] by auto
  then show "steps R (do {
       file \<leftarrow> observe (dn_text env);
       (case environment_mismatch (dn_cfg env) (file (path_join target_root ''rust-toolchain.toml'')) (rc_contained rc) of
          Some reason \<Rightarrow> mismatch_phase env rc reason
        | None \<Rightarrow> try_bind (security_phases env rc (eg_twin_root eng)) (\<lambda>r. conclude_phase env rc r))
     })"
    by (intro step_intros)
qed

end

end
