(* ===== verification/Declared_Run.thy ===== *)
theory Declared_Run
  imports Run_Rules
begin

text \<open>
  What the run of a declared campaign does: which programs it starts and where, how its ledger grows, what the
  evidence level of its outcome rests on, and that the certificate it leaves behind checks.
\<close>

subsection \<open>Programs started by a run\<close>

text \<open>The container commands of one arm, issued after \<open>l\<close>: nothing of the target is started, or the generator is
  started last, on a network that was created and seen to be isolated, and everything is removed.\<close>

definition generator_segment :: "oci_host \<Rightarrow> string \<Rightarrow> podman_log \<Rightarrow> podman_log \<Rightarrow> bool" where
  "generator_segment h sid l seg \<longleftrightarrow>
     list_all quiet seg
     \<or> (\<exists>work. seg = work @ cleanup_commands (gen_container sid) (gen_network sid)
          \<and> (list_all quiet work \<or> contained_run h l (gen_network sid) work (\<lambda>_ _. True)))"

inductive contained_log :: "declared_env \<Rightarrow> podman_log \<Rightarrow> podman_log \<Rightarrow> bool" for env where
  log_refl: "contained_log env l l"
| log_arm: "contained_log env l l1 \<Longrightarrow> generator_segment (dn_oci env n) sid l1 seg \<Longrightarrow> contained_log env l (l1 @ seg)"

lemma contained_log_trans: "contained_log env l1 l2 \<Longrightarrow> contained_log env l0 l1 \<Longrightarrow> contained_log env l0 l2"
  by (induction rule: contained_log.induct) (auto intro: log_arm)

lemma contained_log_generator:
  assumes "run_state (exec_generator_ex (dn_oci env n) sid pid root args mem harness) l = (r, l')"
  shows "contained_log env l l'"
proof -
  have "\<exists>seg. l' = l @ seg \<and> generator_segment (dn_oci env n) sid l seg"
    using exec_generator_contained[OF assms] by (auto simp: generator_segment_def contained_run_def)
  then show ?thesis by (auto intro: log_arm log_refl)
qed

definition launched :: "declared_env \<Rightarrow> (host_cmd \<Rightarrow> bool) \<Rightarrow> bool \<Rightarrow> drun \<Rightarrow> drun \<Rightarrow> bool" where
  "launched env may_run may_contain s s' \<longleftrightarrow>
     (\<exists>new. ds_host s' = ds_host s @ new \<and> list_all may_run new)
     \<and> (if may_contain then contained_log env (ds_log s) (ds_log s') else ds_log s' = ds_log s)"

interpretation launches: whole_run_preorder "launched env may_run may_contain" env may_run may_contain
  for env may_run may_contain
  by unfold_locales
    (auto simp: launched_def log_refl intro: contained_log_generator contained_log_trans split: if_splits)

text \<open>A host process that runs a generator: an allowlisted program, no shell and nothing a shell would interpret.\<close>

definition safe_generator :: "host_cmd \<Rightarrow> bool" where
  "safe_generator cmd \<longleftrightarrow>
     (case hc_argv cmd of
        [] \<Rightarrow> False
      | exe # _ \<Rightarrow> to_ascii_lowercase (unwrap_or exe (file_name exe)) \<in> set generator_names
          \<and> \<not> executable_is_shell exe \<and> \<not> argv_contains_shell_metacharacters (hc_argv cmd))"

lemma generator_argv_safe: "generator_argv command = Inr args \<Longrightarrow> safe_generator (generator_cmd cwd args root bind_file)"
  by (cases args) (auto simp: generator_argv_def safe_generator_def generator_cmd_def Let_def split: if_splits)

definition run_contained :: "campaign_engine \<Rightarrow> 'net authorization_manifest \<Rightarrow> bool" where
  "run_contained eng manifest \<longleftrightarrow> am_require_containment manifest \<and> \<not> eg_waive_containment eng"


subsection \<open>The ledger of a run\<close>

definition ledger_grows :: "declared_env \<Rightarrow> drun \<Rightarrow> drun \<Rightarrow> bool" where
  "ledger_grows env s s' \<longleftrightarrow> (\<exists>new. entries (ds_ledger s') = entries (ds_ledger s) @ new)
     \<and> (ledger_reachable (ct_ledger_env (dn_cert env)) (ds_ledger s)
        \<longrightarrow> ledger_reachable (ct_ledger_env (dn_cert env)) (ds_ledger s'))"

interpretation grows: run_preorder "ledger_grows env" env "\<lambda>_. True" True
  for env
  by unfold_locales (auto simp: ledger_grows_def dest: append_event_Inr intro: reach_append)

lemma any_arm_allowed [simp]: "arm_allowed (\<lambda>_. True) True c"
  by (simp add: arm_allowed_def)

subsection \<open>The single steps at the end of a run\<close>

lemma log_ledger_Inr:
  assumes "run_state (log_ledger env event digests) s = (Inr u, s')"
  shows "\<exists>now e. append_event (ct_ledger_env (dn_cert env)) now event digests (ds_ledger s) = Inr (e, ds_ledger s')
    \<and> ds_fs s' = ds_fs s \<and> ds_db s' = ds_db s"
  using assms by (fastforce simp: log_ledger_def split: sum.splits)

lemma store_persist_ledger_Inr:
  assumes "run_state (store_persist_ledger env c) s = (Inr u, s')"
  shows "\<exists>f. persist_ledger_for (ct_ledger_env (dn_cert env)) id (ct_entry_codec (dn_cert env)) f c (ds_ledger s) (ds_db s)
      = (Inr (), ds_db s') \<and> ds_fs s' = ds_fs s \<and> ds_ledger s' = ds_ledger s"
  using assms by (auto simp: store_persist_ledger_def res_simps split: prod.splits)

lemma record_declared_graph_Inr:
  assumes "run_state (record_declared_graph env campaign spec j v i t level d claim) s = (Inr u, s')"
  shows "st_ledger_events (ds_db s') = st_ledger_events (ds_db s) \<and> ds_fs s' = ds_fs s \<and> ds_ledger s' = ds_ledger s"
  using assms
  by (auto simp: record_declared_graph_def Let_def State_Monad.update_def State_Monad.get_def State_Monad.set_def persist_graph_def
      split: prod.splits sum.splits option.splits)

lemma certificate_step_Inr:
  assumes "run_state (certificate_step env work_root spec_id o') s = (Inr path, s')"
  shows "\<exists>fault. write_certificate (dn_cert env) fault work_root spec_id o' (ds_ledger s) (ds_fs s) = (Inr path, ds_fs s')
    \<and> ds_ledger s' = ds_ledger s \<and> ds_db s' = ds_db s"
  using assms by (auto simp: certificate_step_def split: prod.splits)

lemma write_report_Inr:
  assumes "run_state (write_report env work_root spec campaign d) s = (Inr path, s')"
  shows "(\<exists>html. ds_fs s' = (ds_fs s)(path_join work_root ''evidence-report.html'' \<mapsto> html))
    \<and> ds_ledger s' = ds_ledger s \<and> ds_db s' = ds_db s"
  using assms
  by (fastforce simp: write_report_def Let_def write_file_def State_Monad.update_def State_Monad.get_def State_Monad.set_def written_def
      elim!: try_bind_Inr split: option.splits)

lemma report_not_certificate: "path_join w ''evidence-report.html'' \<noteq> path_join w CERTIFICATE_FILE"
  by (simp add: path_join_def CERTIFICATE_FILE_def starts_with_def)

lemma issued_flags_snoc:
  "issued_flags \<lparr>entries = es @ [e]\<rparr> =
     (case ev_event (le_record e) of CertificateIssued _ cont unmod \<Rightarrow> Some (cont, unmod) | _ \<Rightarrow> issued_flags \<lparr>entries = es\<rparr>)"
  by (auto simp: issued_flags_def split: research_event.split)

lemma final_events_Inr:
  assumes "run_state (final_events env rc c after) s = (Inr u, s')"
  shows "issued_flags (ds_ledger s') = Some (rc_contained rc, rc_digest rc = after)"
proof -
  from assms obtain s1 where "run_state (log_ledger env (CertificateIssued c (rc_contained rc) (rc_digest rc = after)) []) s1 = (Inr u, s')"
    unfolding final_events_def by (rule try_bind_Inr)
  then obtain now e where "append_event (ct_ledger_env (dn_cert env)) now (CertificateIssued c (rc_contained rc) (rc_digest rc = after))
      [] (ds_ledger s1) = Inr (e, ds_ledger s')"
    by (blast dest: log_ledger_Inr)
  then have "ds_ledger s' = \<lparr>entries = entries (ds_ledger s1) @ [e]\<rparr>"
    "ev_event (le_record e) = CertificateIssued c (rc_contained rc) (rc_digest rc = after)"
    by (auto dest: append_event_Inr simp: stamped_payload_def)
  then show ?thesis by (simp add: issued_flags_snoc)
qed

text \<open>A concluded run: the ledger that was persisted is the one in the state, its last flags are those of the run, and
  the certificate was written from it.\<close>

definition concluded :: "declared_env \<Rightarrow> run_context \<Rightarrow> run_result \<Rightarrow> drun \<Rightarrow> campaign_outcome \<Rightarrow> drun \<Rightarrow> bool" where
  "concluded env rc r s o' s' \<longleftrightarrow> (\<exists>campaign f fault tx db fs fs1 cpath rpath html.
     o' = final_outcome r rpath cpath (declared_outcome rc r campaign f True)
     \<and> cp_id campaign = cp_id (rc_campaign rc) \<and> cp_manifest_hash campaign = cp_manifest_hash (rc_campaign rc)
     \<and> cp_state campaign = fst (rr_verdict (rc_spec rc) r)
     \<and> fi_verified f = snd (rr_verdict (rc_spec rc) r) \<and> fi_evidence_level f = rr_level r
     \<and> ledger_grows env s s' \<and> issued_flags (ds_ledger s') = Some (rc_contained rc, rc_digest rc = ms_digest_after (rr_measured r))
     \<and> persist_ledger_for (ct_ledger_env (dn_cert env)) id (ct_entry_codec (dn_cert env)) tx (cp_id (rc_campaign rc)) (ds_ledger s') db
         = (Inr (), db\<lparr>st_ledger_events := st_ledger_events (ds_db s')\<rparr>)
     \<and> write_certificate (dn_cert env) fault (rc_work_root rc) (sp_id (rc_spec rc)) (declared_outcome rc r campaign f True)
         (ds_ledger s') fs = (Inr cpath, fs1)
     \<and> ds_fs s' = fs1(path_join (rc_work_root rc) ''evidence-report.html'' \<mapsto> html))"

lemma persist_db:
  "persist_ledger_for env show_e cd f c l db = (Inr (), db') \<Longrightarrow> db' = db\<lparr>st_ledger_events := st_ledger_events db'\<rparr>"
  by (auto simp: persist_ledger_for_def split: sum.splits option.splits)

lemma persist_verified:
  "persist_ledger_for env show_e cd f c l db = (Inr (), db') \<Longrightarrow> ledger_verify env l = Inr ()"
  by (auto simp: persist_ledger_for_def split: sum.splits option.splits)

lemma seal_phase_Inr:
  assumes "run_state (seal_phase env rc r campaign f) s2 = (Inr o', s')"
  obtains tx fault fs fs1 cpath rpath html where
    "o' = final_outcome r rpath cpath (declared_outcome rc r campaign f True)" "ds_ledger s' = ds_ledger s2"
    "persist_ledger_for (ct_ledger_env (dn_cert env)) id (ct_entry_codec (dn_cert env)) tx (cp_id campaign) (ds_ledger s2) (ds_db s2)
      = (Inr (), (ds_db s2)\<lparr>st_ledger_events := st_ledger_events (ds_db s')\<rparr>)"
    "write_certificate (dn_cert env) fault (rc_work_root rc) (sp_id (rc_spec rc)) (declared_outcome rc r campaign f True)
      (ds_ledger s2) fs = (Inr cpath, fs1)"
    "ds_fs s' = fs1(path_join (rc_work_root rc) ''evidence-report.html'' \<mapsto> html)"
proof -
  let ?ok = "is_ok (ledger_verify (ct_ledger_env (dn_cert env)) (ds_ledger s2))"
  from assms have "run_state (try_bind (store_persist_ledger env (cp_id campaign)) (\<lambda>_.
     try_bind (record_declared_graph env campaign (rc_spec rc) (overall_judgement (rr_attack r)) (fi_verified f)
                 (ms_independent (rr_measured r)) (ms_twin_holds (rr_measured r)) (rr_level r) (rc_digest rc) (rc_claim rc)) (\<lambda>_.
     try_bind (certificate_step env (rc_work_root rc) (sp_id (rc_spec rc)) (declared_outcome rc r campaign f ?ok)) (\<lambda>certificate_path.
     try_bind (write_report env (rc_work_root rc) (rc_spec rc) campaign (report_of rc r ?ok)) (\<lambda>report_path.
       lift_res (Inr (final_outcome r report_path certificate_path (declared_outcome rc r campaign f ?ok)))))))) s2 = (Inr o', s')"
    by (simp add: seal_phase_def Let_def State_Monad.get_def)
  then obtain u1 u2 s3 s4 s5 s6 cpath rpath where
    persist: "run_state (store_persist_ledger env (cp_id campaign)) s2 = (Inr u1, s3)"
    and graph: "run_state (record_declared_graph env campaign (rc_spec rc) (overall_judgement (rr_attack r)) (fi_verified f)
        (ms_independent (rr_measured r)) (ms_twin_holds (rr_measured r)) (rr_level r) (rc_digest rc) (rc_claim rc)) s3 = (Inr u2, s4)"
    and cert: "run_state (certificate_step env (rc_work_root rc) (sp_id (rc_spec rc)) (declared_outcome rc r campaign f ?ok)) s4
      = (Inr cpath, s5)"
    and report: "run_state (write_report env (rc_work_root rc) (rc_spec rc) campaign (report_of rc r ?ok)) s5 = (Inr rpath, s6)"
    and out: "o' = final_outcome r rpath cpath (declared_outcome rc r campaign f ?ok)" "s6 = s'"
    by (elim try_bind_Inr lift_InrE) (rule that; (assumption | erule sym))
  from store_persist_ledger_Inr[OF persist] obtain tx where
    tx: "persist_ledger_for (ct_ledger_env (dn_cert env)) id (ct_entry_codec (dn_cert env)) tx (cp_id campaign) (ds_ledger s2) (ds_db s2)
      = (Inr (), ds_db s3)" and s3: "ds_ledger s3 = ds_ledger s2" by blast
  from persist_verified[OF tx] have ok: "?ok = True" by simp
  note g = record_declared_graph_Inr[OF graph]
  from certificate_step_Inr[OF cert] obtain fault where c: "write_certificate (dn_cert env) fault (rc_work_root rc) (sp_id (rc_spec rc))
      (declared_outcome rc r campaign f ?ok) (ds_ledger s4) (ds_fs s4) = (Inr cpath, ds_fs s5)"
      "ds_ledger s5 = ds_ledger s4" "ds_db s5 = ds_db s4" by blast
  from write_report_Inr[OF report] obtain html where w: "ds_fs s' = (ds_fs s5)(path_join (rc_work_root rc) ''evidence-report.html'' \<mapsto> html)"
      "ds_ledger s' = ds_ledger s5" "ds_db s' = ds_db s5" using out(2) by blast
  have "ds_db s3 = (ds_db s2)\<lparr>st_ledger_events := st_ledger_events (ds_db s')\<rparr>"
    using persist_db[OF tx] g c(3) w(3) by simp
  with tx have "persist_ledger_for (ct_ledger_env (dn_cert env)) id (ct_entry_codec (dn_cert env)) tx (cp_id campaign) (ds_ledger s2)
      (ds_db s2) = (Inr (), (ds_db s2)\<lparr>st_ledger_events := st_ledger_events (ds_db s')\<rparr>)" by simp
  moreover have "ds_ledger s' = ds_ledger s2" "ds_ledger s4 = ds_ledger s2" using s3 g c(2) w(2) by simp_all
  ultimately show thesis
    using out(1) c(1) w(1) unfolding ok by (intro that[of rpath cpath tx fault "ds_fs s4" "ds_fs s5" html]) simp_all
qed

lemma conclude_phase_Inr:
  assumes run: "run_state (conclude_phase env rc r) s = (Inr o', s')"
  shows "concluded env rc r s o' s'"
proof -
  have grows: "ledger_grows env s s'"
    using stepsD[OF grows.steps_conclude run] .
  from run obtain campaign f s1 s2 u where
    seal: "run_state (seal_phase env rc r campaign f) s2 = (Inr o', s')"
    and events: "run_state (final_events env rc (cp_id campaign) (ms_digest_after (rr_measured r))) s1 = (Inr u, s2)"
    and camp: "cp_id campaign = cp_id (rc_campaign rc)" "cp_manifest_hash campaign = cp_manifest_hash (rc_campaign rc)"
      "cp_state campaign = fst (rr_verdict (rc_spec rc) r)"
    and f: "fi_verified f = snd (rr_verdict (rc_spec rc) r)" "fi_evidence_level f = rr_level r"
    unfolding conclude_phase_def Let_def
    by (elim try_bind_Inr observe_bindE) (rule that, assumption, assumption, simp_all)
  from seal show ?thesis
  proof (rule seal_phase_Inr)
    fix tx fault fs fs1 cpath rpath html
    assume a: "o' = final_outcome r rpath cpath (declared_outcome rc r campaign f True)" "ds_ledger s' = ds_ledger s2"
      "persist_ledger_for (ct_ledger_env (dn_cert env)) id (ct_entry_codec (dn_cert env)) tx (cp_id campaign) (ds_ledger s2) (ds_db s2)
        = (Inr (), (ds_db s2)\<lparr>st_ledger_events := st_ledger_events (ds_db s')\<rparr>)"
      "write_certificate (dn_cert env) fault (rc_work_root rc) (sp_id (rc_spec rc)) (declared_outcome rc r campaign f True)
        (ds_ledger s2) fs = (Inr cpath, fs1)"
      "ds_fs s' = fs1(path_join (rc_work_root rc) ''evidence-report.html'' \<mapsto> html)"
    show ?thesis
      unfolding concluded_def
      by (intro exI conjI)
        (rule a(1) camp f grows final_events_Inr[OF events, folded a(2)] a(3)[folded a(2), unfolded camp(1)]
          a(4)[folded a(2)] a(5))+
  qed
qed

end
