(* ===== verification/Declared_Evidence.thy ===== *)
theory Declared_Evidence
  imports Declared_Run
begin

text \<open>
  What the evidence of a declared campaign rests on: every judgement on an output that the ledger records, the
  reproduction on repeated runs on a replica with the digest of the target, the twin on runs of its copy, and the
  variant on runs of both and on the regression test. The last lemmas carry this to the outcome and to the
  certificate of a run.
\<close>

subsection \<open>Observed outputs\<close>

text \<open>The output of a plan was judged \<open>j\<close>, and its digest is in the ledger.\<close>

definition plan_observed ::
    "declared_env \<Rightarrow> campaign \<Rightarrow> event_ledger \<Rightarrow> string \<times> campaign_generator \<times> campaign_oracle \<Rightarrow> string \<times> oracle_judgement \<Rightarrow> bool" where
  "plan_observed env campaign l = (\<lambda>(name, g, oracle) (name', j).
     name' = name \<and> j \<noteq> OJ_Indeterminate
     \<and> (\<exists>stdout e. e \<in> set (entries l) \<and> evaluate_oracle stdout oracle = j
          \<and> ev_event (le_record e) = ObservationRecorded (cp_id campaign) (ct_blake3_hex (dn_cert env) (as_bytes stdout))
              (cp_manifest_hash campaign)))"

lemma plan_observed_mono:
  "plan_observed env campaign (ds_ledger s) p j \<Longrightarrow> ledger_grows env s s' \<Longrightarrow> plan_observed env campaign (ds_ledger s') p j"
  by (cases p; cases j) (fastforce simp: plan_observed_def ledger_grows_def)

lemma plans_observed_mono:
  "list_all2 (plan_observed env campaign (ds_ledger s)) plans js \<Longrightarrow> ledger_grows env s s'
    \<Longrightarrow> list_all2 (plan_observed env campaign (ds_ledger s')) plans js"
  by (erule list_all2_mono) (rule plan_observed_mono)

lemma cas_store_Inr:
  assumes "run_state (cas_store env c bytes media) s = (Inr a, s')"
  shows "ea_digest_blake3 a = ct_blake3_hex (dn_cert env) bytes"
  using assms by (auto simp: cas_store_def cas_put_def Let_def split: prod.splits if_splits option.splits)

lemma no_evidence_fails: "run_state (no_evidence env rc m) s \<noteq> (Inr x, s')"
  by (auto simp: no_evidence_def fail_closed_no_evidence_def Let_def split: prod.splits)

lemma log_ledger_event:
  assumes "run_state (log_ledger env event digests) s = (Inr u, s')"
  shows "\<exists>e \<in> set (entries (ds_ledger s')). ev_event (le_record e) = event \<and> le_artifact_digests e = digests"
proof -
  from log_ledger_Inr[OF assms] obtain now e where
    e: "append_event (ct_ledger_env (dn_cert env)) now event digests (ds_ledger s) = Inr (e, ds_ledger s')" by blast
  from append_event_Inr(1,3,4)[OF e] show ?thesis by (auto simp: stamped_payload_def)
qed

lemma attack_step_Inr:
  assumes "run_state (attack_step env rc acc (name, g, oracle)) s = (Inr acc', s')"
  shows "\<exists>j. at_judgements acc' = at_judgements acc @ [(name, j)]
    \<and> plan_observed env (rc_campaign rc) (ds_ledger s') (name, g, oracle) (name, j)
    \<and> at_any_success acc' = (at_any_success acc \<or> j = OJ_AttackSucceeded)
    \<and> at_all_hold acc' = (at_all_hold acc \<and> j \<noteq> OJ_AttackSucceeded)"
proof -
  from assms obtain stdout artifact s1 s2 u s3 where
    art: "run_state (cas_store env (rc_cas rc) (as_bytes stdout) ''text/plain'') s1 = (Inr artifact, s2)"
    and ev: "run_state (log_ledger env (ObservationRecorded (cp_id (rc_campaign rc)) (ea_digest_blake3 artifact)
        (cp_manifest_hash (rc_campaign rc))) [ea_digest_blake3 artifact]) s2 = (Inr u, s3)"
    and j: "run_state (case evaluate_oracle stdout oracle of
            OJ_Indeterminate \<Rightarrow>
              no_evidence env rc (''campaign '' @ sp_id (rc_spec rc) @ '' surface '' @ name @ '' oracle is indeterminate'')
          | OJ_AttackSucceeded \<Rightarrow> lift_res (Inr (acc\<lparr>at_results := at_results acc @ [name @ '':'' @ judgement_debug (evaluate_oracle stdout oracle)],
                          at_judgements := at_judgements acc @ [(name, evaluate_oracle stdout oracle)],
                          at_shrink := (case parse_shrink stdout of Some p \<Rightarrow> Some p | None \<Rightarrow> at_shrink acc),
                          at_any_success := True, at_all_hold := False\<rparr>))
          | OJ_InvariantHolds \<Rightarrow> lift_res (Inr (acc\<lparr>at_results := at_results acc @ [name @ '':'' @ judgement_debug (evaluate_oracle stdout oracle)],
                          at_judgements := at_judgements acc @ [(name, evaluate_oracle stdout oracle)],
                          at_shrink := (case parse_shrink stdout of Some p \<Rightarrow> Some p | None \<Rightarrow> at_shrink acc)\<rparr>))) s3 = (Inr acc', s')"
    unfolding attack_step_def Let_def prod.case
    by (elim observe_bindE) (auto simp: no_evidence_fails elim!: try_bind_Inr split: option.splits)
  have s': "s' = s3" "evaluate_oracle stdout oracle \<noteq> OJ_Indeterminate"
    using j by (auto simp: no_evidence_fails split: oracle_judgement.splits)
  have "plan_observed env (rc_campaign rc) (ds_ledger s') (name, g, oracle) (name, evaluate_oracle stdout oracle)"
    using log_ledger_event[OF ev] cas_store_Inr[OF art] s' by (auto simp: plan_observed_def)
  then show ?thesis
    using j by (cases "evaluate_oracle stdout oracle") (auto simp: no_evidence_fails)
qed

lemma attack_fold_Inr:
  assumes "run_state (try_fold (attack_step env rc) acc plans) s = (Inr a, s')"
  shows "\<exists>js. at_judgements a = at_judgements acc @ js
    \<and> list_all2 (plan_observed env (rc_campaign rc) (ds_ledger s')) plans js
    \<and> at_any_success a = (at_any_success acc \<or> OJ_AttackSucceeded \<in> snd ` set js)
    \<and> at_all_hold a = (at_all_hold acc \<and> OJ_AttackSucceeded \<notin> snd ` set js)"
  using assms
proof (induction plans arbitrary: acc s)
  case (Cons p plans)
  obtain name g orc where p: "p = (name, g, orc)" by (cases p)
  from Cons.prems obtain acc1 s1 where step: "run_state (attack_step env rc acc p) s = (Inr acc1, s1)"
    and rest: "run_state (try_fold (attack_step env rc) acc1 plans) s1 = (Inr a, s')"
    by (auto elim: try_bind_Inr)
  from attack_step_Inr[OF step[unfolded p]] obtain j where
    j: "at_judgements acc1 = at_judgements acc @ [(name, j)]"
      "plan_observed env (rc_campaign rc) (ds_ledger s1) p (name, j)"
      "at_any_success acc1 = (at_any_success acc \<or> j = OJ_AttackSucceeded)"
      "at_all_hold acc1 = (at_all_hold acc \<and> j \<noteq> OJ_AttackSucceeded)" using p by blast
  have "steps (ledger_grows env) (try_fold (attack_step env rc) acc1 plans)"
    by (intro grows.steps_try_fold grows.steps_attack_step) simp
  from plan_observed_mono[OF j(2) stepsD[OF this rest]]
  have "plan_observed env (rc_campaign rc) (ds_ledger s') p (name, j)" .
  with Cons.IH[OF rest] j(1,3,4) show ?case
    by (elim exE, intro exI[of _ "(name, j) # _"]) auto
qed simp

subsection \<open>Repeated runs\<close>

text \<open>An arm was run on \<open>root\<close> and printed \<open>stdout\<close>; a snapshot of \<open>root\<close> had the digest \<open>d\<close>.\<close>

definition arm_printed ::
    "declared_env \<Rightarrow> string \<Rightarrow> string \<Rightarrow> campaign_generator \<Rightarrow> u32 \<Rightarrow> bool \<Rightarrow> string \<Rightarrow> bool" where
  "arm_printed env root work g mem c stdout \<longleftrightarrow> (\<exists>s s'. run_state (run_arm env root work g mem c) s = (Inr stdout, s'))"

definition digest_seen :: "declared_env \<Rightarrow> target_id \<Rightarrow> string \<Rightarrow> string \<Rightarrow> bool" where
  "digest_seen env tid root d \<longleftrightarrow> (\<exists>s snap s'. run_state (take_snapshot env tid root) s = (Inr snap, s') \<and> ts_source_tree_digest snap = d)"

lemma still_has_digest_True: "run_state (still_has_digest env tid root d) s = (True, s') \<Longrightarrow> digest_seen env tid root d"
  by (force simp: still_has_digest_def digest_seen_def split: prod.splits sum.splits)

lemma find_member: "find P xs = Some x \<Longrightarrow> x \<in> set xs \<and> P x"
  by (induction xs) (auto split: if_splits)

lemma replay_plans_True:
  assumes "run_state (replay_plans env replica work mem c expected plans) s = (True, s')"
  shows "list_all (\<lambda>(name, g, oracle). \<exists>stdout. arm_printed env replica work g mem c stdout
    \<and> (name, evaluate_oracle stdout oracle) \<in> set expected) plans"
  using assms
proof (induction plans arbitrary: s)
  case (Cons p plans)
  obtain name g orc where p: "p = (name, g, orc)" by (cases p)
  from Cons.prems p obtain stdout s1 item where arm: "run_state (run_arm env replica work g mem c) s = (Inr stdout, s1)"
    and f: "find (\<lambda>(item, _). item = name) expected = Some (item, evaluate_oracle stdout orc)"
    and rest: "run_state (replay_plans env replica work mem c expected plans) s1 = (True, s')"
    by (auto split: prod.splits sum.splits option.splits if_splits)
  from find_member[OF f] have "(name, evaluate_oracle stdout orc) \<in> set expected" by auto
  with arm Cons.IH[OF rest] p show ?case by (auto simp: arm_printed_def)
qed simp

lemma twin_plans_True:
  assumes "run_state (twin_plans env replica work mem c plans) s = (True, s')"
  shows "list_all (\<lambda>(name, g, oracle). \<exists>stdout. arm_printed env replica work g mem c stdout
    \<and> evaluate_oracle stdout oracle = OJ_InvariantHolds) plans"
  using assms
proof (induction plans arbitrary: s)
  case (Cons p plans)
  obtain name g orc where p: "p = (name, g, orc)" by (cases p)
  from Cons.prems p obtain stdout s1 where "run_state (run_arm env replica work g mem c) s = (Inr stdout, s1)"
    "evaluate_oracle stdout orc = OJ_InvariantHolds" "run_state (twin_plans env replica work mem c plans) s1 = (True, s')"
    by (auto split: prod.splits sum.splits if_splits)
  with Cons.IH p show ?case by (auto simp: arm_printed_def)
qed simp

text \<open>The replica had the digest of the target and every plan came out on it as before; the target kept its digest.\<close>

definition replica_confirms ::
    "declared_env \<Rightarrow> campaign_spec \<Rightarrow> string \<Rightarrow> string \<Rightarrow> target_id \<Rightarrow> bool \<Rightarrow> string \<Rightarrow> (string \<times> oracle_judgement) list \<Rightarrow> bool" where
  "replica_confirms env spec target_root work_root tid c d js \<longleftrightarrow>
     digest_seen env tid (path_join work_root ''e4-replica'') d \<and> digest_seen env tid target_root d
     \<and> list_all (\<lambda>(name, g, oracle). \<exists>stdout.
          arm_printed env (path_join work_root ''e4-replica'') (path_join work_root ''e4-work'') g
            (rl_memory_mb (sp_resource_limits spec)) c stdout
          \<and> (name, evaluate_oracle stdout oracle) \<in> set js) (attack_plans spec)"

text \<open>On the copy of the twin the invariant held for every plan, and the twin kept its digest.\<close>

definition twin_confirms ::
    "declared_env \<Rightarrow> campaign_spec \<Rightarrow> string option \<Rightarrow> string \<Rightarrow> target_id \<Rightarrow> bool \<Rightarrow> bool" where
  "twin_confirms env spec twin work_root tid c \<longleftrightarrow>
     (\<exists>root d. twin = Some root \<and> digest_seen env tid root d)
     \<and> list_all (\<lambda>(name, g, oracle). \<exists>stdout.
          arm_printed env (path_join work_root ''e6-twin'') (path_join work_root ''e6-twin-work'') g
            (rl_memory_mb (sp_resource_limits spec)) c stdout
          \<and> evaluate_oracle stdout oracle = OJ_InvariantHolds) (attack_plans spec)"

text \<open>A derived variant of the attack succeeded on the replica and not on the twin, and the regression test passed.\<close>

definition variant_confirms :: "declared_env \<Rightarrow> campaign_spec \<Rightarrow> string \<Rightarrow> bool \<Rightarrow> bool" where
  "variant_confirms env spec work_root c \<longleftrightarrow>
     (\<exists>b \<in> set (derive_variant_binds (cg_bind (sp_generator spec))). \<exists>out1 out2.
        arm_printed env (path_join work_root ''e4-replica'') (path_join work_root ''e7-variant-original'')
          ((sp_generator spec)\<lparr>cg_bind := b\<rparr>) (rl_memory_mb (sp_resource_limits spec)) c out1
        \<and> evaluate_oracle out1 (sp_oracle spec) = OJ_AttackSucceeded
        \<and> arm_printed env (path_join work_root ''e6-twin'') (path_join work_root ''e7-variant-twin'')
            ((sp_generator spec)\<lparr>cg_bind := b\<rparr>) (rl_memory_mb (sp_resource_limits spec)) c out2
        \<and> evaluate_oracle out2 (sp_oracle spec) = OJ_InvariantHolds)
     \<and> (\<exists>n python out. hw_output (dn_host env n (regression_of work_root python)) = Inr (Some 0, out))"

lemma independently_reproduce_True:
  assumes "run_state (independently_reproduce env spec target_root work_root d tid mem c js) s = (True, s')"
    and "mem = rl_memory_mb (sp_resource_limits spec)"
  shows "replica_confirms env spec target_root work_root tid c d js"
  using assms unfolding independently_reproduce_def Let_def
  by (auto simp: replica_confirms_def dest: still_has_digest_True replay_plans_True split: prod.splits sum.splits if_splits)

lemma twin_invariant_holds_True:
  assumes "run_state (twin_invariant_holds env spec twin work_root tid mem c) s = (True, s')"
    and "mem = rl_memory_mb (sp_resource_limits spec)"
  shows "twin_confirms env spec (Some twin) work_root tid c"
  using assms unfolding twin_invariant_holds_def
  by (auto simp: twin_confirms_def dest: still_has_digest_True twin_plans_True split: prod.splits sum.splits if_splits)

lemma holding_variant_Some:
  assumes "run_state (holding_variant env spec replica twin work_root mem c binds) s = (Some g, s')"
  shows "\<exists>b \<in> set binds. \<exists>out1 out2. g = (sp_generator spec)\<lparr>cg_bind := b\<rparr>
    \<and> arm_printed env replica (path_join work_root ''e7-variant-original'') g mem c out1
    \<and> evaluate_oracle out1 (sp_oracle spec) = OJ_AttackSucceeded
    \<and> arm_printed env twin (path_join work_root ''e7-variant-twin'') g mem c out2
    \<and> evaluate_oracle out2 (sp_oracle spec) = OJ_InvariantHolds"
  using assms
proof (induction binds arbitrary: s)
  case (Cons b binds)
  let ?g = "(sp_generator spec)\<lparr>cg_bind := b\<rparr>"
  obtain r1 s1 where r1: "run_state (run_arm env replica (path_join work_root ''e7-variant-original'') ?g mem c) s = (r1, s1)"
    by fastforce
  obtain r2 s2 where r2: "run_state (run_arm env twin (path_join work_root ''e7-variant-twin'') ?g mem c) s1 = (r2, s2)"
    by fastforce
  show ?case
  proof (cases "\<exists>out1 out2. r1 = Inr out1 \<and> evaluate_oracle out1 (sp_oracle spec) = OJ_AttackSucceeded
      \<and> r2 = Inr out2 \<and> evaluate_oracle out2 (sp_oracle spec) = OJ_InvariantHolds")
    case True
    with Cons.prems r1 r2 have "g = ?g" by (auto simp: Let_def)
    with True r1 r2 show ?thesis unfolding arm_printed_def by (intro bexI[of _ b]) (blast, simp)
  next
    case False
    then have "run_state (holding_variant env spec replica twin work_root mem c binds) s1 = (Some g, s')
        \<or> run_state (holding_variant env spec replica twin work_root mem c binds) s2 = (Some g, s')"
      using Cons.prems r1 r2 by (auto simp: Let_def split: sum.splits if_splits)
    with Cons.IH show ?thesis by auto
  qed
qed simp

lemma regression_run_Inr:
  assumes "run_state (regression_run env c work_root b v) s = (Inr p, s')"
  shows "\<exists>n python out. hw_output (dn_host env n (regression_of work_root python)) = Inr (Some 0, out)"
  using assms unfolding regression_run_def Let_def regression_of_def
  by (fastforce simp: start_host_def no_proof_def State_Monad.update_def State_Monad.get_def State_Monad.set_def
      elim!: try_bind_Inr split: option.splits if_splits sum.splits prod.splits)

lemma try_declared_e7_Some:
  assumes "run_state (try_declared_e7 env spec work_root cas mem c) s = (Some p, s')"
    and "mem = rl_memory_mb (sp_resource_limits spec)"
  shows "variant_confirms env spec work_root c"
proof -
  from assms(1) obtain g s1 s2 s3 where
    v: "run_state (find_holding_variant env spec (path_join work_root ''e4-replica'') (path_join work_root ''e6-twin'') work_root mem c) s1
      = (Some g, s2)"
    and r: "run_state (regression_run env cas work_root (cg_bind (sp_generator spec)) (cg_bind g)) s2 = (Inr p, s3)"
    unfolding try_declared_e7_def Let_def
    by (auto simp: res_simps split: prod.splits option.splits if_splits)
  from holding_variant_Some[OF v[unfolded find_holding_variant_def]] regression_run_Inr[OF r] assms(2)
  show ?thesis unfolding variant_confirms_def by blast
qed

text \<open>What the measurements of a run rest on.\<close>

definition measured :: "declared_env \<Rightarrow> run_context \<Rightarrow> string option \<Rightarrow> attack_state \<Rightarrow> measurement \<Rightarrow> bool" where
  "measured env rc twin a m \<longleftrightarrow>
     (ms_independent m \<longrightarrow> replica_confirms env (rc_spec rc) (rc_target_root rc) (rc_work_root rc) (rc_target_id rc)
        (rc_contained rc) (rc_digest rc) (at_judgements a))
     \<and> (ms_twin_holds m \<longrightarrow> overall_judgement a = OJ_AttackSucceeded
          \<and> twin_confirms env (rc_spec rc) twin (rc_work_root rc) (rc_target_id rc) (rc_contained rc))
     \<and> (ms_e7 m \<noteq> None \<longrightarrow> ms_twin_holds m \<and> ms_independent m \<and> ms_digest_after m = rc_digest rc
          \<and> variant_confirms env (rc_spec rc) (rc_work_root rc) (rc_contained rc))"

lemma reproduce_phase_True:
  assumes "run_state (reproduce_phase env rc a after) s = (True, s')"
  shows "replica_confirms env (rc_spec rc) (rc_target_root rc) (rc_work_root rc) (rc_target_id rc)
        (rc_contained rc) (rc_digest rc) (at_judgements a)"
  using assms independently_reproduce_True
  by (auto simp: reproduce_phase_def split: if_splits)

lemma twin_phase_True:
  assumes "run_state (twin_phase env rc twin a) s = (True, s')"
  shows "overall_judgement a = OJ_AttackSucceeded
    \<and> twin_confirms env (rc_spec rc) twin (rc_work_root rc) (rc_target_id rc) (rc_contained rc)"
  using assms
  by (auto simp: twin_phase_def dest: twin_invariant_holds_True split: if_splits option.splits prod.splits)

lemma measure_phase_Inr:
  assumes "run_state (measure_phase env rc twin a after) s = (Inr m, s')"
  shows "measured env rc twin a m"
proof -
  let ?e7 = "\<lambda>t i. if t \<and> i then try_declared_e7 env (rc_spec rc) (rc_work_root rc) (rc_cas rc)
      (rl_memory_mb (sp_resource_limits (rc_spec rc))) (rc_contained rc) else State_Monad.return None"
  from assms obtain i s1 t s2 e s3 d where i: "run_state (reproduce_phase env rc a after) s = (i, s1)"
    and t: "run_state (twin_phase env rc twin a) s1 = (t, s2)"
    and e: "run_state (?e7 t i) s2 = (e, s3)"
    and m: "m = \<lparr>ms_independent = i, ms_twin_holds = t, ms_e7 = (if d \<noteq> rc_digest rc then None else e), ms_digest_after = d\<rparr>"
    unfolding measure_phase_def by (auto elim!: try_bind_Inr split: prod.splits)
  have "e = Some p \<Longrightarrow> t \<and> i \<and> variant_confirms env (rc_spec rc) (rc_work_root rc) (rc_contained rc)" for p
    using e by (auto dest: try_declared_e7_Some split: if_splits)
  with m i t show ?thesis
    by (auto simp: measured_def dest: reproduce_phase_True twin_phase_True split: if_splits)
qed

subsection \<open>Phases before the verdict\<close>

text \<open>A digest is among the artifacts of the ledger.\<close>

definition digest_logged :: "event_ledger \<Rightarrow> string \<Rightarrow> bool" where
  "digest_logged l d \<longleftrightarrow> list_ex (\<lambda>e. d \<in> set (le_artifact_digests e)) (entries l)"

lemma digest_logged_mono: "digest_logged (ds_ledger s) d \<Longrightarrow> ledger_grows env s s' \<Longrightarrow> digest_logged (ds_ledger s') d"
  by (auto simp: digest_logged_def ledger_grows_def)

lemma log_ledger_logged:
  assumes "run_state (log_ledger env event digests) s = (Inr u, s')" "d \<in> set digests"
  shows "digest_logged (ds_ledger s') d"
  using log_ledger_event[OF assms(1)] assms(2) by (auto simp: digest_logged_def list_ex_iff)

lemma evidence_event_logged: "run_state (evidence_event env c d) s = (Inr u, s') \<Longrightarrow> digest_logged (ds_ledger s') d"
  unfolding evidence_event_def by (erule log_ledger_logged) simp

lemma archive_harnesses_Inr:
  assumes "run_state (archive_harnesses env root spec c cid) s = (Inr (Some d), s')"
  shows "digest_logged (ds_ledger s') d"
  using assms unfolding archive_harnesses_def
  by (auto elim!: try_bind_Inr split: if_splits) (erule evidence_event_logged)

lemma minimize_phase_Inr:
  assumes "run_state (minimize_phase env rc a) s = (Inr (Some d), s')"
  shows "digest_logged (ds_ledger s') d \<and> overall_judgement a = OJ_AttackSucceeded
    \<and> (\<exists>proof' bytes. at_shrink a = Some proof' \<and> shrink_bytes_of proof' = Some bytes \<and> d = ct_blake3_hex (dn_cert env) bytes)"
proof -
  from assms obtain bytes artifact s1 u s2 v s3 where
    b: "(if overall_judgement a = OJ_AttackSucceeded then Option.bind (at_shrink a) shrink_bytes_of else None) = Some bytes"
    and art: "run_state (cas_store env (rc_cas rc) bytes ''application/octet-stream'') s = (Inr artifact, s1)"
    and ev: "run_state (evidence_event env (cp_id (rc_campaign rc)) (ea_digest_blake3 artifact)) s1 = (Inr u, s2)"
    and w: "run_state (write_file env (path_join (rc_work_root rc) ''minimized.bin'') bytes) s2 = (Inr v, s')"
    and d: "d = ea_digest_blake3 artifact"
    unfolding minimize_phase_def by (auto elim!: try_bind_Inr split: option.splits)
  have "digest_logged (ds_ledger s2) d"
    using evidence_event_logged[OF ev] d by simp
  from digest_logged_mono[OF this stepsD[OF grows.steps_write_file w]] b d cas_store_Inr[OF art]
  show ?thesis by (auto simp: bind_eq_Some_conv split: if_splits)
qed

text \<open>What is known of a run when it comes to its verdict.\<close>

definition gathered :: "declared_env \<Rightarrow> run_context \<Rightarrow> string option \<Rightarrow> run_result \<Rightarrow> event_ledger \<Rightarrow> bool" where
  "gathered env rc twin r l \<longleftrightarrow>
     pred_option (digest_logged l) (rr_harness_digest r)
     \<and> list_all2 (plan_observed env (rc_campaign rc) l) (attack_plans (rc_spec rc)) (at_judgements (rr_attack r))
     \<and> overall_judgement (rr_attack r) = (if OJ_AttackSucceeded \<in> snd ` set (at_judgements (rr_attack r))
          then OJ_AttackSucceeded else OJ_InvariantHolds)
     \<and> pred_option (\<lambda>d. digest_logged l d \<and> overall_judgement (rr_attack r) = OJ_AttackSucceeded) (rr_minimized r)
     \<and> measured env rc twin (rr_attack r) (rr_measured r)"

lemma gathered_mono: "gathered env rc twin r (ds_ledger s) \<Longrightarrow> ledger_grows env s s' \<Longrightarrow> gathered env rc twin r (ds_ledger s')"
  by (auto simp: gathered_def elim!: option.pred_mono_strong intro: digest_logged_mono plans_observed_mono)

lemma security_phases_Inr:
  assumes "run_state (security_phases env rc twin) s = (Inr r, s')"
  shows "gathered env rc twin r (ds_ledger s')"
proof -
  from assms obtain hd s1 controls s2 a s3 snap s4 mini s5 m s6 where
    h: "run_state (archive_harnesses env (rc_target_root rc) (rc_spec rc) (rc_cas rc) (cp_id (rc_campaign rc))) s = (Inr hd, s1)"
    and c: "run_state (control_phase env rc) s1 = (Inr controls, s2)"
    and a: "run_state (attack_phase env rc) s2 = (Inr a, s3)"
    and sn: "run_state (take_snapshot env (rc_target_id rc) (rc_target_root rc)) s3 = (Inr snap, s4)"
    and mi: "run_state (minimize_phase env rc a) s4 = (Inr mini, s5)"
    and m: "run_state (measure_phase env rc twin a (ts_source_tree_digest snap)) s5 = (Inr m, s6)"
    and r: "r = \<lparr>rr_harness_digest = hd, rr_controls = controls, rr_attack = a, rr_minimized = mini, rr_measured = m\<rparr>" "s6 = s'"
    unfolding security_phases_def by (elim try_bind_Inr lift_InrE) (rule that; (assumption | erule sym))
  have grow: "ledger_grows env s1 s2" "ledger_grows env s2 s3" "ledger_grows env s3 s4" "ledger_grows env s4 s5"
    and g5: "ledger_grows env s5 s'"
    using stepsD[OF grows.steps_control c] stepsD[OF grows.steps_attack a] stepsD[OF grows.steps_take_snapshot sn]
      stepsD[OF grows.steps_minimize mi] stepsD[OF grows.steps_measure m] r(2) by simp_all
  have g3: "ledger_grows env s3 s'"
    by (rule grows.step_trans[OF grow(3) grows.step_trans[OF grow(4) g5]])
  have g1: "ledger_grows env s1 s'"
    by (rule grows.step_trans[OF grow(1) grows.step_trans[OF grow(2) g3]])
  from attack_fold_Inr[OF a[unfolded attack_phase_def]] obtain js where
    js: "at_judgements a = js" "list_all2 (plan_observed env (rc_campaign rc) (ds_ledger s3)) (attack_plans (rc_spec rc)) js"
      "at_any_success a = (OJ_AttackSucceeded \<in> snd ` set js)" "at_all_hold a = (OJ_AttackSucceeded \<notin> snd ` set js)"
    by (auto simp: attack_start_def)
  have "pred_option (digest_logged (ds_ledger s')) hd"
    using archive_harnesses_Inr[of env "rc_target_root rc" "rc_spec rc" "rc_cas rc" "cp_id (rc_campaign rc)" s _ s1] h
      digest_logged_mono[OF _ g1] by (cases hd) auto
  moreover have "pred_option (\<lambda>d. digest_logged (ds_ledger s') d \<and> overall_judgement a = OJ_AttackSucceeded) mini"
    using minimize_phase_Inr[of env rc a s4 _ s5] mi digest_logged_mono[OF _ g5] by (cases mini) auto
  ultimately show ?thesis
    using measure_phase_Inr[OF m] js plans_observed_mono[OF js(2) g3]
    by (simp add: gathered_def r(1) overall_judgement_def)
qed

lemma mismatch_no_finding: "results (\<lambda>o'. oc_finding o' = None) (mismatch_phase env rc reason)"
  unfolding mismatch_phase_def Let_def by (intro result_intros) auto

text \<open>A run that returned a finding.\<close>

lemma run_declared_Inr:
  assumes "run_state (run_declared_campaign env mh eng spec target_root work_root manifest) s = (Inr o', s')"
    and "oc_finding o' \<noteq> None"
  obtains rc r s2 where "rc_contained rc = run_contained eng manifest" "rc_work_root rc = work_root" "rc_target_root rc = target_root"
    "rc_spec rc = bind_accepted_claim spec (rc_claim rc)"
    "gathered env rc (eg_twin_root eng) r (ds_ledger s')" "concluded env rc r s2 o' s'"
proof -
  from assms(1) obtain rc s1 where open': "run_state (open_run env mh eng spec target_root work_root manifest) s = (Inr rc, s1)"
    and rest: "run_state (case environment_mismatch (dn_cfg env) (dn_text env (ds_tick s1) (path_join target_root ''rust-toolchain.toml''))
          (rc_contained rc) of
          Some reason \<Rightarrow> mismatch_phase env rc reason
        | None \<Rightarrow> try_bind (security_phases env rc (eg_twin_root eng)) (\<lambda>r. conclude_phase env rc r)) (s1\<lparr>ds_tick := Suc (ds_tick s1)\<rparr>)
      = (Inr o', s')"
    unfolding run_declared_campaign_def by (elim try_bind_Inr observe_bindE) (rule that, assumption, simp)
  from rest assms(2) have "run_state (try_bind (security_phases env rc (eg_twin_root eng)) (\<lambda>r. conclude_phase env rc r))
      (s1\<lparr>ds_tick := Suc (ds_tick s1)\<rparr>) = (Inr o', s')"
    using resultsD[OF mismatch_no_finding] by (auto split: option.splits)
  then obtain r s2 where r: "run_state (security_phases env rc (eg_twin_root eng)) (s1\<lparr>ds_tick := Suc (ds_tick s1)\<rparr>) = (Inr r, s2)"
    and c: "run_state (conclude_phase env rc r) s2 = (Inr o', s')"
    by (rule try_bind_Inr)
  from gathered_mono[OF security_phases_Inr[OF r] stepsD[OF grows.steps_conclude c]] conclude_phase_Inr[OF c]
    open_run_fixed[OF open'] show thesis
    by (intro that) (simp_all add: run_contained_def)
qed

subsection \<open>The persisted graph\<close>

lemma find_index_iff: "find_index g i = None \<longleftrightarrow> i \<notin> gn_id ` set (ag_nodes g)"
  by (auto simp: find_index_def find_None_iff set_conv_nth)

lemma add_node_sel [simp]: "ag_nodes (add_node n g) = ag_nodes g @ [n]" "ag_edges (add_node n g) = ag_edges g"
  by (simp_all add: add_node_def)

lemma add_edge_sel [simp]: "ag_nodes (add_edge e g) = ag_nodes g"
  "ag_edges (add_edge e g) = (if ge_from e \<in> gn_id ` set (ag_nodes g) \<and> ge_to e \<in> gn_id ` set (ag_nodes g)
     then ag_edges g @ [e] else ag_edges g)"
  using find_index_iff by (auto simp: add_edge_def)

lemma graph_new_sel [simp]: "ag_nodes (graph_new c) = []" "ag_edges (graph_new c) = []"
  by (simp_all add: graph_new_def)

lemma declared_item_sel [simp]:
  "gn_id (declared_node campaign spec level d now i kind label e) = i"
  "gn_kind (declared_node campaign spec level d now i kind label e) = kind"
  "gn_epistemic (declared_node campaign spec level d now i kind label e) = e"
  "gn_graph (declared_node campaign spec level d now i kind label e) = GK_Research"
  "gn_id (claim_node campaign spec d now i c) = i" "gn_kind (claim_node campaign spec d now i c) = ''assumption''"
  "ge_id (declared_link campaign now u a b lk e) = EdgeId u" "ge_from (declared_link campaign now u a b lk e) = a"
  "ge_to (declared_link campaign now u a b lk e) = b"
  by (simp_all add: declared_node_def claim_node_def declared_link_def)

text \<open>The identifiers of the nodes and edges of the graph of a run: no edge is dropped.\<close>

lemma declared_graph_node_ids:
  "map gn_id (ag_nodes (declared_graph ids now campaign spec j v indep twin level d claim)) =
     map (\<lambda>k. NodeId (ids k)) ([0] @ (if claim = None then [] else [4]) @ [1, 2, 3] @ (if indep then [9] else []) @ (if twin then [11] else []))"
  by (simp add: declared_graph_def twin_part_def replica_part_def core_part_def claim_part_def Let_def split: option.split prod.split)

lemma declared_graph_edge_ids:
  "map ge_id (ag_edges (declared_graph ids now campaign spec j v indep twin level d claim)) =
     map (\<lambda>k. EdgeId (ids k)) ((if claim = None then [] else [5]) @ [6, 7, 8] @ (if indep then [10] else []) @ (if twin then [12] else []))"
  by (cases claim; cases indep; cases twin; cases "conclusion_of j v")
    (simp_all add: declared_graph_def twin_part_def replica_part_def core_part_def claim_part_def Let_def)

text \<open>The graph has a verified finding exactly when the finding of the run is verified.\<close>

lemma declared_graph_finding:
  "has_verified_finding (declared_graph ids now campaign spec j v indep twin level d claim) \<longleftrightarrow> v \<and> j = OJ_AttackSucceeded"
  by (cases claim; cases j)
    (simp_all add: declared_graph_def twin_part_def replica_part_def core_part_def claim_part_def Let_def has_verified_finding_def conclusion_of_def)

lemma insert_payloads_ok:
  assumes "\<And>x. codec_to_string cd x = Inr (p x)" "distinct (map key xs)" "key ` set xs \<inter> fst ` set rows = {}"
  shows "\<exists>rows'. res_fold (insert_payload key cd c) rows xs = Inr rows'"
  using assms(2,3)
proof (induction xs arbitrary: rows)
  case (Cons x xs)
  have "insert_payload key cd c rows x = Inr (rows @ [(key x, c, p x)])"
    using Cons.prems by (simp add: insert_payload_def insert_row_def assms(1))
  with Cons.IH[of "rows @ [(key x, c, p x)]"] Cons.prems show ?case by auto
qed simp

subsection \<open>The level of a certificate\<close>

lemma claims_match_level_debug:
  assumes "claims_match_level (level_debug level) independent twin variant regression"
  shows "(twin \<longrightarrow> independent) \<and> (variant \<longrightarrow> twin \<and> level = E7VariantReattackAndRegression)"
  using assms by (cases level) (simp_all add: claims_match_level_def starts_with_def)

lemma raw_level_cases:
  "E3InvariantViolation \<le> raw_level j mini m \<longleftrightarrow> j = OJ_AttackSucceeded"
  "raw_level j mini m = E7VariantReattackAndRegression \<longleftrightarrow> j = OJ_AttackSucceeded \<and> ms_e7 m \<noteq> None"
  "raw_level j mini m = E6CounterfactualDifferential \<Longrightarrow> ms_twin_holds m \<and> ms_independent m"
  "raw_level j mini m = E5MinimizedReproduction \<Longrightarrow> mini"
  "raw_level j mini m = E4IndependentReproduction \<Longrightarrow> ms_independent m"
  by (cases j; simp add: raw_level_def less_eq_evidence_level_def split: if_splits)+

lemma verdict_verified:
  "snd (verdict_of met (raw_level j mini m) j) \<longleftrightarrow> met \<and> j = OJ_AttackSucceeded"
  using raw_level_cases(2)[of j mini m] by (auto simp: verdict_of_def)

text \<open>What the fields of an outcome say about the run, in terms of what was done.\<close>

definition outcome_justified ::
    "declared_env \<Rightarrow> campaign_spec \<Rightarrow> string \<Rightarrow> string \<Rightarrow> target_id \<Rightarrow> bool \<Rightarrow> string option \<Rightarrow> event_ledger
      \<Rightarrow> (string \<times> oracle_judgement) list \<Rightarrow> campaign_outcome \<Rightarrow> bool" where
  "outcome_justified env spec target_root work_root tid c twin l js o' \<longleftrightarrow>
     (let d = oc_declared o'; attacked = OJ_AttackSucceeded \<in> snd ` set js in
      list_all2 (plan_observed env (oc_campaign o') l) (attack_plans spec) js
      \<and> (\<exists>level f. oc_evidence_level o' = Some level \<and> oc_finding o' = Some f \<and> fi_evidence_level f = level
           \<and> (E3InvariantViolation \<le> level \<longleftrightarrow> attacked)
           \<and> (level = E4IndependentReproduction \<longrightarrow> dr_independent_reproduced d)
           \<and> (level = E5MinimizedReproduction \<longrightarrow> dr_minimized_digest d \<noteq> None)
           \<and> (level = E6CounterfactualDifferential \<longrightarrow> dr_twin_holds d)
           \<and> (level = E7VariantReattackAndRegression \<longleftrightarrow> dr_variant_holds d)
           \<and> (fi_verified f \<longleftrightarrow> attacked \<and> evidence_satisfies_required spec level (dr_independent_reproduced d) (dr_twin_holds d)))
      \<and> (dr_minimized_digest d \<noteq> None \<longrightarrow> attacked \<and> pred_option (digest_logged l) (dr_minimized_digest d))
      \<and> (dr_independent_reproduced d \<longrightarrow> replica_confirms env spec target_root work_root tid c (oc_original_digest o') js)
      \<and> (dr_twin_holds d \<longrightarrow> dr_independent_reproduced d \<and> attacked \<and> twin_confirms env spec twin work_root tid c)
      \<and> (dr_variant_holds d \<longrightarrow> dr_twin_holds d \<and> oc_original_digest_after o' = oc_original_digest o'
           \<and> variant_confirms env spec work_root c))"

lemma outcome_sel:
  fixes r :: run_result
  defines "o' \<equiv> \<lambda>rc campaign f rp cp. final_outcome r rp cp (declared_outcome rc r campaign f True)"
  shows "oc_campaign (o' rc campaign f rp cp) = campaign" "oc_finding (o' rc campaign f rp cp) = Some f"
    "oc_evidence_level (o' rc campaign f rp cp) = Some (rr_level r)" "oc_original_digest (o' rc campaign f rp cp) = rc_digest rc"
    "oc_original_digest_after (o' rc campaign f rp cp) = ms_digest_after (rr_measured r)"
    "dr_independent_reproduced (oc_declared (o' rc campaign f rp cp)) = ms_independent (rr_measured r)"
    "dr_twin_holds (oc_declared (o' rc campaign f rp cp)) = ms_twin_holds (rr_measured r)"
    "dr_variant_holds (oc_declared (o' rc campaign f rp cp)) = (ms_e7 (rr_measured r) \<noteq> None)"
    "dr_minimized_digest (oc_declared (o' rc campaign f rp cp)) = rr_minimized r"
    "dr_contained (oc_declared (o' rc campaign f rp cp)) = rc_contained rc"
    "dr_required_evidence_met (oc_declared (o' rc campaign f rp cp)) = rr_required_met (rc_spec rc) r"
    "dr_regression_digest (oc_declared (o' rc campaign f rp cp)) = map_option e7_regression_digest (ms_e7 (rr_measured r))"
    "dr_harness_digest (oc_declared (o' rc campaign f rp cp)) = rr_harness_digest r"
  by (simp_all add: o'_def final_outcome_def declared_outcome_def Let_def)

lemma declared_claims:
  assumes "write_certificate env fault work_root spec_id (declared_outcome rc r campaign f True) l fs = (Inr path, fs')"
  shows "(ms_twin_holds (rr_measured r) \<longrightarrow> ms_independent (rr_measured r))"
proof -
  from assms have "claims_match_level (level_debug (rr_level r)) (ms_independent (rr_measured r)) (ms_twin_holds (rr_measured r))
      (ms_e7 (rr_measured r) \<noteq> None) (ms_e7 (rr_measured r) \<noteq> None)"
    by (auto simp: declared_outcome_def outcome_level_def Let_def elim!: write_certificate_Inr)
  from claims_match_level_debug[OF this] show ?thesis by blast
qed



end
