(* ===== verification/Declared_Demo.thy ===== *)
theory Declared_Demo
  imports Declared_Evidence
begin

text \<open>
  One declared campaign run to its end, step by step: an uncontained run whose attack succeeds and is reproduced on
  the replica. It shows that the hypotheses of the theorems on declared campaigns can hold together.
\<close>

subsection \<open>A concrete run\<close>

text \<open>A host on which nothing fails: the target is an empty directory, every process prints one line, and every digest
  is the same text.\<close>

definition demo_chain_env :: "string ledger_env" where
  "demo_chain_env = \<lparr>env_record_value = (\<lambda>_. Inr JNull), env_material_value = (\<lambda>_. Inr JNull), env_to_vec = (\<lambda>_. Inr []),
     env_blake3_hex = (\<lambda>_. ''hash'')\<rparr>"

definition demo_run_entry :: "u64 \<Rightarrow> string \<Rightarrow> campaign_id option \<Rightarrow> string list \<Rightarrow> research_event \<Rightarrow> ledger_entry" where
  "demo_run_entry i prev c digests event = \<lparr>le_index = i, le_previous_hash = prev, le_event_hash = ''hash'', le_campaign_id = c,
     le_payload_digest = ''hash'', le_artifact_digests = digests, le_record = \<lparr>ev_occurred_unix_ms = 0, ev_event = event\<rparr>\<rparr>"

definition demo_run_entries :: "ledger_entry list" where
  "demo_run_entries =
     [demo_run_entry 0 GENESIS None [''hash''] (TargetSnapshotted (TargetId 2) (SnapshotId 5) ''hash''),
      demo_run_entry 1 ''hash'' (Some (CampaignId 1)) [''hash''] (ObservationRecorded (CampaignId 1) ''hash'' ''manifest''),
      demo_run_entry 2 ''hash'' (Some (CampaignId 1)) [] (CertificateIssued (CampaignId 1) False True)]"

definition demo_entry_codec :: "ledger_entry codec" where
  "demo_entry_codec =
     \<lparr>codec_to_string = (\<lambda>e. if e = demo_run_entries ! 0 then Inr ''0'' else if e = demo_run_entries ! 1 then Inr ''1''
        else if e = demo_run_entries ! 2 then Inr ''2'' else Inl ''unsupported''),
      codec_from_str = (\<lambda>s. if s = ''0'' then Inr (demo_run_entries ! 0) else if s = ''1'' then Inr (demo_run_entries ! 1)
        else if s = ''2'' then Inr (demo_run_entries ! 2) else Inl ''unsupported'')\<rparr>"

definition demo_certificate :: evidence_certificate where
  "demo_certificate =
     \<lparr>ec_schema = SCHEMA, ec_campaign_id = ''1'', ec_spec_id = ''demo'', ec_state = ''Verified'',
      ec_evidence_level = ''E4IndependentReproduction'', ec_verified_finding = True, ec_original_digest = ''hash'',
      ec_original_digest_after = ''hash'', ec_original_unmodified = True, ec_harness_digest = None,
      ec_independent_reproduced = True, ec_twin_holds = False, ec_variant_holds = False, ec_regression_relpath = None,
      ec_regression_digest = None, ec_minimized_relpath = None, ec_minimized_digest = None, ec_contained = False,
      ec_required_evidence_met = True, ec_ledger_head = ''hash'', ec_ledger_events = 3, ec_release_eligible = False,
      ec_limits = [''containment not demonstrated''], ec_digest = ''hash''\<rparr>"

definition demo_cert_env :: cert_env where
  "demo_cert_env =
     \<lparr>ct_json_to_vec = (\<lambda>_. Inr []), ct_to_vec_pretty = (\<lambda>c. if c = demo_certificate then Inr [1] else Inl ''unsupported''),
      ct_from_slice = (\<lambda>_. Inr demo_certificate), ct_blake3_hex = (\<lambda>_. ''hash''),
      ct_show_campaign_id = (\<lambda>c. case c of CampaignId u \<Rightarrow> show_nat (unat u)),
      ct_parse_campaign_id = (\<lambda>s. case parse_uint (2 ^ 128) s of None \<Rightarrow> Inl ''invalid id'' | Some n \<Rightarrow> Inr (CampaignId (of_nat n))),
      ct_ledger_env = demo_chain_env, ct_entry_codec = demo_entry_codec\<rparr>"

definition demo_answer :: host_answer where
  "demo_answer = \<lparr>hw_spawned = Inr (), hw_polls = [Exit_Running, Exit_Done], hw_output = Inr (Some 0, as_bytes ''LEAK'', []),
     hw_effect = id\<rparr>"

definition demo_declared_env :: declared_env where
  "demo_declared_env =
     \<lparr>dn_cert = demo_cert_env, dn_sha256_hex = (\<lambda>_. ''sha''), dn_from_utf8 = (\<lambda>_. None), dn_lossy = utf8_latin1,
      dn_show_uuid = (\<lambda>_. ''u''), dn_bind_json = (\<lambda>_. Inr []), dn_json_pretty = (\<lambda>_. Inr []),
      dn_campaign_codec = \<lparr>codec_to_string = (\<lambda>_. Inr ''c''), codec_from_str = (\<lambda>_. Inl ''unsupported'')\<rparr>,
      dn_node_codec = \<lparr>codec_to_string = (\<lambda>_. Inr ''n''), codec_from_str = (\<lambda>_. Inl ''unsupported'')\<rparr>,
      dn_edge_codec = \<lparr>codec_to_string = (\<lambda>_. Inr ''e''), codec_from_str = (\<lambda>_. Inl ''unsupported'')\<rparr>,
      dn_card_codec = \<lparr>codec_to_string = (\<lambda>_. Inr ''f''), codec_from_str = (\<lambda>_. Inl ''unsupported'')\<rparr>,
      dn_regression_py = [], dn_cfg = \<lparr>cfg_windows = False, cfg_unix = True, cfg_macos = False, cfg_gnu = True, cfg_msvc = False\<rparr>,
      dn_clock = (\<lambda>_. 0), dn_uuid = of_nat, dn_io = (\<lambda>_. None), dn_write = (\<lambda>_. None), dn_put = (\<lambda>_. (no_faults, ''t'')),
      dn_sql = (\<lambda>_. None), dn_tree = (\<lambda>_ _. (True, Dir [])), dn_walk = (\<lambda>_ _. Inr []), dn_text = (\<lambda>_ _. None),
      dn_catalog = (\<lambda>_. \<lparr>ch_env_var = (\<lambda>_. None), ch_is_dir = (\<lambda>_. False), ch_is_file = (\<lambda>_. False), ch_manifest_dir = [],
        ch_current_dir = None\<rparr>),
      dn_list = (\<lambda>_ _. Inr []), dn_read = (\<lambda>_ _. Inr []), dn_python = (\<lambda>_ _. True), dn_oci = (\<lambda>_. demo_host),
      dn_host = (\<lambda>_ _. demo_answer)\<rparr>"

definition demo_declared_spec :: campaign_spec where
  "demo_declared_spec = demo_spec\<lparr>sp_id := ''demo'',
     sp_generator := \<lparr>cg_kind = Harness, cg_command = ''python3 attack.py'', cg_corpus = None, cg_harness = None, cg_bind = []\<rparr>,
     sp_oracle := \<lparr>co_decides = StdoutContains, co_success_means = ''leak'', co_match = Some ''LEAK'', co_negative_control = None\<rparr>,
     sp_required_evidence := [''E4'']\<rparr>"

definition demo_start :: drun where
  "demo_start = \<lparr>ds_fs = Map.empty, ds_ledger = ledger_new, ds_db = store_empty, ds_log = [], ds_host = [], ds_tick = 0\<rparr>"

definition demo_declared_run :: "(engine_error + campaign_outcome) \<times> drun" where
  "demo_declared_run =
     run_state (run_declared_campaign demo_declared_env (\<lambda>_. Inr ''manifest'') (engine_new True) demo_declared_spec ''/t'' ''/w''
       (default_deny_local (CampaignId 1) (TargetId 2) ''/t'' :: unit authorization_manifest)) demo_start"

lemma demo_declared_sel [simp]:
  "ct_ledger_env (dn_cert demo_declared_env) = demo_chain_env" "dn_sql demo_declared_env n = None" "dn_io demo_declared_env n = None"
  "dn_write demo_declared_env n = None" "dn_clock demo_declared_env n = 0" "dn_uuid demo_declared_env n = of_nat n"
  "dn_text demo_declared_env n p = None" "dn_host demo_declared_env n cmd = demo_answer" "dn_put demo_declared_env n = (no_faults, ''t'')"
  "ct_blake3_hex (dn_cert demo_declared_env) b = ''hash''" "dn_tree demo_declared_env n p = (True, Dir [])"
  "dn_walk demo_declared_env n p = Inr []" "ch_is_file (dn_catalog demo_declared_env n) p = False"
  "dn_cert demo_declared_env = demo_cert_env"
  by (simp_all add: demo_declared_env_def demo_cert_env_def)

definition demo_snapshot :: "drun \<Rightarrow> target_id \<Rightarrow> string \<Rightarrow> target_snapshot" where
  "demo_snapshot s tid root =
     \<lparr>ts_id = SnapshotId (of_nat (ds_tick s + 1)), ts_target_id = tid, ts_git_commit = None, ts_dirty_tree_hash = Some ''hash'',
      ts_submodule_shas = [], ts_source_tree_digest = ''hash'', ts_lockfile_hashes = [], ts_container_image_digest = None,
      ts_compiler_runtime_versions = [], ts_build_flags = [], ts_feature_flags = [],
      ts_runtime_description = ''aros-snapshot:'' @ root, ts_captured_unix_ms = 0\<rparr>"

lemma demo_take_snapshot:
  "run_state (take_snapshot demo_declared_env tid root) s = (Inr (demo_snapshot s tid root), s\<lparr>ds_tick := ds_tick s + 3\<rparr>)"
  by (simp add: take_snapshot_def snapshot_tree_def tree_digest_def demo_snapshot_def read_git_head_def demo_cert_env_def)

lemma demo_still_has_digest:
  "run_state (still_has_digest demo_declared_env tid root d) s = (d = ''hash'', s\<lparr>ds_tick := ds_tick s + 3\<rparr>)"
  by (auto simp: still_has_digest_def demo_take_snapshot demo_snapshot_def)

lemma demo_log_ledger:
  "run_state (log_ledger demo_declared_env event digests) s =
     (Inr (), s\<lparr>ds_tick := ds_tick s + 1, ds_ledger := \<lparr>entries = entries (ds_ledger s) @
        [demo_run_entry (of_nat (length (entries (ds_ledger s)))) (head_hash (entries (ds_ledger s))) (event_campaign_id event) digests event]\<rparr>\<rparr>)"
  by (simp add: log_ledger_def append_event_def entry_hash_def record_bytes_def material_bytes_def to_canonical_json_def demo_chain_env_def
      demo_cert_env_def stamped_payload_def demo_run_entry_def Let_def)

lemma demo_io: "run_state (io_step demo_declared_env) s = (Inr (), s\<lparr>ds_tick := ds_tick s + 1\<rparr>)"
  by (simp add: io_step_def)

lemma demo_write: "run_state (write_file demo_declared_env p b) s = (Inr (), s\<lparr>ds_tick := ds_tick s + 1, ds_fs := (ds_fs s)(p \<mapsto> b)\<rparr>)"
  by (simp add: write_file_def State_Monad.update_def State_Monad.get_def State_Monad.set_def written_def)

abbreviation demo_gen :: campaign_generator where
  "demo_gen \<equiv> \<lparr>cg_kind = Harness, cg_command = ''python3 attack.py'', cg_corpus = None, cg_harness = None, cg_bind = []\<rparr>"

abbreviation demo_oracle :: campaign_oracle where
  "demo_oracle \<equiv> \<lparr>co_decides = StdoutContains, co_success_means = ''leak'', co_match = Some ''LEAK'', co_negative_control = None\<rparr>"

lemma demo_argv: "generator_argv ''python3 attack.py'' = Inr [''python3'', ''attack.py'']"
  by code_simp

lemma demo_plans: "attack_plans demo_declared_spec = [(''primary'', demo_gen, demo_oracle)]"
  by (simp add: attack_plans_def demo_declared_spec_def demo_spec_def)

lemma demo_arm:
  "run_state (run_arm demo_declared_env root work demo_gen mem False) s =
     (Inr ''LEAK'', s\<lparr>ds_tick := ds_tick s + 1, ds_host := ds_host s @ [generator_cmd root [''python3'', ''attack.py''] root None]\<rparr>)"
proof -
  have c: "expand_command ''python3 attack.py'' None = Inr ''python3 attack.py''" by code_simp
  have u: "utf8_latin1 (as_bytes ''LEAK'') = ''LEAK''" by code_simp
  show ?thesis
    by (simp add: run_arm_def stage_catalog_harness_def run_try_bind c demo_argv run_generator_def start_host_def demo_answer_def
        State_Monad.update_def State_Monad.get_def State_Monad.set_def u) (simp add: demo_declared_env_def u)
qed

lemma demo_judged: "evaluate_oracle ''LEAK'' demo_oracle = OJ_AttackSucceeded" "parse_shrink ''LEAK'' = None"
  by code_simp+

definition demo_cas_fs :: "cas \<Rightarrow> drun \<Rightarrow> file_system" where
  "demo_cas_fs c s = snd (cas_put (\<lambda>_. ''hash'') (dn_sha256_hex demo_declared_env) no_faults ''t''
     (ArtifactId (of_nat (ds_tick s + 1))) c (as_bytes ''LEAK'') ''text/plain'' (ds_fs s))"

lemma demo_cas_store:
  assumes "cas_max_bytes c = 32 * 1024 * 1024"
  shows "run_state (cas_store demo_declared_env c (as_bytes ''LEAK'') ''text/plain'') s =
     (Inr \<lparr>ea_id = ArtifactId (of_nat (ds_tick s + 1)), ea_digest_blake3 = ''hash'', ea_digest_sha256 = ''sha'',
        ea_media_type = ''text/plain'', ea_byte_len = 4\<rparr>, s\<lparr>ds_tick := ds_tick s + 2, ds_fs := demo_cas_fs c s\<rparr>)"
proof -
  have l: "length (as_bytes ''LEAK'') = 4" by code_simp
  show ?thesis
    using assms
    by (auto simp: cas_store_def cas_put_def demo_cas_fs_def Let_def l no_faults_def demo_cert_env_def demo_declared_env_def
        split: prod.splits option.splits)
qed

definition demo_context :: run_context where
  "demo_context =
     \<lparr>rc_spec = demo_declared_spec, rc_claim = None, rc_target_root = ''/t'', rc_work_root = ''/w'', rc_target_id = TargetId 2,
      rc_contained = False, rc_cas = \<lparr>cas_root = ''/w/cas'', cas_max_bytes = 32 * 1024 * 1024\<rparr>, rc_digest = ''hash'',
      rc_campaign = \<lparr>cp_id = CampaignId 1, cp_target_id = TargetId 2, cp_snapshot_id = SnapshotId 5, cp_manifest_hash = ''manifest'',
        cp_state = CS_Experimenting, cp_created_unix_ms = 0, cp_updated_unix_ms = 0\<rparr>\<rparr>"

lemma demo_claim_none: "accepted_project_claim demo_declared_spec None = None" "bind_accepted_claim demo_declared_spec None = demo_declared_spec"
  by (simp_all add: accepted_project_claim_def bind_accepted_claim_def demo_declared_spec_def)

lemma demo_open:
  "run_state (open_run demo_declared_env (\<lambda>_. Inr ''manifest'') (engine_new True) demo_declared_spec ''/t'' ''/w''
     (default_deny_local (CampaignId 1) (TargetId 2) ''/t'' :: unit authorization_manifest)) demo_start
   = (Inr demo_context, demo_start\<lparr>ds_tick := 9, ds_ledger := \<lparr>entries = take 1 demo_run_entries\<rparr>\<rparr>)"
proof -
  have c: "cas_open (\<lambda>_. None) (path_join ''/w'' ''cas'') 33554432 = Inr \<lparr>cas_root = ''/w/cas'', cas_max_bytes = 33554432\<rparr>"
    by (simp add: cas_open_def path_join_def path_sep_def starts_with_def)
  show ?thesis
    by (simp add: open_run_def run_try_bind demo_io demo_take_snapshot demo_log_ledger demo_claim_none c demo_snapshot_def
        State_Monad.update_def State_Monad.get_def State_Monad.set_def engine_new_def default_deny_local_def campaign_new_def
        demo_context_def demo_start_def demo_run_entries_def ledger_new_def head_hash_def Let_def)
qed

lemma demo_archive:
  "run_state (archive_harnesses demo_declared_env ''/t'' demo_declared_spec c cid) s = (Inr None, s\<lparr>ds_tick := ds_tick s + 1\<rparr>)"
proof -
  have "all_generators demo_declared_spec = [demo_gen]"
    by (simp add: all_generators_def demo_plans) (simp add: demo_declared_spec_def demo_spec_def)
  moreover have "harness_paths demo_gen = [''attack.py'']" by code_simp
  ultimately show ?thesis
    by (simp add: archive_harnesses_def harness_relpaths_def run_try_bind archive_target_file_def archive_catalog_def)
qed

abbreviation demo_attack :: attack_state where
  "demo_attack \<equiv> \<lparr>at_results = [''primary:AttackSucceeded''], at_judgements = [(''primary'', OJ_AttackSucceeded)],
     at_any_success = True, at_all_hold = False, at_shrink = None\<rparr>"

lemma demo_head: "head_hash [demo_run_entry i prev c digests event] = ''hash''"
  by (simp add: head_hash_def demo_run_entry_def)

lemma demo_attack_phase:
  assumes "entries (ds_ledger s) = take 1 demo_run_entries"
  shows "\<exists>fs hs. run_state (attack_phase demo_declared_env demo_context) s =
    (Inr demo_attack, s\<lparr>ds_tick := ds_tick s + 5, ds_ledger := \<lparr>entries = take 2 demo_run_entries\<rparr>, ds_fs := fs, ds_host := hs\<rparr>)"
proof -
  have m: "missing_generator_reason h r i demo_gen = None" for h r i by (simp add: missing_generator_reason_def)
  show ?thesis
    using assms
    by (cases s) (simp add: attack_phase_def attack_step_def arm_def demo_plans run_try_bind m demo_arm demo_cas_store demo_log_ledger
        demo_judged demo_context_def attack_start_def judgement_debug_def demo_run_entries_def demo_head Let_def)
qed

lemma demo_measure_phase:
  "\<exists>hs. run_state (measure_phase demo_declared_env demo_context None demo_attack ''hash'') s =
     (Inr \<lparr>ms_independent = True, ms_twin_holds = False, ms_e7 = None, ms_digest_after = ''hash''\<rparr>,
      s\<lparr>ds_tick := ds_tick s + 12, ds_host := hs\<rparr>)"
  by (cases s) (simp add: measure_phase_def reproduce_phase_def twin_phase_def independently_reproduce_def copy_tree_def run_try_bind demo_io
      demo_still_has_digest demo_take_snapshot demo_snapshot_def demo_context_def demo_plans demo_arm demo_judged overall_judgement_def Let_def)

abbreviation demo_result :: run_result where
  "demo_result \<equiv> \<lparr>rr_harness_digest = None, rr_controls = (None, None), rr_attack = demo_attack, rr_minimized = None,
     rr_measured = \<lparr>ms_independent = True, ms_twin_holds = False, ms_e7 = None, ms_digest_after = ''hash''\<rparr>\<rparr>"

lemma demo_security:
  assumes "entries (ds_ledger s) = take 1 demo_run_entries"
  shows "\<exists>fs hs. run_state (security_phases demo_declared_env demo_context None) s =
    (Inr demo_result, s\<lparr>ds_tick := ds_tick s + 21, ds_ledger := \<lparr>entries = take 2 demo_run_entries\<rparr>, ds_fs := fs, ds_host := hs\<rparr>)"
proof (cases s)
  case (fields fs0 l db log hs0 t)
  let ?st = "\<lambda>t l fs hs. \<lparr>ds_fs = fs, ds_ledger = l, ds_db = db, ds_log = log, ds_host = hs, ds_tick = t\<rparr>"
  let ?l = "\<lparr>entries = take 2 demo_run_entries\<rparr>"
  from demo_attack_phase[of "?st (Suc t) l fs0 hs0"] assms fields obtain fs hs where
    a: "run_state (attack_phase demo_declared_env demo_context) (?st (Suc t) l fs0 hs0) = (Inr demo_attack, ?st (t + 6) ?l fs hs)"
    by auto
  from demo_measure_phase[of "?st (t + 9) ?l fs hs"] obtain hs' where
    m: "run_state (measure_phase demo_declared_env demo_context None demo_attack ''hash'') (?st (t + 9) ?l fs hs) =
     (Inr \<lparr>ms_independent = True, ms_twin_holds = False, ms_e7 = None, ms_digest_after = ''hash''\<rparr>, ?st (t + 21) ?l fs hs')"
    by auto
  have rc: "rc_target_root demo_context = ''/t''" "rc_spec demo_context = demo_declared_spec" "sp_structural_control demo_declared_spec = None"
    by (simp_all add: demo_context_def demo_declared_spec_def demo_spec_def)
  have mini: "run_state (minimize_phase demo_declared_env demo_context demo_attack) s1 = (Inr None, s1)" for s1
    by (simp add: minimize_phase_def overall_judgement_def)
  have "run_state (security_phases demo_declared_env demo_context None) s = (Inr demo_result, ?st (t + 21) ?l fs hs')"
    using a m unfolding fields
    by (simp add: security_phases_def run_try_bind demo_archive control_phase_def rc demo_take_snapshot demo_snapshot_def mini
        del: take_Suc_Cons) (simp add: add.commute)
  then show ?thesis using fields by auto
qed

definition demo_finished :: campaign where
  "demo_finished = (rc_campaign demo_context)\<lparr>cp_state := CS_Verified\<rparr>"

lemma demo_verdict: "rr_level demo_result = E4IndependentReproduction" "rr_required_met demo_declared_spec demo_result"
  "rr_verdict demo_declared_spec demo_result = (CS_Verified, True)"
proof -
  show l: "rr_level demo_result = E4IndependentReproduction" by (simp add: rr_level_def raw_level_def overall_judgement_def)
  show r: "rr_required_met demo_declared_spec demo_result"
    by (simp add: rr_required_met_def evidence_satisfies_required_def demo_declared_spec_def parse_level_def)
  show "rr_verdict demo_declared_spec demo_result = (CS_Verified, True)"
    using l r by (simp add: rr_verdict_def verdict_of_def overall_judgement_def)
qed

lemma demo_ledger_verifies: "ledger_verify demo_chain_env \<lparr>entries = demo_run_entries\<rparr> = Inr ()"
  by (simp add: ledger_verify_def demo_run_entries_def demo_run_entry_def entry_hash_def record_bytes_def material_bytes_def
      to_canonical_json_def demo_chain_env_def)

lemma demo_codec: "codec_ok demo_entry_codec"
  by (auto simp: codec_ok_def demo_entry_codec_def split: if_splits)

lemma demo_store_ledger:
  assumes "entries (ds_ledger s) = demo_run_entries" "st_ledger_events (ds_db s) = []"
  shows "\<exists>rows. run_state (store_persist_ledger demo_declared_env (CampaignId 1)) s
    = (Inr (), s\<lparr>ds_tick := ds_tick s + 1, ds_db := (ds_db s)\<lparr>st_ledger_events := rows\<rparr>\<rparr>)"
proof -
  have l: "ds_ledger s = \<lparr>entries = demo_run_entries\<rparr>" using assms(1) by (cases "ds_ledger s") simp
  have "\<exists>rows. res_fold (insert_entry demo_entry_codec (CampaignId 1)) [] demo_run_entries = Inr rows"
    by (simp add: demo_run_entries_def insert_entry_def demo_entry_codec_def insert_ledger_row_def ledger_key_def ledger_row_of_def
        demo_run_entry_def)
  then show ?thesis
    using assms(2) by (auto simp: store_persist_ledger_def persist_ledger_for_def l demo_ledger_verifies demo_cert_env_def)
qed

lemma demo_graph_step:
  assumes "st_graph_nodes (ds_db s) = []" "st_graph_edges (ds_db s) = []" "ds_tick s = 37"
  shows "\<exists>db t. run_state (record_declared_graph demo_declared_env demo_finished demo_declared_spec OJ_AttackSucceeded True True False
      E4IndependentReproduction ''hash'' None) s = (Inr (), s\<lparr>ds_tick := t, ds_db := db\<rparr>)"
proof -
  let ?g = "declared_graph (\<lambda>k. 38 + of_nat k) 0 demo_finished demo_declared_spec OJ_AttackSucceeded True True False
      E4IndependentReproduction ''hash'' None"
  have codecs: "codec_to_string (dn_node_codec demo_declared_env) n = Inr ''n''"
    "codec_to_string (dn_edge_codec demo_declared_env) e = Inr ''e''" for n e
    by (simp_all add: demo_declared_env_def)
  have "distinct (map gn_id (ag_nodes ?g))" "distinct (map ge_id (ag_edges ?g))"
    unfolding declared_graph_node_ids declared_graph_edge_ids by simp_all
  with insert_payloads_ok[OF codecs(1), of gn_id "ag_nodes ?g" "[]"] insert_payloads_ok[OF codecs(2), of ge_id "ag_edges ?g" "[]"]
  obtain rows1 rows2 where "res_fold (insert_payload gn_id (dn_node_codec demo_declared_env) (CampaignId 1)) [] (ag_nodes ?g) = Inr rows1"
    "res_fold (insert_payload ge_id (dn_edge_codec demo_declared_env) (CampaignId 1)) [] (ag_edges ?g) = Inr rows2"
    by fastforce
  moreover have "cp_id demo_finished = CampaignId 1" by (simp add: demo_finished_def demo_context_def)
  ultimately show ?thesis
    using assms
    by (cases s) (simp add: record_declared_graph_def State_Monad.update_def State_Monad.get_def State_Monad.set_def persist_graph_def Let_def)
qed

definition demo_finding :: finding where
  "demo_finding = \<lparr>fi_id = FindingId 31, fi_campaign_id = CampaignId 1, fi_hypothesis_id = HypothesisId 32, fi_claim = ''owner only'',
     fi_evidence_level = E4IndependentReproduction, fi_manifest_hash = ''manifest'', fi_verified = True\<rparr>"

lemma demo_certificate_step:
  assumes "ds_ledger s = \<lparr>entries = demo_run_entries\<rparr>"
  shows "\<exists>fs. run_state (certificate_step demo_declared_env ''/w'' ''demo''
      (declared_outcome demo_context demo_result demo_finished demo_finding True)) s
    = (Inr ''/w/certificate.json'', s\<lparr>ds_tick := ds_tick s + 1, ds_fs := fs\<rparr>)"
proof -
  let ?o = "declared_outcome demo_context demo_result demo_finished demo_finding True"
  let ?c = "certificate_of demo_cert_env ''demo'' ?o \<lparr>entries = demo_run_entries\<rparr>"
  have one: "show_nat (Suc 0) = ''1''" by code_simp
  have "?c\<lparr>ec_digest := ''hash''\<rparr> = demo_certificate"
    by (simp add: certificate_of_def declared_outcome_def demo_verdict demo_certificate_def demo_cert_env_def demo_finished_def demo_context_def
        demo_finding_def outcome_level_def default_declared_run_meta_def certificate_limits_def ledger_head_def demo_run_entries_def
        demo_run_entry_def ledger_len_def Let_def one)
  moreover have "certificate_digest demo_cert_env ?c = Inr ''hash''"
    by (simp add: certificate_digest_def to_canonical_json_def demo_cert_env_def)
  moreover have "claims_match_level ''E4IndependentReproduction'' True False False False" by code_simp
  moreover have "path_join ''/w'' CERTIFICATE_FILE = ''/w/certificate.json''" by code_simp
  ultimately have "\<exists>fs'. write_certificate demo_cert_env None ''/w'' ''demo'' ?o \<lparr>entries = demo_run_entries\<rparr> (ds_fs s)
      = (Inr ''/w/certificate.json'', fs')"
    by (simp add: write_certificate_def Let_def) (simp add: declared_outcome_def outcome_level_def demo_verdict demo_cert_env_def Let_def)
  then show ?thesis using assms by (auto simp: certificate_step_def)
qed

lemma demo_seal:
  assumes "ds_ledger s = \<lparr>entries = demo_run_entries\<rparr>" "ds_db s = store_empty\<lparr>st_campaigns := cs\<rparr>" "ds_tick s = 36"
  shows "\<exists>rpath s'. run_state (seal_phase demo_declared_env demo_context demo_result demo_finished demo_finding) s
    = (Inr (final_outcome demo_result rpath ''/w/certificate.json'' (declared_outcome demo_context demo_result demo_finished demo_finding True)), s')
    \<and> ds_ledger s' = \<lparr>entries = demo_run_entries\<rparr>"
proof -
  have id: "cp_id demo_finished = CampaignId 1" "rc_spec demo_context = demo_declared_spec" "rc_work_root demo_context = ''/w''"
    "sp_id demo_declared_spec = ''demo''" "overall_judgement demo_attack = OJ_AttackSucceeded" "fi_verified demo_finding"
    "rc_digest demo_context = ''hash''" "rc_claim demo_context = None"
    by (simp_all add: demo_finished_def demo_context_def demo_declared_spec_def overall_judgement_def demo_finding_def)
  from demo_store_ledger[of s] assms obtain rows where
    p: "run_state (store_persist_ledger demo_declared_env (CampaignId 1)) s
      = (Inr (), s\<lparr>ds_tick := 37, ds_db := store_empty\<lparr>st_campaigns := cs, st_ledger_events := rows\<rparr>\<rparr>)" (is "_ = (_, ?s1)")
    by (auto simp: store_empty_def)
  from demo_graph_step[of ?s1] obtain db t where
    g: "run_state (record_declared_graph demo_declared_env demo_finished demo_declared_spec OJ_AttackSucceeded True True False
      E4IndependentReproduction ''hash'' None) ?s1 = (Inr (), ?s1\<lparr>ds_tick := t, ds_db := db\<rparr>)" (is "_ = (_, ?s2)")
    by (auto simp: store_empty_def)
  from demo_certificate_step[of ?s2] assms(1) obtain fs where
    c: "run_state (certificate_step demo_declared_env ''/w'' ''demo''
      (declared_outcome demo_context demo_result demo_finished demo_finding True)) ?s2
    = (Inr ''/w/certificate.json'', ?s2\<lparr>ds_tick := t + 1, ds_fs := fs\<rparr>)" by auto
  show ?thesis
    using assms(1)
    by (simp add: seal_phase_def State_Monad.get_def run_try_bind id p demo_verdict g c[simplified] write_report_def demo_write demo_ledger_verifies
        demo_cert_env_def Let_def) blast
qed

lemma demo_conclude:
  assumes "ds_ledger s = \<lparr>entries = take 2 demo_run_entries\<rparr>" "ds_db s = store_empty" "ds_tick s = 31"
  shows "\<exists>rpath s'. run_state (conclude_phase demo_declared_env demo_context demo_result) s
    = (Inr (final_outcome demo_result rpath ''/w/certificate.json'' (declared_outcome demo_context demo_result demo_finished demo_finding True)), s')
    \<and> ds_ledger s' = \<lparr>entries = demo_run_entries\<rparr>"
proof -
  let ?s = "s\<lparr>ds_tick := 36, ds_db := store_empty\<lparr>st_campaigns := [(CampaignId 1, ''c'')]\<rparr>, ds_ledger := \<lparr>entries = demo_run_entries\<rparr>\<rparr>"
  have fin: "(rc_campaign demo_context)\<lparr>cp_state := CS_Verified, cp_updated_unix_ms := 0\<rparr> = demo_finished"
    by (simp add: demo_finished_def demo_context_def)
  have put: "run_state (store_put_campaign demo_declared_env demo_finished) s1
      = (Inr (), s1\<lparr>ds_tick := ds_tick s1 + 1, ds_db := store_empty\<lparr>st_campaigns := [(CampaignId 1, ''c'')]\<rparr>\<rparr>)"
    if "ds_db s1 = store_empty" for s1
    using that by (simp add: store_put_campaign_def put_campaign_def insert_or_replace_def store_empty_def demo_finished_def demo_context_def)
      (simp add: demo_declared_env_def)
  have ev: "run_state (final_events demo_declared_env demo_context (CampaignId 1) ''hash'') s1
      = (Inr (), s1\<lparr>ds_tick := ds_tick s1 + 1, ds_ledger := \<lparr>entries = demo_run_entries\<rparr>\<rparr>)"
    if "ds_ledger s1 = \<lparr>entries = take 2 demo_run_entries\<rparr>" for s1
    using that by (simp add: final_events_def run_try_bind demo_log_ledger demo_context_def demo_run_entries_def head_hash_def)
      (simp add: demo_run_entry_def)
  have f: "cp_id demo_finished = CampaignId 1" "cp_manifest_hash demo_finished = ''manifest''" "sp_invariant demo_declared_spec = ''owner only''"
    "rc_spec demo_context = demo_declared_spec" "cp_id (rc_campaign demo_context) = CampaignId 1"
    "cp_manifest_hash (rc_campaign demo_context) = ''manifest''"
    by (simp_all add: demo_finished_def demo_context_def demo_declared_spec_def demo_spec_def)
  have "run_state (conclude_phase demo_declared_env demo_context demo_result) s
      = run_state (seal_phase demo_declared_env demo_context demo_result demo_finished demo_finding) ?s"
    using assms
    by (cases s) (simp add: conclude_phase_def regression_events_def run_try_bind put ev fin demo_verdict f demo_finding_def)
  then show ?thesis using demo_seal[of ?s] by simp
qed

lemma demo_run_returns:
  "\<exists>rpath s'. demo_declared_run
    = (Inr (final_outcome demo_result rpath ''/w/certificate.json'' (declared_outcome demo_context demo_result demo_finished demo_finding True)), s')
    \<and> ds_ledger s' = \<lparr>entries = demo_run_entries\<rparr>"
proof -
  let ?s0 = "demo_start\<lparr>ds_tick := 10, ds_ledger := \<lparr>entries = take 1 demo_run_entries\<rparr>\<rparr>"
  from demo_security[of ?s0] obtain fs hs where
    sec: "run_state (security_phases demo_declared_env demo_context None) ?s0 = (Inr demo_result,
      ?s0\<lparr>ds_tick := 31, ds_ledger := \<lparr>entries = take 2 demo_run_entries\<rparr>, ds_fs := fs, ds_host := hs\<rparr>)" (is "_ = (_, ?s1)")
    by auto
  have none: "environment_mismatch cfg None c = None" "eg_twin_root (engine_new True) = None" for cfg c
    by (simp_all add: environment_mismatch_def engine_new_def)
  have "demo_declared_run = run_state (conclude_phase demo_declared_env demo_context demo_result) ?s1"
    using sec unfolding demo_declared_run_def run_declared_campaign_def run_try_bind demo_open
    by (simp add: none run_try_bind demo_start_def)
  then show ?thesis using demo_conclude[of ?s1] by (simp add: demo_start_def)
qed

subsection \<open>The theorems on the run\<close>

lemma demo_uuid: "ct_parse_campaign_id demo_cert_env (ct_show_campaign_id demo_cert_env i) = Inr i"
proof (cases i)
  case (CampaignId u)
  have "unat u < 2 ^ 128" using unsigned_less[of u] by simp
  then show ?thesis by (simp add: CampaignId demo_cert_env_def parse_uint_show del: power_numeral)
qed



end
