(* ===== verification/Spec2Isabelle.thy ===== *)
theory Spec2Isabelle
  imports Store Shrink Planner Claims Scheduler Ipc_Session Wire Daemon Verifier Sandbox Declared_Demo
begin

text \<open>
  Verification of the AROS trusted core.
\<close>

end
